(* ===== verification/Diagrams.thy ===== *)
theory Diagrams
  imports Complex_Main
begin

text \<open>
  \<open>scripts/generate_diagrams.py\<close>: the two diagrams of the documentation, as the shapes that are drawn on a
  canvas, in their order. Text is placed by its anchor; how the imaging library renders it is its own.
\<close>

section \<open>Shapes\<close>

type_synonym point = "rat \<times> rat"
type_synonym rectangle = "rat \<times> rat \<times> rat \<times> rat"

datatype shape =
    Rounded_Rectangle rectangle rat string "(string \<times> rat) option"
  | Line "point list" string rat
  | Polygon "point list" string
  | Text point string string string

definition bg :: string where "bg = ''#0b1220''"
definition box_color :: string where "box_color = ''#17233a''"
definition line_color :: string where "line_color = ''#60a5fa''"
definition text_color :: string where "text_color = ''#f8fafc''"
definition muted :: string where "muted = ''#b8c4d8''"
definition accent :: string where "accent = ''#34d399''"

definition canvas :: rectangle where
  "canvas = (0, 0, 1500, 900)"

definition box :: "rectangle \<Rightarrow> string \<Rightarrow> string \<Rightarrow> string \<Rightarrow> shape list" where
  "box xy title subtitle color =
     (case xy of (x1, y1, x2, y2) \<Rightarrow>
       [Rounded_Rectangle xy 12 color (Some (line_color, 2)), Text ((x1 + x2) / 2, y1 + 18) title text_color ''ma''] @
       (if subtitle \<noteq> [] then [Text ((x1 + x2) / 2, y1 + 50) subtitle muted ''ma''] else []))"

definition arrow :: "point \<Rightarrow> point \<Rightarrow> string \<Rightarrow> shape list" where
  "arrow start end label =
     (case end of (x, y) \<Rightarrow>
       [Line [start, end] line_color 3, Polygon [(x, y), (x - 10, y - 6), (x - 10, y + 6)] line_color] @
       (if label \<noteq> [] then [Text ((fst start + x) / 2, snd start - 10) label muted ''ms''] else []))"

section \<open>The diagrams\<close>

definition component_boxes :: "(string \<times> rectangle) list" where
  "component_boxes =
     [(''gateway'', (60, 120, 310, 230)), (''orchestrator'', (430, 120, 730, 230)), (''tools'', (850, 120, 1130, 230)),
      (''systems'', (1250, 120, 1440, 230)), (''checkpoint'', (120, 390, 390, 510)), (''queue'', (470, 390, 740, 510)),
      (''policy'', (820, 390, 1090, 510)), (''approval'', (1170, 390, 1430, 510)), (''observe'', (470, 680, 1030, 800))]"

definition component_texts :: "(string \<times> string \<times> string \<times> string) list" where
  "component_texts =
     [(''gateway'', ''FastAPI gateway'', ''goals, status, events'', box_color),
      (''orchestrator'', ''Agents SDK orchestrator'', ''typed decisions + specialists'', box_color),
      (''tools'', ''Tool gateway'', ''validate | authorize | dedupe'', box_color),
      (''systems'', ''Systems'', ''logs | metrics | AWS'', box_color),
      (''checkpoint'', ''Checkpoint store'', ''optimistic versions'' @ [CHR 0x0A] @ ''last known good state'', box_color),
      (''queue'', ''Durable queue'', ''leases | retry | DLQ'', box_color),
      (''policy'', ''Permission policy'', ''LOW | MEDIUM | HIGH | BLOCKED'', box_color),
      (''approval'', ''Human approval'', ''authenticated decision gate'', box_color),
      (''observe'', ''Observability'', ''OpenAI traces | OpenTelemetry | Prometheus | Grafana'', ''#12302d'')]"

definition interactions :: "(point \<times> point \<times> string) list" where
  "interactions =
     [((310, 175), (430, 175), ''goal''), ((730, 175), (850, 175), ''tool request''),
      ((1130, 175), (1250, 175), ''bounded call''), ((255, 390), (255, 235), ''resume''),
      ((605, 390), (605, 235), ''deliver''), ((955, 390), (955, 235), ''authorize''),
      ((1300, 390), (1300, 235), ''approve'')]"

definition telemetry_lines :: "point list list" where
  "telemetry_lines =
     [[(255, 510), (255, 620), (750, 620), (750, 680)], [(605, 510), (605, 620)], [(955, 510), (955, 620)],
      [(1300, 510), (1300, 620), (750, 620)]]"

definition architecture :: "shape list" where
  "architecture =
     Text (750, 32) ''AgentResilience - durable incident execution'' text_color ''ma'' #
     concat (map (\<lambda>(name, title, subtitle, color). box (the (map_of component_boxes name)) title subtitle color)
       component_texts) @
     concat (map (\<lambda>(start, end, label). arrow start end label) interactions) @
     map (\<lambda>ps. Line ps accent 3) telemetry_lines"

definition lanes :: "(rat \<times> string) list" where
  "lanes = [(140, ''Gateway''), (440, ''Queue / worker''), (750, ''Orchestrator''), (1060, ''Checkpoint''),
     (1360, ''Tool gateway'')]"

definition lane_events :: "(rat \<times> rat \<times> rat \<times> string) list" where
  "lane_events =
     [(170, 140, 440, ''enqueue goal''), (250, 440, 750, ''decide: inspect metrics''),
      (330, 750, 1060, ''checkpoint intent''), (410, 750, 1360, ''execute (idempotency key)''),
      (490, 1360, 750, ''tool result''), (570, 750, 1060, ''checkpoint result OK''),
      (650, 440, 750, ''next delivery''), (720, 750, 750, ''PROCESS CRASH''),
      (790, 440, 1060, ''lease expires; reload checkpoint''), (840, 1060, 750, ''resume next incomplete step'')]"

definition lane_event :: "rat \<times> rat \<times> rat \<times> string \<Rightarrow> shape list" where
  "lane_event ev =
     (case ev of (y, left, right, label) \<Rightarrow>
       if left = right
       then [Rounded_Rectangle (left - 100, y - 22, right + 100, y + 22) 8 ''#7f1d1d'' None,
             Text (left, y) label text_color ''mm'']
       else arrow (left, y) (right, y) label)"

definition sequence :: "shape list" where
  "sequence =
     Text (750, 32) ''Crash recovery sequence'' text_color ''ma'' #
     concat (map (\<lambda>(x, label). [Text (x, 95) label text_color ''ma'', Line [(x, 125), (x, 840)] ''#334155'' 2]) lanes) @
     concat (map lane_event lane_events)"

section \<open>What they show\<close>

fun corners :: "shape \<Rightarrow> point list" where
  "corners (Rounded_Rectangle (x1, y1, x2, y2) r f l) = [(x1, y1), (x2, y2)]"
| "corners (Line ps c w) = ps"
| "corners (Polygon ps c) = ps"
| "corners (Text p t c a) = [p]"

definition inside :: "rectangle \<Rightarrow> point \<Rightarrow> bool" where
  "inside r p = (case r of (x1, y1, x2, y2) \<Rightarrow> x1 \<le> fst p \<and> fst p \<le> x2 \<and> y1 \<le> snd p \<and> snd p \<le> y2)"

fun apart :: "rectangle \<Rightarrow> rectangle \<Rightarrow> bool" where
  "apart (x1, y1, x2, y2) (u1, v1, u2, v2) = (x2 < u1 \<or> u2 < x1 \<or> y2 < v1 \<or> v2 < y1)"

fun pairwise_apart :: "rectangle list \<Rightarrow> bool" where
  "pairwise_apart [] = True"
| "pairwise_apart (r # rs) = (list_all (apart r) rs \<and> pairwise_apart rs)"

lemma drawn_on_canvas:
  "list_all (\<lambda>s. list_all (inside canvas) (corners s)) (architecture @ sequence)"
  by code_simp

lemma boxes_apart: "pairwise_apart (map snd component_boxes)"
  by code_simp

lemma every_component_is_drawn: "map fst component_texts = map fst component_boxes"
  by code_simp

text \<open>Every message of the sequence runs between two lanes.\<close>

lemma events_join_lanes:
  "list_all (\<lambda>(y, left, right, label). left \<in> set (map fst lanes) \<and> right \<in> set (map fst lanes)) lane_events"
  by code_simp

text \<open>
  The head of an arrow is drawn as if the arrow came from the left: its base is to the left of the tip
  also for one that comes from the right or from below, as \<open>tool result\<close> and \<open>resume\<close> do.
\<close>

lemma arrow_head_points_right:
  "arrow (u, v) (x, y) label ! 1 = Polygon [(x, y), (x - 10, y - 6), (x - 10, y + 6)] line_color"
  by (simp add: arrow_def)

lemma arrows_from_right_and_below:
  "list_ex (\<lambda>(start, end, label). fst start = fst end \<and> snd end < snd start) interactions"
  "list_ex (\<lambda>(y, left, right, label). right < left) lane_events"
  by code_simp+

end
