(* ===== verification/Prelude.thy ===== *)
theory Prelude
  imports Complex_Main "HOL-Library.AList" "HOL-Library.List_Lexorder" "HOL-Library.Char_ord"
    "HOL-Library.Multiset"
begin

text \<open>
  The base of the library. It holds
  \<^item> programs that read and write a state and may raise: \<open>('s, 'e, 'a) prog\<close>, with sequencing,
    exception handling and a weakest-precondition calculus whose rules are collected in
    \<open>wp_rules\<close>;
  \<^item> the guarantee calculus: \<open>relates R m\<close> says that every run of \<open>m\<close>, whether it returns or
    raises, moves the state along \<open>R\<close>; its rules are proved once in the locale \<open>guarantee\<close>;
  \<^item> Python's slices, integer printing and a few lemmas on lists and association lists.
\<close>

named_theorems wp_rules \<open>weakest preconditions of programs and operations\<close>
named_theorems model_defs \<open>definitions of straight-line programs\<close>

section \<open>Programs with state and exceptions\<close>

type_synonym ('s, 'e, 'a) prog = "'s \<Rightarrow> ('e + 'a) \<times> 's"

definition ret :: "'a \<Rightarrow> ('s, 'e, 'a) prog" where
  "ret x = (\<lambda>s. (Inr x, s))"

definition raise :: "'e \<Rightarrow> ('s, 'e, 'a) prog" where
  "raise e = (\<lambda>s. (Inl e, s))"

definition bindE :: "('s, 'e, 'a) prog \<Rightarrow> ('a \<Rightarrow> ('s, 'e, 'b) prog) \<Rightarrow> ('s, 'e, 'b) prog" where
  "bindE m f = (\<lambda>s. case m s of (Inl e, s') \<Rightarrow> (Inl e, s') | (Inr x, s') \<Rightarrow> f x s')"

definition try_catch :: "('s, 'e, 'a) prog \<Rightarrow> ('e \<Rightarrow> ('s, 'e, 'a) prog) \<Rightarrow> ('s, 'e, 'a) prog" where
  "try_catch m h = (\<lambda>s. case m s of (Inl e, s') \<Rightarrow> h e s' | (Inr x, s') \<Rightarrow> (Inr x, s'))"

definition lift_sum :: "'e + 'a \<Rightarrow> ('s, 'e, 'a) prog" where
  "lift_sum r = (\<lambda>s. (r, s))"

lemmas prog_defs = ret_def raise_def bindE_def try_catch_def lift_sum_def

lemma bindE_ret [simp]: "bindE (ret x) f = f x"
  by (simp add: prog_defs)

lemma bindE_raise [simp]: "bindE (raise e) f = raise e"
  by (simp add: prog_defs)

lemma bindE_assoc: "bindE (bindE m f) g = bindE m (\<lambda>x. bindE (f x) g)"
  by (rule ext) (simp add: prog_defs split: prod.split sum.split)

lemma bindE_Inr: "m s = (Inr x, s') \<Longrightarrow> bindE m f s = f x s'"
  by (simp add: bindE_def)

lemma bindE_Inl: "m s = (Inl e, s') \<Longrightarrow> bindE m f s = (Inl e, s')"
  by (simp add: bindE_def)

lemma try_catch_Inr: "m s = (Inr x, s') \<Longrightarrow> try_catch m h s = (Inr x, s')"
  by (simp add: try_catch_def)

lemma try_catch_Inl: "m s = (Inl e, s') \<Longrightarrow> try_catch m h s = h e s'"
  by (simp add: try_catch_def)

lemma bindE_eq_Inr:
  "bindE m f s = (Inr y, s'') \<longleftrightarrow> (\<exists>x s'. m s = (Inr x, s') \<and> f x s' = (Inr y, s''))"
  by (auto simp: bindE_def split: prod.splits sum.splits)

section \<open>Fallible values\<close>

definition bind_sum :: "'e + 'a \<Rightarrow> ('a \<Rightarrow> 'e + 'b) \<Rightarrow> 'e + 'b" where
  "bind_sum r f = (case r of Inl e \<Rightarrow> Inl e | Inr x \<Rightarrow> f x)"

fun map_sum_list :: "('a \<Rightarrow> 'e + 'b) \<Rightarrow> 'a list \<Rightarrow> 'e + 'b list" where
  \<comment> \<open>a list comprehension whose element may raise\<close>
  "map_sum_list f [] = Inr []"
| "map_sum_list f (x # xs) = bind_sum (f x) (\<lambda>y. bind_sum (map_sum_list f xs) (\<lambda>ys. Inr (y # ys)))"

lemma bind_sum_simps [simp]: "bind_sum (Inr x) f = f x" "bind_sum (Inl e) f = Inl e"
  by (simp_all add: bind_sum_def)

lemma bind_sum_eq_Inr: "bind_sum r f = Inr y \<longleftrightarrow> (\<exists>x. r = Inr x \<and> f x = Inr y)"
  by (cases r) auto

lemma map_sum_list_Inr: "(\<And>x. x \<in> set xs \<Longrightarrow> f x = Inr (g x)) \<Longrightarrow> map_sum_list f xs = Inr (map g xs)"
  by (induction xs) auto

section \<open>Weakest preconditions\<close>

text \<open>
  \<open>wp m Q E s\<close>: run from \<open>s\<close>, the program \<open>m\<close> either returns a value with \<open>Q\<close> or raises an
  exception with \<open>E\<close>.
\<close>

definition wp :: "('s, 'e, 'a) prog \<Rightarrow> ('a \<Rightarrow> 's \<Rightarrow> bool) \<Rightarrow> ('e \<Rightarrow> 's \<Rightarrow> bool) \<Rightarrow> 's \<Rightarrow> bool" where
  "wp m Q E s = (case m s of (Inl e, s') \<Rightarrow> E e s' | (Inr x, s') \<Rightarrow> Q x s')"

lemma wp_ret [wp_rules]: "wp (ret x) Q E s = Q x s"
  by (simp add: wp_def ret_def)

lemma wp_raise [wp_rules]: "wp (raise e) Q E s = E e s"
  by (simp add: wp_def raise_def)

lemma wp_bindE [wp_rules]: "wp (bindE m f) Q E s = wp m (\<lambda>x. wp (f x) Q E) E s"
  by (simp add: wp_def bindE_def split: prod.split sum.split)

lemma wp_try_catch [wp_rules]: "wp (try_catch m h) Q E s = wp m Q (\<lambda>e. wp (h e) Q E) s"
  by (simp add: wp_def try_catch_def split: prod.split sum.split)

lemma wp_lift_sum [wp_rules]:
  "wp (lift_sum r) Q E s = (case r of Inl e \<Rightarrow> E e s | Inr x \<Rightarrow> Q x s)"
  by (simp add: wp_def lift_sum_def)

lemma wp_if [wp_rules]: "wp (if b then m else n) Q E s = (if b then wp m Q E s else wp n Q E s)"
  by simp

lemma wp_mono:
  assumes "wp m Q E s" and "\<And>x s'. Q x s' \<Longrightarrow> Q' x s'" and "\<And>e s'. E e s' \<Longrightarrow> E' e s'"
  shows "wp m Q' E' s"
  using assms by (auto simp: wp_def split: prod.splits sum.splits)

lemma wp_conj: "wp m Q E s \<Longrightarrow> wp m Q' E' s \<Longrightarrow> wp m (\<lambda>x t. Q x t \<and> Q' x t) (\<lambda>e t. E e t \<and> E' e t) s"
  by (auto simp: wp_def split: prod.splits sum.splits)

lemma wp_top: "wp m (\<lambda>_ _. True) (\<lambda>_ _. True) s"
  by (auto simp: wp_def split: prod.splits sum.splits)

section \<open>Guarantees\<close>

definition relates :: "('s \<Rightarrow> 's \<Rightarrow> bool) \<Rightarrow> ('s, 'e, 'a) prog \<Rightarrow> bool" where
  "relates R m \<longleftrightarrow> (\<forall>s. R s (snd (m s)))"

lemma relatesI: "(\<And>s. R s (snd (m s))) \<Longrightarrow> relates R m"
  by (simp add: relates_def)

lemma relatesD: "relates R m \<Longrightarrow> R s (snd (m s))"
  by (simp add: relates_def)

lemma relates_wp: "relates R m \<longleftrightarrow> (\<forall>s. wp m (\<lambda>_. R s) (\<lambda>_. R s) s)"
proof -
  have "wp m (\<lambda>_. R s) (\<lambda>_. R s) s = R s (snd (m s))" for s
    by (cases "m s") (simp add: wp_def split: sum.split)
  then show ?thesis by (simp add: relates_def)
qed

lemma relates_wpD: "relates R m \<Longrightarrow> wp m (\<lambda>_. R s) (\<lambda>_. R s) s"
  by (simp add: relates_wp)

text \<open>
  A guarantee is a relation on states that skipping satisfies and that composes: it is what a
  component promises about every one of its runs, including the interrupted ones. The composition
  rules below are proved for any such relation.
\<close>

locale guarantee =
  fixes R :: "'s \<Rightarrow> 's \<Rightarrow> bool"
  assumes R_refl: "R s s"
    and R_trans: "R s t \<Longrightarrow> R t u \<Longrightarrow> R s u"
begin

lemma relates_ret: "relates R (ret x)"
  by (simp add: relates_def ret_def R_refl)

lemma relates_raise: "relates R (raise e)"
  by (simp add: relates_def raise_def R_refl)

lemma relates_lift_sum: "relates R (lift_sum r)"
  by (simp add: relates_def lift_sum_def R_refl)

lemma relates_bindE:
  assumes "relates R m" and "\<And>x. relates R (f x)"
  shows "relates R (bindE m f)"
proof (rule relatesI)
  fix s
  have m: "R s (snd (m s))" using assms(1) by (rule relatesD)
  show "R s (snd (bindE m f s))"
  proof (cases "m s")
    case (Pair r s')
    show ?thesis
    proof (cases r)
      case (Inl e)
      with Pair m show ?thesis by (simp add: bindE_def)
    next
      case (Inr x)
      with Pair m have "R s s'" by simp
      moreover have "R s' (snd (f x s'))" using assms(2) by (rule relatesD)
      ultimately show ?thesis using Pair Inr by (auto simp: bindE_def intro: R_trans)
    qed
  qed
qed

lemma relates_try_catch:
  assumes "relates R m" and "\<And>e. relates R (h e)"
  shows "relates R (try_catch m h)"
proof (rule relatesI)
  fix s
  have m: "R s (snd (m s))" using assms(1) by (rule relatesD)
  show "R s (snd (try_catch m h s))"
  proof (cases "m s")
    case (Pair r s')
    show ?thesis
    proof (cases r)
      case (Inr x)
      with Pair m show ?thesis by (simp add: try_catch_def)
    next
      case (Inl e)
      with Pair m have "R s s'" by simp
      moreover have "R s' (snd (h e s'))" using assms(2) by (rule relatesD)
      ultimately show ?thesis using Pair Inl by (auto simp: try_catch_def intro: R_trans)
    qed
  qed
qed

lemma relates_if: "(b \<Longrightarrow> relates R m) \<Longrightarrow> (\<not> b \<Longrightarrow> relates R n) \<Longrightarrow> relates R (if b then m else n)"
  by simp

lemma relates_case_option:
  "(x = None \<Longrightarrow> relates R m) \<Longrightarrow> (\<And>y. x = Some y \<Longrightarrow> relates R (f y)) \<Longrightarrow>
    relates R (case x of None \<Rightarrow> m | Some y \<Rightarrow> f y)"
  by (cases x) auto

lemma relates_case_sum:
  "(\<And>e. x = Inl e \<Longrightarrow> relates R (f e)) \<Longrightarrow> (\<And>y. x = Inr y \<Longrightarrow> relates R (g y)) \<Longrightarrow>
    relates R (case x of Inl e \<Rightarrow> f e | Inr y \<Rightarrow> g y)"
  by (cases x) auto

lemma relates_case_prod:
  "(\<And>a b. x = (a, b) \<Longrightarrow> relates R (f a b)) \<Longrightarrow> relates R (case x of (a, b) \<Rightarrow> f a b)"
  by (cases x) auto

lemmas relates_rules = relates_ret relates_raise relates_lift_sum relates_bindE relates_try_catch
  relates_if relates_case_option relates_case_sum relates_case_prod

end

text \<open>An invariant is the guarantee "if it held before, it holds after".\<close>

abbreviation keeps :: "('s \<Rightarrow> bool) \<Rightarrow> ('s, 'e, 'a) prog \<Rightarrow> bool" where
  "keeps I \<equiv> relates (\<lambda>s t. I s \<longrightarrow> I t)"

interpretation keeping: guarantee "\<lambda>s t. I s \<longrightarrow> I t" for I :: "'s \<Rightarrow> bool"
  by unfold_locales auto

lemma keeps_conj: "keeps I m \<Longrightarrow> keeps J m \<Longrightarrow> keeps (\<lambda>s. I s \<and> J s) m"
  by (simp add: relates_def)

section \<open>Results under an invariant\<close>

text \<open>
  \<open>ensures I m Q\<close>: every run of \<open>m\<close> keeps the invariant \<open>I\<close>, and what it returns satisfies \<open>Q\<close>.
\<close>

definition ensures :: "('s \<Rightarrow> bool) \<Rightarrow> ('s, 'e, 'a) prog \<Rightarrow> ('a \<Rightarrow> bool) \<Rightarrow> bool" where
  "ensures I m Q \<longleftrightarrow> (\<forall>s. I s \<longrightarrow> wp m (\<lambda>x t. I t \<and> Q x) (\<lambda>_ t. I t) s)"

lemma ensuresI: "(\<And>s. I s \<Longrightarrow> wp m (\<lambda>x t. I t \<and> Q x) (\<lambda>_ t. I t) s) \<Longrightarrow> ensures I m Q"
  by (simp add: ensures_def)

lemma ensuresD: "ensures I m Q \<Longrightarrow> I s \<Longrightarrow> wp m (\<lambda>x t. I t \<and> Q x) (\<lambda>_ t. I t) s"
  by (simp add: ensures_def)

lemma ensures_keeps: "ensures I m Q \<Longrightarrow> keeps I m"
proof (rule relatesI, rule impI)
  fix s
  assume "ensures I m Q" and "I s"
  then show "I (snd (m s))"
    by (cases "m s"; cases "fst (m s)") (auto dest!: ensuresD simp: wp_def)
qed

lemma keeps_ensures: "keeps I m \<Longrightarrow> ensures I m (\<lambda>_. True)"
  unfolding relates_wp ensures_def by (blast intro: wp_mono)

lemma ensures_weaken: "ensures I m Q \<Longrightarrow> (\<And>x. Q x \<Longrightarrow> Q' x) \<Longrightarrow> ensures I m Q'"
  unfolding ensures_def by (blast intro: wp_mono)

lemma ensures_ret: "Q x \<Longrightarrow> ensures I (ret x) Q"
  by (simp add: ensures_def wp_ret)

lemma ensures_raise: "ensures I (raise e) Q"
  by (simp add: ensures_def wp_raise)

lemma ensures_lift_sum: "(\<And>x. r = Inr x \<Longrightarrow> Q x) \<Longrightarrow> ensures I (lift_sum r) Q"
  by (auto simp: ensures_def wp_lift_sum split: sum.split)

lemma ensures_bindE:
  assumes "ensures I m Q" and "\<And>x. Q x \<Longrightarrow> ensures I (f x) Q'"
  shows "ensures I (bindE m f) Q'"
  using assms unfolding ensures_def wp_bindE by (blast intro: wp_mono)

lemma ensures_seq:
  "ensures I m (\<lambda>_. True) \<Longrightarrow> (\<And>x. ensures I (f x) Q) \<Longrightarrow> ensures I (bindE m f) Q"
  by (rule ensures_bindE)

lemma ensures_try_catch:
  assumes "ensures I m Q" and "\<And>e. ensures I (h e) Q"
  shows "ensures I (try_catch m h) Q"
  using assms unfolding ensures_def wp_try_catch by (blast intro: wp_mono)

lemma ensures_if: "(b \<Longrightarrow> ensures I m Q) \<Longrightarrow> (\<not> b \<Longrightarrow> ensures I n Q) \<Longrightarrow> ensures I (if b then m else n) Q"
  by simp

lemma ensures_case_option:
  "(x = None \<Longrightarrow> ensures I m Q) \<Longrightarrow> (\<And>y. x = Some y \<Longrightarrow> ensures I (f y) Q) \<Longrightarrow>
    ensures I (case x of None \<Rightarrow> m | Some y \<Rightarrow> f y) Q"
  by (cases x) auto

lemma ensures_case_sum:
  "(\<And>e. x = Inl e \<Longrightarrow> ensures I (f e) Q) \<Longrightarrow> (\<And>y. x = Inr y \<Longrightarrow> ensures I (g y) Q) \<Longrightarrow>
    ensures I (case x of Inl e \<Rightarrow> f e | Inr y \<Rightarrow> g y) Q"
  by (cases x) auto

lemma ensures_case_prod:
  "(\<And>a b. x = (a, b) \<Longrightarrow> ensures I (f a b) Q) \<Longrightarrow> ensures I (case x of (a, b) \<Rightarrow> f a b) Q"
  by (cases x) auto

lemmas ensures_rules = ensures_ret ensures_raise ensures_lift_sum ensures_bindE ensures_try_catch
  ensures_if ensures_case_option ensures_case_sum ensures_case_prod

section \<open>Python's slices and numbers as text\<close>

text \<open>\<open>slice_from i xs\<close> is \<open>xs[i:]\<close> and \<open>slice_to i xs\<close> is \<open>xs[:i]\<close>, negative indices included.\<close>

definition slice_from :: "int \<Rightarrow> 'a list \<Rightarrow> 'a list" where
  "slice_from i xs = drop (nat (if i < 0 then max 0 (int (length xs) + i) else i)) xs"

definition slice_to :: "int \<Rightarrow> 'a list \<Rightarrow> 'a list" where
  "slice_to i xs = take (nat (if i < 0 then max 0 (int (length xs) + i) else i)) xs"

lemma slice_from_last: "0 < k \<Longrightarrow> slice_from (- int k) xs = drop (length xs - k) xs"
  by (auto simp: slice_from_def max_def nat_diff_distrib)

lemma slice_to_pos: "slice_to (int k) xs = take k xs"
  by (simp add: slice_to_def)

lemma length_slice_from_last: "0 < k \<Longrightarrow> length (slice_from (- int k) xs) = min k (length xs)"
  by (simp add: slice_from_last)

text \<open>\<open>str\<close> of an integer.\<close>

definition digit_char :: "nat \<Rightarrow> char" where
  "digit_char d = char_of (48 + d)"

fun nat_digits :: "nat \<Rightarrow> string" where
  "nat_digits n = (if n < 10 then [digit_char n] else nat_digits (n div 10) @ [digit_char (n mod 10)])"

declare nat_digits.simps [simp del]

definition str_int :: "int \<Rightarrow> string" where
  "str_int i = (if i < 0 then ''-'' @ nat_digits (nat (- i)) else nat_digits (nat i))"

definition bool_text :: "bool \<Rightarrow> string" where
  "bool_text b = (if b then ''true'' else ''false'')"

text \<open>\<open>sep.join(xs)\<close>\<close>

fun join :: "string \<Rightarrow> string list \<Rightarrow> string" where
  "join sep [] = []"
| "join sep [x] = x"
| "join sep (x # y # ys) = x @ sep @ join sep (y # ys)"

lemma le_int_div_iff: "0 < (c :: int) \<Longrightarrow> a \<le> b div c \<longleftrightarrow> a * c \<le> b"
proof
  assume c: "0 < c" and "a \<le> b div c"
  then have "a * c \<le> (b div c) * c" by (simp add: mult_right_mono)
  also have "\<dots> \<le> b" using c by (simp add: minus_mod_eq_div_mult [symmetric])
  finally show "a * c \<le> b" .
next
  assume c: "0 < c" and "a * c \<le> b"
  have "a = (a * c) div c" using c by simp
  also have "\<dots> \<le> b div c" using \<open>a * c \<le> b\<close> c by (rule zdiv_mono1)
  finally show "a \<le> b div c" .
qed

section \<open>Lists and association lists\<close>

lemma find_map_unaffected:
  assumes "\<And>x. x \<in> set xs \<Longrightarrow> P (f x) = P x" and "\<And>x. x \<in> set xs \<Longrightarrow> P x \<Longrightarrow> f x = x"
  shows "find P (map f xs) = find P xs"
  using assms by (induction xs) auto

lemma find_map_cong:
  "(\<And>x. x \<in> set xs \<Longrightarrow> P (f x) = P x) \<Longrightarrow> find P (map f xs) = map_option f (find P xs)"
  by (induction xs) auto

lemma find_append:
  "find P (xs @ ys) = (case find P xs of None \<Rightarrow> find P ys | Some x \<Rightarrow> Some x)"
  by (induction xs) auto

lemma find_SomeD: "find P xs = Some x \<Longrightarrow> x \<in> set xs \<and> P x"
  by (induction xs) (auto split: if_splits)

lemma find_NoneD: "find P xs = None \<Longrightarrow> x \<in> set xs \<Longrightarrow> \<not> P x"
  by (auto simp: find_None_iff)

lemma find_unique:
  "distinct (map f xs) \<Longrightarrow> x \<in> set xs \<Longrightarrow> find (\<lambda>y. f y = f x) xs = Some x"
  by (induction xs) auto

lemma map_of_update [simp]: "map_of (AList.update k v xs) = (map_of xs)(k \<mapsto> v)"
  by (rule update_conv')

lemma sort_key_mset_eq:
  fixes f :: "'a \<Rightarrow> 'k::linorder"
  assumes "mset xs = mset ys" and "distinct (map f xs)"
  shows "sort_key f xs = sort_key f ys"
proof -
  have s: "mset (sort_key f xs) = mset (sort_key f ys)" using assms(1) by simp
  have "distinct (map f (sort_key f xs))"
    using assms(2) by (metis distinct_map distinct_sort mset_map mset_sort set_sort)
  moreover have "map f (sort_key f xs) = map f (sort_key f ys)"
    by (metis mset_map s sorted_list_of_multiset_mset sorted_sort_id sorted_sort_key)
  ultimately show ?thesis using s
    by (metis distinct_map map_inj_on mset_eq_setD sup.idem)
qed

end
