(* ===== verification/Json.thy ===== *)
theory Json
  imports Prelude
begin

text \<open>
  The values Python's \<open>json\<close> module reads and writes, dictionaries with their insertion order, and
  \<open>json.dumps\<close> as the stores and the runtime call it. Dictionaries are association lists:
  \<open>d.get(k)\<close> is \<open>map_of d k\<close> and \<open>d[k] = v\<close> is \<open>AList.update k v d\<close>, which replaces in place or
  appends, as a Python dictionary does. Floats are exact rationals; their text is a parameter of
  the platform, with the digest function and the other texts the program only passes on.
\<close>

datatype json =
    JNull
  | JBool bool
  | JInt int
  | JFloat rat
  | JStr string
  | JArr "json list"
  | JObj "(string \<times> json) list"

type_synonym dict = "(string \<times> json) list"

text \<open>
  What the program takes from outside: \<open>hashlib.sha256(_).hexdigest()\<close>, the text of a float, a
  number read from a text, the wording of a Pydantic validation error, Pydantic's text of a
  datetime and its \<open>isoformat()\<close>, and the integer SQLite compares a numeric text as.
\<close>

record platform =
  sha256_hex :: "string \<Rightarrow> string"
  float_repr :: "rat \<Rightarrow> string"
  parse_float :: "string \<Rightarrow> rat option"
  parse_int :: "string \<Rightarrow> int option"
  validation_text :: "string \<Rightarrow> dict \<Rightarrow> string"
  json_datetime :: "int \<Rightarrow> string"
  iso_datetime :: "int \<Rightarrow> string"
  sql_numeric :: "string \<Rightarrow> int option"

fun json_of_option :: "string option \<Rightarrow> json" where
  "json_of_option None = JNull"
| "json_of_option (Some s) = JStr s"

definition truthy_text :: "string option \<Rightarrow> bool" where
  \<comment> \<open>the truth value of a \<open>str | None\<close>\<close>
  "truthy_text s = (s \<noteq> None \<and> s \<noteq> Some [])"

fun truthy :: "json \<Rightarrow> bool" where
  \<comment> \<open>the truth value of a decoded JSON value\<close>
  "truthy JNull = False"
| "truthy (JBool b) = b"
| "truthy (JInt i) = (i \<noteq> 0)"
| "truthy (JFloat q) = (q \<noteq> 0)"
| "truthy (JStr s) = (s \<noteq> [])"
| "truthy (JArr js) = (js \<noteq> [])"
| "truthy (JObj d) = (d \<noteq> [])"

section \<open>Text of a value\<close>

definition hex_digit :: "nat \<Rightarrow> char" where
  "hex_digit n = (if n < 10 then char_of (48 + n) else char_of (87 + n))"

definition escape_char :: "char \<Rightarrow> string" where
  "escape_char c =
     (if c = CHR 0x22 then [CHR 0x5C, CHR 0x22]
      else if c = CHR 0x5C then [CHR 0x5C, CHR 0x5C]
      else if c = CHR 0x0A then [CHR 0x5C, CHR ''n'']
      else if c = CHR 0x0D then [CHR 0x5C, CHR ''r'']
      else if c = CHR 0x09 then [CHR 0x5C, CHR ''t'']
      else if c = CHR 0x0C then [CHR 0x5C, CHR ''f'']
      else if c = CHR 0x08 then [CHR 0x5C, CHR ''b'']
      else if (32 :: nat) \<le> of_char c \<and> (of_char c :: nat) \<le> 126 then [c]
      else [CHR 0x5C, CHR ''u'', CHR ''0'', CHR ''0'', hex_digit (of_char c div 16), hex_digit (of_char c mod 16)])"

definition quote :: "string \<Rightarrow> string" where
  "quote s = CHR 0x22 # concat (map escape_char s) @ [CHR 0x22]"

text \<open>
  \<open>json.dumps(j, sort_keys=\<dots>, separators=(isep, ksep))\<close>. The keys of every dictionary of the
  value are sorted by code point when \<open>srt\<close> holds.
\<close>

fun dumps :: "platform \<Rightarrow> string \<Rightarrow> string \<Rightarrow> bool \<Rightarrow> json \<Rightarrow> string" where
  "dumps pf isep ksep srt JNull = ''null''"
| "dumps pf isep ksep srt (JBool b) = bool_text b"
| "dumps pf isep ksep srt (JInt i) = str_int i"
| "dumps pf isep ksep srt (JFloat q) = float_repr pf q"
| "dumps pf isep ksep srt (JStr s) = quote s"
| "dumps pf isep ksep srt (JArr js) = ''['' @ join isep (map (dumps pf isep ksep srt) js) @ '']''"
| "dumps pf isep ksep srt (JObj kvs) =
     (let items = map (\<lambda>kv. (fst kv, dumps pf isep ksep srt (snd kv))) kvs;
          ordered = (if srt then sort_key fst items else items)
      in ''{'' @ join isep (map (\<lambda>kv. quote (fst kv) @ ksep @ snd kv) ordered) @ ''}'')"

text \<open>The canonical text of the stores and the text of the evidence fingerprint.\<close>

definition canonical :: "platform \<Rightarrow> dict \<Rightarrow> string" where
  "canonical pf args = dumps pf '','' '':'' True (JObj args)"

definition sorted_dumps :: "platform \<Rightarrow> dict \<Rightarrow> string" where
  "sorted_dumps pf d = dumps pf '', '' '': '' True (JObj d)"

lemma dumps_sorted_perm:
  assumes "mset d = mset d'" and "distinct (map fst d)"
  shows "dumps pf isep ksep True (JObj d) = dumps pf isep ksep True (JObj d')"
proof -
  let ?f = "\<lambda>kv. (fst kv, dumps pf isep ksep True (snd kv))"
  have "mset (map ?f d) = mset (map ?f d')" using assms(1) by simp
  moreover have "distinct (map fst (map ?f d))" using assms(2) by (simp add: comp_def)
  ultimately have "sort_key fst (map ?f d) = sort_key fst (map ?f d')"
    by (rule sort_key_mset_eq)
  then show ?thesis by (simp add: Let_def)
qed

section \<open>Quoted text is read back unambiguously\<close>

text \<open>
  A reader for one escaped character, used only to show that quoting loses nothing: the text of a
  string determines the string and where it ends.
\<close>

definition hex_value :: "char \<Rightarrow> nat" where
  "hex_value c = (if of_char c < (58 :: nat) then of_char c - 48 else of_char c - 87)"

definition read_char :: "string \<Rightarrow> (char \<times> string) option" where
  "read_char s =
     (case s of
        c # t \<Rightarrow>
          if c \<noteq> CHR 0x5C then Some (c, t)
          else (case t of
              d # u \<Rightarrow>
                if d = CHR ''n'' then Some (CHR 0x0A, u)
                else if d = CHR ''r'' then Some (CHR 0x0D, u)
                else if d = CHR ''t'' then Some (CHR 0x09, u)
                else if d = CHR ''f'' then Some (CHR 0x0C, u)
                else if d = CHR ''b'' then Some (CHR 0x08, u)
                else if d = CHR ''u''
                  then (case u of
                      _ # _ # h # l # v \<Rightarrow> Some (char_of (16 * hex_value h + hex_value l), v)
                    | _ \<Rightarrow> None)
                else Some (d, u)
            | [] \<Rightarrow> None)
      | [] \<Rightarrow> None)"

lemma of_char_hex_digit: "n < 16 \<Longrightarrow> of_char (hex_digit n) = (if n < 10 then 48 + n else 87 + n)"
  by (simp add: hex_digit_def)

lemma hex_value_digit: "n < 16 \<Longrightarrow> hex_value (hex_digit n) = n"
  by (simp add: hex_value_def of_char_hex_digit)

lemma of_char_bound: "(of_char c :: nat) < 256"
  by simp

lemma read_char_unicode:
  "read_char (CHR 0x5C # CHR ''u'' # a # b # h # l # v) = Some (char_of (16 * hex_value h + hex_value l), v)"
  by (simp add: read_char_def)

lemma hex_pair_char: "char_of (16 * hex_value (hex_digit (of_char c div 16)) + hex_value (hex_digit (of_char c mod 16))) = c"
proof -
  define n where "n = (of_char c :: nat)"
  have "n div 16 < 16" using of_char_bound [of c] unfolding n_def by linarith
  moreover have "n mod 16 < 16" by simp
  ultimately have "hex_value (hex_digit (n div 16)) = n div 16" and "hex_value (hex_digit (n mod 16)) = n mod 16"
    by (blast intro: hex_value_digit)+
  then have "16 * hex_value (hex_digit (n div 16)) + hex_value (hex_digit (n mod 16)) = n"
    by (simp only: mult_div_mod_eq)
  then have "char_of (16 * hex_value (hex_digit (n div 16)) + hex_value (hex_digit (n mod 16))) = (char_of n :: char)"
    by (simp only:)
  then show ?thesis unfolding n_def by (simp only: char_of_char)
qed

lemma escape_char_cases:
  obtains "c = CHR 0x22" | "c = CHR 0x5C" | "c = CHR 0x0A" | "c = CHR 0x0D" | "c = CHR 0x09"
    | "c = CHR 0x0C" | "c = CHR 0x08"
    | (plain) "c \<noteq> CHR 0x5C" "escape_char c = [c]"
    | (other) "escape_char c = [CHR 0x5C, CHR ''u'', CHR ''0'', CHR ''0'', hex_digit (of_char c div 16),
        hex_digit (of_char c mod 16)]"
proof (cases "c \<in> {CHR 0x22, CHR 0x5C, CHR 0x0A, CHR 0x0D, CHR 0x09, CHR 0x0C, CHR 0x08}")
  case True
  then show thesis using that(1-7) by blast
next
  case False
  then have c: "c \<noteq> CHR 0x22" "c \<noteq> CHR 0x5C" "c \<noteq> CHR 0x0A" "c \<noteq> CHR 0x0D" "c \<noteq> CHR 0x09"
    "c \<noteq> CHR 0x0C" "c \<noteq> CHR 0x08" by blast+
  note e = escape_char_def [of c, simplified c if_False]
  show thesis
  proof (cases "(32 :: nat) \<le> of_char c \<and> (of_char c :: nat) \<le> 126")
    case True
    show thesis by (rule that(8) [OF c(2)]) (use e True in \<open>simp only: simp_thms if_True\<close>)
  next
    case False
    show thesis by (rule that(9)) (use e False in \<open>simp only: if_False\<close>)
  qed
qed

lemma read_char_escape: "read_char (escape_char c @ rest) = Some (c, rest)"
proof (cases c rule: escape_char_cases)
  case plain
  then show ?thesis by (simp add: read_char_def)
next
  case other
  then show ?thesis by (simp only: append_Cons append_Nil read_char_unicode hex_pair_char)
qed (simp_all add: escape_char_def read_char_def)

lemma escape_char_append_head: "escape_char c @ rest \<noteq> CHR 0x22 # w"
proof
  assume eq: "escape_char c @ rest = CHR 0x22 # w"
  then have "read_char (CHR 0x22 # w) = Some (c, rest)" using read_char_escape by metis
  then have "c = CHR 0x22" by (simp add: read_char_def)
  with eq show False by (simp add: escape_char_def)
qed

lemma escaped_prefix_unique:
  "concat (map escape_char s) @ CHR 0x22 # xs = concat (map escape_char t) @ CHR 0x22 # ys
    \<Longrightarrow> s = t \<and> xs = ys"
proof (induction s arbitrary: t)
  case Nil
  show ?case
  proof (cases t)
    case Nil
    with Nil.prems show ?thesis by simp
  next
    case (Cons d t')
    with Nil.prems have "escape_char d @ (concat (map escape_char t') @ CHR 0x22 # ys) = CHR 0x22 # xs"
      by simp
    then show ?thesis using escape_char_append_head by blast
  qed
next
  case (Cons c s)
  show ?case
  proof (cases t)
    case Nil
    with Cons.prems have "escape_char c @ (concat (map escape_char s) @ CHR 0x22 # xs) = CHR 0x22 # ys"
      by simp
    then show ?thesis using escape_char_append_head by blast
  next
    case (Cons d t')
    have eq: "escape_char c @ (concat (map escape_char s) @ CHR 0x22 # xs) =
        escape_char d @ (concat (map escape_char t') @ CHR 0x22 # ys)"
      using Cons.prems Cons by simp
    then have "read_char (escape_char c @ (concat (map escape_char s) @ CHR 0x22 # xs)) =
        read_char (escape_char d @ (concat (map escape_char t') @ CHR 0x22 # ys))" by simp
    then have "c = d" and rest: "concat (map escape_char s) @ CHR 0x22 # xs =
        concat (map escape_char t') @ CHR 0x22 # ys"
      unfolding read_char_escape by simp_all
    with Cons.IH [OF rest] Cons show ?thesis by simp
  qed
qed

lemma quote_prefix_unique: "quote s @ xs = quote t @ ys \<longleftrightarrow> s = t \<and> xs = ys"
  using escaped_prefix_unique [of s xs t ys] by (auto simp: quote_def)

lemma quote_inject [simp]: "quote s = quote t \<longleftrightarrow> s = t"
  using quote_prefix_unique [of s "[]" t "[]"] by simp

end
