(* ===== verification/Models.thy ===== *)
theory Models
  imports Json
begin

text \<open>
  The data of the runtime: \<open>agent_resilience/errors.py\<close> (the exception classes and which of them
  the worker treats as transient), \<open>agent_resilience/models.py\<close> (statuses, risk levels, tools, the
  checkpointed workflow, typed decisions and requests with their Pydantic constraints).
  Times are microseconds since the epoch, Python integers are \<open>int\<close>.
\<close>

section \<open>Exceptions\<close>

datatype error =
    RetryableWorkflowError string
  | PermanentWorkflowError string
  | ConcurrentUpdateError string
  | ValueError string
  | TypeError string
  | KeyError string
  | IndexError string
  | ZeroDivisionError string
  | RuntimeError string
  | TimeoutError string
  | AttributeError string
  | AssertionError string
  | ValidationError string
  | IntegrityError string
  | HTTPException int string
  | Process_Killed

text \<open>
  \<open>Process_Killed\<close> is no exception of the source: it stands for the end of the process at that point,
  which no handler sees.
\<close>

text \<open>\<open>except RetryableWorkflowError\<close> catches its subclass \<open>ConcurrentUpdateError\<close> too.\<close>

fun is_retryable :: "error \<Rightarrow> bool" where
  "is_retryable (RetryableWorkflowError m) = True"
| "is_retryable (ConcurrentUpdateError m) = True"
| "is_retryable e = False"

fun is_permanent :: "error \<Rightarrow> bool" where
  "is_permanent (PermanentWorkflowError m) = True"
| "is_permanent e = False"

fun error_text :: "error \<Rightarrow> string" where
  "error_text (RetryableWorkflowError m) = m"
| "error_text (PermanentWorkflowError m) = m"
| "error_text (ConcurrentUpdateError m) = m"
| "error_text (ValueError m) = m"
| "error_text (TypeError m) = m"
| "error_text (KeyError m) = m"
| "error_text (IndexError m) = m"
| "error_text (ZeroDivisionError m) = m"
| "error_text (RuntimeError m) = m"
| "error_text (TimeoutError m) = m"
| "error_text (AttributeError m) = m"
| "error_text (AssertionError m) = m"
| "error_text (ValidationError m) = m"
| "error_text (IntegrityError m) = m"
| "error_text (HTTPException c m) = m"
| "error_text Process_Killed = []"

lemma retryable_not_permanent: "is_retryable e \<Longrightarrow> \<not> is_permanent e"
  by (cases e) auto

type_synonym ('s, 'a) act = "('s, error, 'a) prog"

section \<open>Enumerations\<close>

datatype workflow_status =
    QUEUED | RUNNING | WAITING_FOR_APPROVAL | COMPLETED | FAILED | DEAD_LETTERED
  | LOOP_STOPPED | HUMAN_REJECTED

fun status_value :: "workflow_status \<Rightarrow> string" where
  "status_value QUEUED = ''QUEUED''"
| "status_value RUNNING = ''RUNNING''"
| "status_value WAITING_FOR_APPROVAL = ''WAITING_FOR_APPROVAL''"
| "status_value COMPLETED = ''COMPLETED''"
| "status_value FAILED = ''FAILED''"
| "status_value DEAD_LETTERED = ''DEAD_LETTERED''"
| "status_value LOOP_STOPPED = ''LOOP_STOPPED''"
| "status_value HUMAN_REJECTED = ''HUMAN_REJECTED''"

definition workflow_statuses :: "workflow_status list" where
  \<comment> \<open>the order in which \<open>for item in WorkflowStatus\<close> visits the members\<close>
  "workflow_statuses = [QUEUED, RUNNING, WAITING_FOR_APPROVAL, COMPLETED, FAILED, DEAD_LETTERED,
     LOOP_STOPPED, HUMAN_REJECTED]"

lemma set_workflow_statuses: "s \<in> set workflow_statuses"
  by (cases s) (simp_all add: workflow_statuses_def)

lemma distinct_workflow_statuses: "distinct workflow_statuses"
  by (simp add: workflow_statuses_def)

datatype risk_level = LOW | MEDIUM | HIGH | BLOCKED

fun risk_value :: "risk_level \<Rightarrow> string" where
  "risk_value LOW = ''LOW''"
| "risk_value MEDIUM = ''MEDIUM''"
| "risk_value HIGH = ''HIGH''"
| "risk_value BLOCKED = ''BLOCKED''"

fun risk_rank :: "risk_level \<Rightarrow> nat" where
  "risk_rank LOW = 0" | "risk_rank MEDIUM = 1" | "risk_rank HIGH = 2" | "risk_rank BLOCKED = 3"

lemma risk_rank_inject: "risk_rank r = risk_rank r' \<Longrightarrow> r = r'"
  by (cases r; cases r') simp_all

text \<open>Risk levels are ordered as the class lists them, so that bounds on risk read as such.\<close>

instantiation risk_level :: linorder
begin

definition less_eq_risk_level :: "risk_level \<Rightarrow> risk_level \<Rightarrow> bool" where
  "r \<le> r' \<longleftrightarrow> risk_rank r \<le> risk_rank r'"

definition less_risk_level :: "risk_level \<Rightarrow> risk_level \<Rightarrow> bool" where
  "r < r' \<longleftrightarrow> risk_rank r < risk_rank r'"

instance
  by standard (auto simp: less_eq_risk_level_def less_risk_level_def dest: risk_rank_inject)

end

datatype tool_name =
    READ_ALERT | INSPECT_METRICS | QUERY_LOGS | DEPENDENCY_HEALTH | RESTART_SERVICE
  | DELETE_DATABASE | VERIFY_RECOVERY

fun tool_value :: "tool_name \<Rightarrow> string" where
  "tool_value READ_ALERT = ''read_alert''"
| "tool_value INSPECT_METRICS = ''inspect_metrics''"
| "tool_value QUERY_LOGS = ''query_logs''"
| "tool_value DEPENDENCY_HEALTH = ''dependency_health''"
| "tool_value RESTART_SERVICE = ''restart_service''"
| "tool_value DELETE_DATABASE = ''delete_database''"
| "tool_value VERIFY_RECOVERY = ''verify_recovery''"

definition tool_names :: "tool_name list" where
  "tool_names = [READ_ALERT, INSPECT_METRICS, QUERY_LOGS, DEPENDENCY_HEALTH, RESTART_SERVICE,
     DELETE_DATABASE, VERIFY_RECOVERY]"

lemma tool_value_inject [simp]: "tool_value t = tool_value t' \<longleftrightarrow> t = t'"
  by (cases t; cases t') simp_all

lemma tool_value_no_colon: "CHR '':'' \<notin> set (tool_value t)"
  by (cases t) simp_all

section \<open>The checkpointed workflow\<close>

record pending_action =
  action_id :: string
  pa_tool :: tool_name
  pa_arguments :: dict
  pa_risk :: risk_level
  pa_rationale :: string
  pa_created_at :: int

record workflow_state =
  task_id :: string
  goal :: string
  scenario_id :: string
  status :: workflow_status
  completed_steps :: "string list"
  current_step :: "string option"
  evidence :: dict
  tool_history :: "string list"
  progress_history :: "string list"
  pending_action :: "pending_action option"
  diagnosis :: "string option"
  remediation :: "string option"
  final_answer :: "string option"
  last_error :: "string option"
  retries :: int
  model_calls :: int
  input_tokens :: int
  output_tokens :: int
  tool_calls :: int
  version :: int
  created_at :: int
  updated_at :: int

definition new_workflow :: "string \<Rightarrow> string \<Rightarrow> string \<Rightarrow> int \<Rightarrow> workflow_state" where
  "new_workflow task g scenario now =
     \<lparr>task_id = task, goal = g, scenario_id = scenario, status = QUEUED, completed_steps = [],
      current_step = None, evidence = [], tool_history = [], progress_history = [],
      pending_action = None, diagnosis = None, remediation = None, final_answer = None,
      last_error = None, retries = 0, model_calls = 0, input_tokens = 0, output_tokens = 0,
      tool_calls = 0, version = 0, created_at = now, updated_at = now\<rparr>"

fun terminal_status :: "workflow_status \<Rightarrow> bool" where
  "terminal_status COMPLETED = True"
| "terminal_status FAILED = True"
| "terminal_status DEAD_LETTERED = True"
| "terminal_status LOOP_STOPPED = True"
| "terminal_status HUMAN_REJECTED = True"
| "terminal_status s = False"

definition terminal :: "workflow_state \<Rightarrow> bool" where
  "terminal st = terminal_status (status st)"

section \<open>Typed decisions\<close>

definition name_char :: "char \<Rightarrow> bool" where
  \<comment> \<open>the character class \<open>[a-zA-Z0-9_-]\<close>\<close>
  "name_char c =
     (let n = of_char c :: nat
      in 97 \<le> n \<and> n \<le> 122 \<or> 65 \<le> n \<and> n \<le> 90 \<or> 48 \<le> n \<and> n \<le> 57 \<or> n = 95 \<or> n = 45)"

definition slug :: "string \<Rightarrow> bool" where
  "slug s = (s \<noteq> [] \<and> list_all name_char s)"

definition length_between :: "nat \<Rightarrow> nat \<Rightarrow> string \<Rightarrow> bool" where
  "length_between lo hi s = (lo \<le> length s \<and> length s \<le> hi)"

definition environments :: "string list" where
  "environments = [''production'', ''staging'', ''test'']"

record tool_arguments =
  ta_service :: "string option"
  ta_environment :: "string option"
  ta_dependency :: "string option"

definition no_arguments :: tool_arguments where
  "no_arguments = \<lparr>ta_service = None, ta_environment = None, ta_dependency = None\<rparr>"

definition valid_tool_arguments :: "tool_arguments \<Rightarrow> bool" where
  "valid_tool_arguments a =
     ((case ta_service a of None \<Rightarrow> True | Some s \<Rightarrow> length_between 1 100 s \<and> slug s) \<and>
      (case ta_environment a of None \<Rightarrow> True | Some e \<Rightarrow> e \<in> set environments) \<and>
      (case ta_dependency a of None \<Rightarrow> True | Some d \<Rightarrow> length_between 1 100 d))"

text \<open>\<open>arguments.model_dump(exclude_none=True)\<close>: the given fields, in the order of the class.\<close>

definition dump_arguments :: "tool_arguments \<Rightarrow> dict" where
  "dump_arguments a =
     (case ta_service a of None \<Rightarrow> [] | Some s \<Rightarrow> [(''service'', JStr s)]) @
     (case ta_environment a of None \<Rightarrow> [] | Some e \<Rightarrow> [(''environment'', JStr e)]) @
     (case ta_dependency a of None \<Rightarrow> [] | Some d \<Rightarrow> [(''dependency'', JStr d)])"

datatype decision_action = Use_Tool | Complete | Fail

fun action_value :: "decision_action \<Rightarrow> string" where
  "action_value Use_Tool = ''use_tool''"
| "action_value Complete = ''complete''"
| "action_value Fail = ''fail''"

record agent_decision =
  d_action :: decision_action
  d_rationale :: string
  d_tool :: "tool_name option"
  d_arguments :: tool_arguments
  d_diagnosis :: "string option"
  d_remediation :: "string option"
  d_final_answer :: "string option"

text \<open>Constructing an \<open>AgentDecision\<close>: the field constraints, then the model validator.\<close>

definition validate_action :: "agent_decision \<Rightarrow> error + agent_decision" where
  "validate_action d =
     (if d_action d = Use_Tool \<and> d_tool d = None
      then Inl (ValueError ''tool is required when action is use_tool'')
      else if d_action d = Use_Tool \<and> \<not> truthy_text (ta_service (d_arguments d))
      then Inl (ValueError ''service is required when action is use_tool'')
      else if d_action d = Complete \<and> \<not> truthy_text (d_final_answer d)
      then Inl (ValueError ''final_answer is required when action is complete'')
      else Inr d)"

definition make_decision :: "agent_decision \<Rightarrow> error + agent_decision" where
  "make_decision d =
     (if \<not> length_between 1 1000 (d_rationale d) then Inl (ValidationError ''rationale'')
      else if \<not> valid_tool_arguments (d_arguments d) then Inl (ValidationError ''arguments'')
      else (case validate_action d of Inl e \<Rightarrow> Inl (ValidationError (error_text e)) | Inr d' \<Rightarrow> Inr d'))"

text \<open>\<open>decision.model_dump(mode="json")\<close>\<close>

definition dump_decision :: "agent_decision \<Rightarrow> dict" where
  "dump_decision d =
     [(''action'', JStr (action_value (d_action d))),
      (''rationale'', JStr (d_rationale d)),
      (''tool'', json_of_option (map_option tool_value (d_tool d))),
      (''arguments'', JObj [(''service'', json_of_option (ta_service (d_arguments d))),
         (''environment'', json_of_option (ta_environment (d_arguments d))),
         (''dependency'', json_of_option (ta_dependency (d_arguments d)))]),
      (''diagnosis'', json_of_option (d_diagnosis d)),
      (''remediation'', json_of_option (d_remediation d)),
      (''final_answer'', json_of_option (d_final_answer d))]"

text \<open>\<open>pending_action.model_dump(mode="json")\<close>\<close>

definition dump_pending :: "platform \<Rightarrow> pending_action \<Rightarrow> dict" where
  "dump_pending pf p =
     [(''action_id'', JStr (action_id p)),
      (''tool'', JStr (tool_value (pa_tool p))),
      (''arguments'', JObj (pa_arguments p)),
      (''risk'', JStr (risk_value (pa_risk p))),
      (''rationale'', JStr (pa_rationale p)),
      (''created_at'', JStr (json_datetime pf (pa_created_at p)))]"

section \<open>Requests, deliveries and records\<close>

text \<open>\<open>int | str\<close>, the type of the ids of deliveries, dead letters and events.\<close>

datatype delivery_id = IdInt int | IdStr string

fun json_of_id :: "delivery_id \<Rightarrow> json" where
  "json_of_id (IdInt i) = JInt i"
| "json_of_id (IdStr s) = JStr s"

record create_incident_request =
  ci_goal :: string
  ci_scenario_id :: string

definition valid_create_incident :: "create_incident_request \<Rightarrow> bool" where
  "valid_create_incident r = (length_between 10 2000 (ci_goal r) \<and> slug (ci_scenario_id r))"

record approval_request =
  ap_actor :: string
  ap_reason :: "string option"

definition valid_approval_request :: "approval_request \<Rightarrow> bool" where
  "valid_approval_request r =
     (length_between 1 200 (ap_actor r) \<and>
      (case ap_reason r of None \<Rightarrow> True | Some x \<Rightarrow> length x \<le> 1000))"

record replay_request =
  rp_delivery_id :: delivery_id
  rp_task_id :: string
  rp_actor :: string
  rp_reason :: string

definition valid_replay_request :: "replay_request \<Rightarrow> bool" where
  "valid_replay_request r =
     (length_between 1 200 (rp_task_id r) \<and> slug (rp_task_id r) \<and>
      length_between 1 200 (rp_actor r) \<and> length_between 3 1000 (rp_reason r))"

record event_record =
  ev_id :: delivery_id
  ev_task_id :: string
  ev_type :: string
  ev_payload :: dict
  ev_created_at :: int

record queue_delivery =
  dl_id :: delivery_id
  dl_task_id :: string
  dl_attempts :: int
  dl_max_attempts :: int
  dl_payload :: dict
  dl_receipt_handle :: "string option"

record dead_letter_record =
  dr_id :: delivery_id
  dr_task_id :: string
  dr_attempts :: int
  dr_max_attempts :: int
  dr_last_error :: "string option"
  dr_payload :: dict
  dr_updated_at :: int

section \<open>What the validators guarantee\<close>

lemma make_decision_eq: "make_decision d = Inr d' \<Longrightarrow> d' = d"
  by (auto simp: make_decision_def validate_action_def split: if_splits sum.splits)

lemma make_decision_use_tool:
  "make_decision d = Inr d' \<Longrightarrow> d_action d = Use_Tool \<Longrightarrow>
    \<exists>t s. d_tool d = Some t \<and> ta_service (d_arguments d) = Some s \<and> slug s \<and> length s \<le> 100"
  by (auto simp: make_decision_def validate_action_def valid_tool_arguments_def truthy_text_def
      length_between_def split: if_splits sum.splits option.splits)

lemma make_decision_complete:
  "make_decision d = Inr d' \<Longrightarrow> d_action d = Complete \<Longrightarrow> \<exists>a. d_final_answer d = Some a \<and> a \<noteq> []"
  by (auto simp: make_decision_def validate_action_def truthy_text_def split: if_splits sum.splits)

end
