(* ===== verification/Fixtures.thy ===== *)
theory Fixtures
  imports Models
begin

text \<open>
  \<open>fixtures/scenarios.json\<close>, the answers of the scenario backend, and a sample platform that the
  concrete examples of the development run on: the text itself in the place of its SHA-256
  digest and fixed texts in the place of the others.
\<close>

section \<open>Scenarios\<close>

definition checkout_pool_exhaustion :: dict where
  "checkout_pool_exhaustion =
     [(''service'', JStr ''checkout-service''),
      (''environment'', JStr ''production''),
      (''alert'', JObj [(''error_rate_percent'', JFloat (71 / 5)), (''summary'', JStr ''Elevated checkout errors'')]),
      (''metrics'', JObj [(''p95_latency_ms'', JInt 1840), (''db_pool_waiters'', JInt 47), (''active_connections'', JInt 50), (''max_connections'', JInt 50)]),
      (''logs'', JObj [(''error'', JStr ''SQLTransientConnectionException: connection acquisition timeout''), (''count'', JInt 318)]),
      (''dependencies'', JObj [(''database'', JStr ''healthy''), (''payment_gateway'', JStr ''healthy''), (''inventory'', JStr ''healthy'')]),
      (''root_cause'', JStr ''database connection pool exhaustion''),
      (''after_restart'', JObj [(''error_rate_percent'', JFloat (3 / 10)), (''p95_latency_ms'', JInt 210)]),
      (''transient_failures'', JObj [(''inspect_metrics'', JInt 1)])]"

definition payment_dependency_outage :: dict where
  "payment_dependency_outage =
     [(''service'', JStr ''checkout-service''),
      (''environment'', JStr ''production''),
      (''alert'', JObj [(''error_rate_percent'', JFloat (114 / 5)), (''summary'', JStr ''Payment authorization failures'')]),
      (''metrics'', JObj [(''p95_latency_ms'', JInt 960), (''db_pool_waiters'', JInt 0), (''active_connections'', JInt 12), (''max_connections'', JInt 50)]),
      (''logs'', JObj [(''error'', JStr ''payment-gateway upstream returned 503''), (''count'', JInt 521)]),
      (''dependencies'', JObj [(''database'', JStr ''healthy''), (''payment_gateway'', JStr ''unavailable''), (''inventory'', JStr ''healthy'')]),
      (''root_cause'', JStr ''payment gateway outage''),
      (''after_restart'', JObj [(''error_rate_percent'', JFloat (112 / 5)), (''p95_latency_ms'', JInt 940)]),
      (''transient_failures'', JObj [])]"

definition scenario_fixtures :: dict where
  "scenario_fixtures =
     [(''checkout-pool-exhaustion'', JObj checkout_pool_exhaustion),
      (''payment-dependency-outage'', JObj payment_dependency_outage)]"

section \<open>A sample platform\<close>

definition sample_platform :: platform where
  "sample_platform =
     \<lparr>sha256_hex = (\<lambda>s. s), float_repr = (\<lambda>q. str_int \<lfloor>q * 10\<rfloor> @ ''e-1''),
      parse_float = (\<lambda>_. None), parse_int = (\<lambda>_. None), validation_text = (\<lambda>_ _. ''invalid''),
      json_datetime = str_int, iso_datetime = str_int, sql_numeric = (\<lambda>_. None)\<rparr>"

end
