(* ===== verification/Contracts.thy ===== *)
theory Contracts
  imports Fixtures
begin

text \<open>
  \<open>agent_resilience/contracts.py\<close>: the \<open>RuntimeStore\<close> protocol, as a record of operations over a
  state \<open>'s\<close>, and the contracts its clients rely on, as locales over such a record:
  \<open>checkpoint_store\<close> (optimistic versions), \<open>idempotency_ledger\<close> (the first result of a key is the
  one that counts) and \<open>approval_ledger\<close> (an approval is resolved once). The runtime, the gateway
  and the worker take the record, as the Python classes take any object with these methods.
\<close>

record 's runtime_store =
  rs_create_workflow :: "workflow_state \<Rightarrow> int \<Rightarrow> ('s, workflow_state) act"
  rs_get_workflow :: "string \<Rightarrow> ('s, workflow_state option) act"
  rs_list_workflows :: "int \<Rightarrow> workflow_status option \<Rightarrow> ('s, workflow_state list) act"
  rs_save_workflow :: "workflow_state \<Rightarrow> int \<Rightarrow> ('s, workflow_state) act"
  rs_enqueue :: "string \<Rightarrow> int \<Rightarrow> dict \<Rightarrow> ('s, delivery_id) act"
  rs_claim :: "string \<Rightarrow> int \<Rightarrow> ('s, queue_delivery option) act"
  rs_extend_lease :: "queue_delivery \<Rightarrow> int \<Rightarrow> ('s, unit) act"
  rs_acknowledge :: "delivery_id \<Rightarrow> ('s, unit) act"
  rs_retry_or_dead_letter :: "queue_delivery \<Rightarrow> string \<Rightarrow> rat \<Rightarrow> ('s, bool) act"
  rs_record_event :: "string \<Rightarrow> string \<Rightarrow> dict \<Rightarrow> ('s, unit) act"
  rs_list_events :: "string \<Rightarrow> ('s, event_record list) act"
  rs_arguments_hash :: "dict \<Rightarrow> string"
  rs_get_tool_result :: "string \<Rightarrow> dict \<Rightarrow> ('s, dict option) act"
  rs_save_tool_result :: "string \<Rightarrow> string \<Rightarrow> string \<Rightarrow> dict \<Rightarrow> dict \<Rightarrow> ('s, unit) act"
  rs_create_approval :: "string \<Rightarrow> string \<Rightarrow> ('s, unit) act"
  rs_resolve_approval :: "string \<Rightarrow> string \<Rightarrow> bool \<Rightarrow> string \<Rightarrow> string option \<Rightarrow> ('s, unit) act"
  rs_approval_status :: "string \<Rightarrow> string \<Rightarrow> ('s, string option) act"
  rs_queue_counts :: "('s, (string \<times> int) list) act"
  rs_list_dead_letters :: "int \<Rightarrow> ('s, dead_letter_record list) act"
  rs_replay_dead_letter ::
    "delivery_id \<Rightarrow> string \<Rightarrow> int \<Rightarrow> string \<Rightarrow> string \<Rightarrow> ('s, workflow_state option) act"

section \<open>Checkpoints\<close>

text \<open>
  \<open>current s t\<close> is the checkpoint of workflow \<open>t\<close>. A save succeeds exactly when the expected version
  is the stored one, and then stores the given state under the next version.
\<close>

locale checkpoint_store =
  fixes S :: "'s runtime_store"
    and current :: "'s \<Rightarrow> string \<Rightarrow> workflow_state option"
    and invar :: "'s \<Rightarrow> bool"
  assumes get_current: "invar s \<Longrightarrow> rs_get_workflow S t s = (Inr (current s t), s)"
    and save_fresh: "invar s \<Longrightarrow> current s (task_id st) = Some old \<Longrightarrow> version old = v \<Longrightarrow>
      \<exists>st' s'. rs_save_workflow S st v s = (Inr st', s') \<and> version st' = v + 1 \<and>
        task_id st' = task_id st \<and> status st' = status st \<and>
        current s' = (current s)(task_id st \<mapsto> st') \<and> invar s'"
    and save_stale: "invar s \<Longrightarrow> \<forall>old. current s (task_id st) = Some old \<longrightarrow> version old \<noteq> v \<Longrightarrow>
      rs_save_workflow S st v s = (Inl (ConcurrentUpdateError (''stale checkpoint for '' @ task_id st)), s)"
begin

lemma save_cases:
  assumes "invar s"
  obtains (fresh) old st' s' where "current s (task_id st) = Some old" "version old = v"
      "rs_save_workflow S st v s = (Inr st', s')" "version st' = v + 1" "task_id st' = task_id st"
      "current s' = (current s)(task_id st \<mapsto> st')" "invar s'"
  | (stale) "\<forall>old. current s (task_id st) = Some old \<longrightarrow> version old \<noteq> v"
      "rs_save_workflow S st v s = (Inl (ConcurrentUpdateError (''stale checkpoint for '' @ task_id st)), s)"
proof (cases "\<exists>old. current s (task_id st) = Some old \<and> version old = v")
  case True
  then obtain old where "current s (task_id st) = Some old" "version old = v" by blast
  with save_fresh [OF assms this] show thesis using that(1) by blast
next
  case False
  with save_stale [OF assms] show thesis using that(2) by blast
qed

text \<open>Of two saves with one expected version, the second is refused: no update is lost.\<close>

lemma no_lost_update:
  assumes inv: "invar s" and first: "rs_save_workflow S a v s = (Inr a', s')"
    and same: "task_id b = task_id a"
  shows "rs_save_workflow S b v s' = (Inl (ConcurrentUpdateError (''stale checkpoint for '' @ task_id b)), s')"
  using inv
proof (cases rule: save_cases [consumes 1, where st = a and v = v, case_names fresh stale])
  case (fresh old st' s'')
  with first same have "current s' (task_id b) = Some st'" "version st' \<noteq> v" "invar s'" by simp_all
  then show ?thesis by (intro save_stale) simp_all
next
  case stale
  with first show ?thesis by simp
qed

text \<open>What was saved is what the next delivery loads.\<close>

lemma load_after_save:
  assumes "invar s" and "rs_save_workflow S st v s = (Inr st', s')"
  shows "rs_get_workflow S (task_id st) s' = (Inr (Some st'), s')"
  using assms(1)
proof (cases rule: save_cases [consumes 1, where st = st and v = v, case_names fresh stale])
  case (fresh old st'' s'')
  with assms(2) show ?thesis by (simp add: get_current)
next
  case stale
  with assms(2) show ?thesis by simp
qed

lemma refused_save_changes_nothing:
  assumes "invar s" and "rs_save_workflow S st v s = (Inl e, s')"
  shows "s' = s \<and> e = ConcurrentUpdateError (''stale checkpoint for '' @ task_id st)"
  using assms(1)
proof (cases rule: save_cases [consumes 1, where st = st and v = v, case_names fresh stale])
  case (fresh old st' s'')
  with assms(2) show ?thesis by simp
next
  case stale
  with assms(2) show ?thesis by simp
qed

end

section \<open>Idempotency ledger\<close>

locale idempotency_ledger =
  fixes S :: "'s runtime_store"
    and stored :: "'s \<Rightarrow> string \<Rightarrow> (string \<times> dict) option"
    and invar :: "'s \<Rightarrow> bool"
  assumes lookup_miss: "invar s \<Longrightarrow> stored s k = None \<Longrightarrow> rs_get_tool_result S k a s = (Inr None, s)"
    and lookup_hit: "invar s \<Longrightarrow> stored s k = Some (rs_arguments_hash S a, r) \<Longrightarrow>
      rs_get_tool_result S k a s = (Inr (Some r), s)"
    and lookup_clash: "invar s \<Longrightarrow> stored s k = Some (h, r) \<Longrightarrow> h \<noteq> rs_arguments_hash S a \<Longrightarrow>
      rs_get_tool_result S k a s = (Inl (ValueError ''idempotency key reused with different arguments''), s)"
    and save_first: "invar s \<Longrightarrow> stored s k = None \<Longrightarrow>
      \<exists>s'. rs_save_tool_result S k t n a r s = (Inr (), s') \<and> invar s' \<and>
        stored s' = (stored s)(k \<mapsto> (rs_arguments_hash S a, r))"
    and save_again: "invar s \<Longrightarrow> stored s k = Some x \<Longrightarrow>
      \<exists>s'. rs_save_tool_result S k t n a r s = (Inr (), s') \<and> invar s' \<and> stored s' = stored s"
begin

lemma lookup_frame:
  assumes inv: "invar s"
  shows "snd (rs_get_tool_result S k a s) = s"
proof (cases "stored s k")
  case None
  then show ?thesis by (simp add: lookup_miss [OF inv])
next
  case (Some x)
  then obtain h r where "stored s k = Some (h, r)" by (cases x) auto
  then show ?thesis
    by (cases "h = rs_arguments_hash S a") (simp_all add: lookup_hit [OF inv] lookup_clash [OF inv])
qed

lemma stored_after_save:
  "invar s \<Longrightarrow> \<exists>s'. rs_save_tool_result S k t n a r s = (Inr (), s') \<and> invar s' \<and>
    stored s' = (case stored s k of
      None \<Rightarrow> (stored s)(k \<mapsto> (rs_arguments_hash S a, r)) | Some _ \<Rightarrow> stored s)"
  by (cases "stored s k") (auto dest: save_first save_again)

text \<open>The first result written under a key is the one every later reader gets.\<close>

lemma first_result_wins:
  assumes "invar s" and "stored s k = Some (rs_arguments_hash S a, r)"
    and "rs_save_tool_result S k t n a' r' s = (Inr (), s')"
  shows "rs_get_tool_result S k a s' = (Inr (Some r), s')"
proof -
  have "invar s' \<and> stored s' = stored s" using save_again [OF assms(1,2), of t n a' r'] assms(3) by auto
  then show ?thesis using assms(2) by (intro lookup_hit) simp_all
qed

lemma read_back:
  assumes "invar s" and "stored s k = None" and "rs_save_tool_result S k t n a r s = (Inr (), s')"
  shows "rs_get_tool_result S k a s' = (Inr (Some r), s')"
proof -
  have "invar s'" "stored s' k = Some (rs_arguments_hash S a, r)"
    using save_first [OF assms(1,2), of t n a r] assms(3) by auto
  then show ?thesis by (rule lookup_hit)
qed

end

section \<open>Approvals\<close>

locale approval_ledger =
  fixes S :: "'s runtime_store"
    and approval :: "'s \<Rightarrow> string \<Rightarrow> string \<Rightarrow> string option"
    and invar :: "'s \<Rightarrow> bool"
  assumes status_approval: "invar s \<Longrightarrow> rs_approval_status S t a s = (Inr (approval s t a), s)"
    and create_new: "invar s \<Longrightarrow> approval s t a = None \<Longrightarrow>
      \<exists>s'. rs_create_approval S t a s = (Inr (), s') \<and> invar s' \<and>
        approval s' = (approval s)(t := (approval s t)(a \<mapsto> ''PENDING''))"
    and create_again: "invar s \<Longrightarrow> approval s t a = Some x \<Longrightarrow>
      \<exists>s'. rs_create_approval S t a s = (Inr (), s') \<and> invar s' \<and> approval s' = approval s"
    and resolve_pending: "invar s \<Longrightarrow> approval s t a = Some ''PENDING'' \<Longrightarrow>
      \<exists>s'. rs_resolve_approval S t a yes who why s = (Inr (), s') \<and> invar s' \<and>
        approval s' = (approval s)(t := (approval s t)(a \<mapsto> (if yes then ''APPROVED'' else ''REJECTED'')))"
    and resolve_other: "invar s \<Longrightarrow> approval s t a \<noteq> Some ''PENDING'' \<Longrightarrow>
      rs_resolve_approval S t a yes who why s = (Inl (ValueError ''approval is not pending''), s)"
begin

text \<open>A resolution is final: no later creation or resolution of any action changes it.\<close>

lemma final_under_create:
  assumes inv: "invar s" and x: "approval s t a = Some x"
  shows "approval (snd (rs_create_approval S t' a' s)) t a = Some x"
proof (cases "approval s t' a'")
  case None
  from create_new [OF inv None] obtain s' where "rs_create_approval S t' a' s = (Inr (), s')"
    "approval s' = (approval s)(t' := (approval s t')(a' \<mapsto> ''PENDING''))" by blast
  with None x show ?thesis by auto
next
  case (Some y)
  from create_again [OF inv Some] obtain s' where
    "rs_create_approval S t' a' s = (Inr (), s')" "approval s' = approval s" by blast
  with x show ?thesis by simp
qed

lemma final_under_resolve:
  assumes inv: "invar s" and x: "approval s t a = Some x" "x \<noteq> ''PENDING''"
  shows "approval (snd (rs_resolve_approval S t' a' yes who why s)) t a = Some x"
proof (cases "approval s t' a' = Some ''PENDING''")
  case True
  from resolve_pending [OF inv True] obtain s' where
    "rs_resolve_approval S t' a' yes who why s = (Inr (), s')"
    "approval s' = (approval s)(t' := (approval s t')(a' \<mapsto> (if yes then ''APPROVED'' else ''REJECTED'')))"
    by blast
  with True x show ?thesis by auto
next
  case False
  then show ?thesis using x resolve_other [OF inv] by simp
qed

text \<open>At most one human decision is accepted per action.\<close>

lemma resolved_once:
  assumes inv: "invar s" and first: "rs_resolve_approval S t a yes who why s = (Inr (), s')"
  shows "rs_resolve_approval S t a yes' who' why' s' = (Inl (ValueError ''approval is not pending''), s')"
proof (cases "approval s t a = Some ''PENDING''")
  case True
  then have "invar s'" and "approval s' t a = Some (if yes then ''APPROVED'' else ''REJECTED'')"
    using resolve_pending [OF inv True, of yes who why] first by auto
  then show ?thesis by (intro resolve_other) auto
next
  case False
  with first resolve_other [OF inv] show ?thesis by simp
qed

end

end
