(* ===== verification/Policy.thy ===== *)
theory Policy
  imports Models
begin

text \<open>
  \<open>agent_resilience/policy.py\<close>: the fail-closed permission policy. It looks only at the tool and the
  \<open>environment\<close> argument; a missing environment counts as production.
\<close>

record policy_decision =
  pd_risk :: risk_level
  pd_allowed :: bool
  pd_approval_required :: bool
  pd_reason :: string

definition lower_char :: "char \<Rightarrow> char" where
  "lower_char c = (let n = of_char c :: nat in if 65 \<le> n \<and> n \<le> 90 then char_of (n + 32) else c)"

text \<open>
  \<open>str(arguments.get("environment", "production")).lower() == "production"\<close>. The Python text of a
  value that is no string (\<open>None\<close>, \<open>True\<close>, a number, a list, a dictionary) never reads as
  \<open>production\<close>.
\<close>

definition reads_production :: "dict \<Rightarrow> bool" where
  "reads_production arguments =
     (case map_of arguments ''environment'' of
        None \<Rightarrow> True
      | Some (JStr s) \<Rightarrow> map lower_char s = ''production''
      | Some _ \<Rightarrow> False)"

definition evaluate :: "tool_name \<Rightarrow> dict \<Rightarrow> policy_decision" where
  "evaluate tool arguments =
     (if tool = DELETE_DATABASE
      then \<lparr>pd_risk = BLOCKED, pd_allowed = False, pd_approval_required = False,
            pd_reason = ''database deletion is prohibited''\<rparr>
      else if tool = RESTART_SERVICE
      then (if reads_production arguments
            then \<lparr>pd_risk = HIGH, pd_allowed = True, pd_approval_required = True,
                  pd_reason = ''production restart requires human approval''\<rparr>
            else \<lparr>pd_risk = MEDIUM, pd_allowed = True, pd_approval_required = False,
                  pd_reason = ''non-production restart is permitted''\<rparr>)
      else \<lparr>pd_risk = LOW, pd_allowed = True, pd_approval_required = False,
            pd_reason = ''read-only or verification action''\<rparr>)"

text \<open>The action the policy gates: a restart whose environment reads as production.\<close>

definition production_restart :: "tool_name \<Rightarrow> dict \<Rightarrow> bool" where
  "production_restart tool arguments =
     (tool = RESTART_SERVICE \<and> reads_production arguments)"

lemma evaluate_simps [simp]:
  "pd_allowed (evaluate tool arguments) \<longleftrightarrow> tool \<noteq> DELETE_DATABASE"
  "pd_approval_required (evaluate tool arguments) \<longleftrightarrow> production_restart tool arguments"
  by (simp_all add: evaluate_def production_restart_def)

lemma evaluate_risk:
  "pd_risk (evaluate tool arguments) =
    (if tool = DELETE_DATABASE then BLOCKED
     else if production_restart tool arguments then HIGH
     else if tool = RESTART_SERVICE then MEDIUM else LOW)"
  by (simp add: evaluate_def production_restart_def)

text \<open>The verdict is a threshold on the risk: blocked is denied, high needs a human.\<close>

lemma verdict_by_risk:
  "pd_allowed (evaluate tool arguments) \<longleftrightarrow> pd_risk (evaluate tool arguments) < BLOCKED"
  "pd_allowed (evaluate tool arguments) \<Longrightarrow>
    pd_approval_required (evaluate tool arguments) \<longleftrightarrow> HIGH \<le> pd_risk (evaluate tool arguments)"
  by (auto simp: evaluate_risk less_risk_level_def less_eq_risk_level_def production_restart_def)

lemma reads_production_validated:
  "map_of arguments ''environment'' = Some (JStr e) \<Longrightarrow> e \<in> set environments \<Longrightarrow>
    reads_production arguments \<longleftrightarrow> e = ''production''"
  by (auto simp: reads_production_def environments_def lower_char_def Let_def)

section \<open>The policy as a threshold\<close>

text \<open>
  The policy fails closed: an action is allowed exactly when its risk is below BLOCKED, among the
  allowed ones a human is needed exactly from HIGH on, and a restart that names no environment counts
  as a production restart.
\<close>

theorem policy_fails_closed:
  "pd_allowed (evaluate tool args) = (pd_risk (evaluate tool args) < BLOCKED) \<and>
   pd_approval_required (evaluate tool args) = (pd_risk (evaluate tool args) = HIGH) \<and>
   (pd_risk (evaluate RESTART_SERVICE (AList.delete ''environment'' args)) = HIGH) \<and>
   pd_risk (evaluate DELETE_DATABASE args) = BLOCKED"
proof -
  have "reads_production (AList.delete ''environment'' args)"
    by (simp add: reads_production_def delete_conv')
  then have "pd_risk (evaluate RESTART_SERVICE (AList.delete ''environment'' args)) = HIGH"
    by (simp add: evaluate_risk production_restart_def)
  moreover have "pd_approval_required (evaluate tool args) = (pd_risk (evaluate tool args) = HIGH)"
    by (cases "production_restart tool args") (simp_all add: evaluate_risk, simp add: production_restart_def)
  moreover have "pd_risk (evaluate DELETE_DATABASE args) = BLOCKED" by (simp add: evaluate_risk)
  ultimately show ?thesis using verdict_by_risk(1) [of tool args] by blast
qed

end
