(* ===== verification/Tool_Gateway.thy ===== *)
theory Tool_Gateway
  imports Contracts Policy
begin

text \<open>
  \<open>agent_resilience/tools.py\<close>: the argument models of the tools, the deterministic scenario backend
  and the tool gateway, which validates, authorises and deduplicates every call before a backend
  sees it. A backend is a program over the state, so that calls into the outside world can be
  recorded and can fail.
\<close>

type_synonym 's backend = "workflow_state \<Rightarrow> tool_name \<Rightarrow> dict \<Rightarrow> int \<Rightarrow> ('s, json) act"

section \<open>Argument models\<close>

datatype argument_model = Service_Arguments | Dependency_Arguments

fun argument_model_of :: "tool_name \<Rightarrow> argument_model" where
  \<comment> \<open>\<open>ARGUMENT_MODELS\<close>\<close>
  "argument_model_of DEPENDENCY_HEALTH = Dependency_Arguments"
| "argument_model_of t = Service_Arguments"

definition valid_service :: "json option \<Rightarrow> string option" where
  "valid_service v =
     (case v of
        Some (JStr s) \<Rightarrow> if length_between 1 100 s \<and> slug s then Some s else None
      | _ \<Rightarrow> None)"

definition valid_environment :: "json option \<Rightarrow> string option" where
  "valid_environment v =
     (case v of
        None \<Rightarrow> Some ''production''
      | Some (JStr e) \<Rightarrow> if e \<in> set environments then Some e else None
      | _ \<Rightarrow> None)"

definition valid_dependency :: "json option \<Rightarrow> json option" where
  "valid_dependency v =
     (case v of
        None \<Rightarrow> Some JNull
      | Some JNull \<Rightarrow> Some JNull
      | Some (JStr d) \<Rightarrow> if length d \<le> 100 then Some (JStr d) else None
      | _ \<Rightarrow> None)"

text \<open>\<open>model_validate(arguments).model_dump()\<close>; unknown keys are ignored.\<close>

definition validate_arguments :: "argument_model \<Rightarrow> dict \<Rightarrow> dict option" where
  "validate_arguments am arguments =
     (case (valid_service (map_of arguments ''service''), valid_environment (map_of arguments ''environment'')) of
        (Some s, Some e) \<Rightarrow>
          (case am of
             Service_Arguments \<Rightarrow> Some [(''service'', JStr s), (''environment'', JStr e)]
           | Dependency_Arguments \<Rightarrow>
               (case valid_dependency (map_of arguments ''dependency'') of
                  Some d \<Rightarrow> Some [(''service'', JStr s), (''environment'', JStr e), (''dependency'', d)]
                | None \<Rightarrow> None))
      | _ \<Rightarrow> None)"

definition validate_and_decide ::
  "platform \<Rightarrow> tool_name \<Rightarrow> dict \<Rightarrow> error + (dict \<times> policy_decision)" where
  "validate_and_decide pf tool arguments =
     (case validate_arguments (argument_model_of tool) arguments of
        None \<Rightarrow> Inl (PermanentWorkflowError
          (''invalid arguments for '' @ tool_value tool @ '': '' @ validation_text pf (tool_value tool) arguments))
      | Some validated \<Rightarrow> Inr (validated, evaluate tool validated))"

section \<open>The scenario backend\<close>

text \<open>\<open>int(x)\<close> and \<open>x.get(k, dflt)\<close> on a JSON value.\<close>

definition py_int :: "platform \<Rightarrow> json \<Rightarrow> error + int" where
  "py_int pf j =
     (case j of
        JInt i \<Rightarrow> Inr i
      | JBool b \<Rightarrow> Inr (if b then 1 else 0)
      | JFloat q \<Rightarrow> Inr (if q < 0 then - \<lfloor>- q\<rfloor> else \<lfloor>q\<rfloor>)
      | JStr s \<Rightarrow> (case parse_int pf s of Some i \<Rightarrow> Inr i | None \<Rightarrow> Inl (ValueError ''invalid literal for int()''))
      | _ \<Rightarrow> Inl (TypeError ''int() argument''))"

definition py_get :: "json \<Rightarrow> string \<Rightarrow> json \<Rightarrow> error + json" where
  "py_get j k dflt =
     (case j of
        JObj d \<Rightarrow> Inr (case map_of d k of None \<Rightarrow> dflt | Some v \<Rightarrow> v)
      | _ \<Rightarrow> Inl (AttributeError ''get''))"

definition py_item :: "dict \<Rightarrow> string \<Rightarrow> error + json" where
  "py_item d k = (case map_of d k of None \<Rightarrow> Inl (KeyError k) | Some v \<Rightarrow> Inr v)"

definition transient_count :: "platform \<Rightarrow> dict \<Rightarrow> tool_name \<Rightarrow> error + int" where
  "transient_count pf scenario tool =
     (case py_get (JObj scenario) ''transient_failures'' (JObj []) of
        Inl e \<Rightarrow> Inl e
      | Inr failures \<Rightarrow>
          (case py_get failures (tool_value tool) (JInt 0) of
             Inl e \<Rightarrow> Inl e
           | Inr n \<Rightarrow> py_int pf n))"

definition scenario_answer :: "dict \<Rightarrow> workflow_state \<Rightarrow> tool_name \<Rightarrow> dict \<Rightarrow> error + json" where
  "scenario_answer scenario st tool arguments =
     (case tool of
        READ_ALERT \<Rightarrow> py_item scenario ''alert''
      | INSPECT_METRICS \<Rightarrow> py_item scenario ''metrics''
      | QUERY_LOGS \<Rightarrow> py_item scenario ''logs''
      | DEPENDENCY_HEALTH \<Rightarrow> py_item scenario ''dependencies''
      | RESTART_SERVICE \<Rightarrow>
          (case (py_item arguments ''service'', py_item arguments ''environment'') of
             (Inr s, Inr e) \<Rightarrow> Inr (JObj [(''service'', s), (''restarted'', JBool True), (''environment'', e)])
           | (Inl err, _) \<Rightarrow> Inl err
           | (_, Inl err) \<Rightarrow> Inl err)
      | VERIFY_RECOVERY \<Rightarrow>
          (if ''restart_service'' \<in> set (completed_steps st) then py_item scenario ''after_restart''
           else py_item scenario ''alert'')
      | DELETE_DATABASE \<Rightarrow> Inl (PermanentWorkflowError ''blocked tool reached backend''))"

definition scenario_execute ::
  "platform \<Rightarrow> dict \<Rightarrow> workflow_state \<Rightarrow> tool_name \<Rightarrow> dict \<Rightarrow> int \<Rightarrow> error + json" where
  "scenario_execute pf scenarios st tool arguments attempt =
     (case map_of scenarios (scenario_id st) of
        None \<Rightarrow> Inl (PermanentWorkflowError (''unknown scenario: '' @ scenario_id st))
      | Some found \<Rightarrow>
          if \<not> truthy found then Inl (PermanentWorkflowError (''unknown scenario: '' @ scenario_id st))
          else (case found of
            JObj scenario \<Rightarrow>
              (case transient_count pf scenario tool of
                 Inl e \<Rightarrow> Inl e
               | Inr n \<Rightarrow>
                   if 0 < attempt \<and> attempt \<le> n
                   then Inl (RetryableWorkflowError (tool_value tool @ '' downstream timed out''))
                   else scenario_answer scenario st tool arguments)
          | _ \<Rightarrow> Inl (AttributeError ''get'')))"

definition scenario_backend :: "platform \<Rightarrow> dict \<Rightarrow> 's backend" where
  "scenario_backend pf scenarios st tool arguments attempt =
     lift_sum (scenario_execute pf scenarios st tool arguments attempt)"

section \<open>The gateway\<close>

definition gateway_action_id :: "'s runtime_store \<Rightarrow> workflow_state \<Rightarrow> tool_name \<Rightarrow> dict \<Rightarrow> string" where
  "gateway_action_id S st tool arguments =
     task_id st @ '':'' @ tool_value tool @ '':'' @ slice_to 16 (rs_arguments_hash S arguments)"

definition attempt_number :: "workflow_state \<Rightarrow> tool_name \<Rightarrow> int" where
  "attempt_number st tool = int (length (filter (\<lambda>name. name = tool_value tool) (tool_history st)))"

definition gateway_execute ::
  "platform \<Rightarrow> 's runtime_store \<Rightarrow> 's backend \<Rightarrow> workflow_state \<Rightarrow> tool_name \<Rightarrow> dict \<Rightarrow>
    ('s, dict \<times> bool) act" where
  "gateway_execute pf S B st tool arguments =
     bindE (lift_sum (validate_and_decide pf tool arguments)) (\<lambda>vd.
       let validated = fst vd; decision = snd vd
       in if \<not> pd_allowed decision then raise (PermanentWorkflowError (pd_reason decision))
          else
            let key = gateway_action_id S st tool validated
            in bindE (rs_get_tool_result S key validated) (\<lambda>cached.
                 case cached of
                   Some r \<Rightarrow> ret (r, True)
                 | None \<Rightarrow>
                     bindE (B st tool validated (attempt_number st tool)) (\<lambda>result.
                       case result of
                         JObj (kv # kvs) \<Rightarrow>
                           bindE (rs_save_tool_result S key (task_id st) (tool_value tool) validated (kv # kvs))
                             (\<lambda>_. ret (kv # kvs, False))
                       | _ \<Rightarrow> raise (RetryableWorkflowError (tool_value tool @ '' returned invalid structured output'')))))"

section \<open>Validation\<close>

lemma validate_argumentsE:
  assumes "validate_arguments am a = Some v"
  obtains s e where "slug s" "length_between 1 100 s" "e \<in> set environments"
      "am = Service_Arguments" "v = [(''service'', JStr s), (''environment'', JStr e)]"
    | s e d where "slug s" "length_between 1 100 s" "e \<in> set environments"
      "am = Dependency_Arguments" "v = [(''service'', JStr s), (''environment'', JStr e), (''dependency'', d)]"
      "d = JNull \<or> (\<exists>t. d = JStr t \<and> length t \<le> 100)"
proof -
  from assms obtain s e where se: "valid_service (map_of a ''service'') = Some s"
    "valid_environment (map_of a ''environment'') = Some e"
    by (auto simp: validate_arguments_def split: option.splits)
  from se(1) have s: "slug s" "length_between 1 100 s"
    by (auto simp: valid_service_def split: option.splits json.splits if_splits)
  from se(2) have e: "e \<in> set environments"
    by (auto simp: valid_environment_def environments_def split: option.splits json.splits if_splits)
  show thesis
  proof (cases am)
    case Service_Arguments
    with se assms s e that(1) show ?thesis by (auto simp: validate_arguments_def)
  next
    case Dependency_Arguments
    with se assms obtain d where d: "valid_dependency (map_of a ''dependency'') = Some d"
      and v: "v = [(''service'', JStr s), (''environment'', JStr e), (''dependency'', d)]"
      by (auto simp: validate_arguments_def split: option.splits)
    from d have "d = JNull \<or> (\<exists>t. d = JStr t \<and> length t \<le> 100)"
      by (auto simp: valid_dependency_def split: option.splits json.splits if_splits)
    with that(2) s e Dependency_Arguments v show ?thesis by blast
  qed
qed

lemma validate_idem: "validate_arguments am a = Some v \<Longrightarrow> validate_arguments am v = Some v"
  by (erule validate_argumentsE)
     (auto simp: validate_arguments_def valid_service_def valid_environment_def valid_dependency_def)

lemma validated_environment:
  "validate_arguments am a = Some v \<Longrightarrow>
    \<exists>e \<in> set environments. map_of v ''environment'' = Some (JStr e) \<and>
      (reads_production v \<longleftrightarrow> e = ''production'')"
  by (erule validate_argumentsE) (auto simp: reads_production_validated)

lemma validate_and_decide_Inr:
  "validate_and_decide pf t a = Inr (v, d) \<longleftrightarrow>
    validate_arguments (argument_model_of t) a = Some v \<and> d = evaluate t v"
  by (auto simp: validate_and_decide_def split: option.splits)

lemma validate_and_decide_idem:
  "validate_and_decide pf t a = Inr (v, d) \<Longrightarrow> validate_and_decide pf t v = Inr (v, d)"
  by (auto simp: validate_and_decide_Inr intro: validate_idem)

lemma validate_and_decide_Inl: "validate_and_decide pf t a = Inl e \<Longrightarrow> is_permanent e"
  by (auto simp: validate_and_decide_def split: option.splits)

section \<open>Validation and the policy\<close>

text \<open>
  Validation is idempotent and decides the policy: validating what was validated changes nothing,
  neither the arguments nor the verdict, and executing the validated arguments of a pending action is
  executing the arguments that were requested.
\<close>

theorem validation_stable:
  assumes "validate_and_decide pf tool args = Inr (v, d)"
  shows "validate_and_decide pf tool v = Inr (v, d) \<and>
    gateway_execute pf S B st tool v = gateway_execute pf S B st tool args"
  using assms validate_and_decide_idem [OF assms]
  by (simp add: gateway_execute_def lift_sum_def bindE_def)

theorem validation_stable_witness:
  "validate_and_decide sample_platform QUERY_LOGS
      [(''service'', JStr ''checkout''), (''environment'', JStr ''production'')] =
     Inr ([(''service'', JStr ''checkout''), (''environment'', JStr ''production'')],
       evaluate QUERY_LOGS [(''service'', JStr ''checkout''), (''environment'', JStr ''production'')])"
proof -
  have "validate_and_decide sample_platform QUERY_LOGS [(''extra'', JNull), (''service'', JStr ''checkout'')] =
     Inr ([(''service'', JStr ''checkout''), (''environment'', JStr ''production'')],
       evaluate QUERY_LOGS [(''service'', JStr ''checkout''), (''environment'', JStr ''production'')])"
    by (simp add: validate_and_decide_def validate_arguments_def valid_service_def valid_environment_def
        length_between_def slug_def name_char_def)
  from validation_stable [OF this] show ?thesis by blast
qed

text \<open>
  After validation the policy decides on one of the three environments: a restart needs approval
  exactly when the validated environment is production, whatever text, omission or extra key was sent.
\<close>

theorem restart_approval_by_environment:
  assumes "validate_and_decide pf RESTART_SERVICE args = Inr (v, d)"
  shows "\<exists>e. map_of v ''environment'' = Some (JStr e) \<and> (e = ''production'' \<or> e = ''staging'' \<or> e = ''test'') \<and>
    pd_allowed d \<and> (pd_approval_required d \<longleftrightarrow> e = ''production'')"
proof -
  from assms have v: "validate_arguments (argument_model_of RESTART_SERVICE) args = Some v" "d = evaluate RESTART_SERVICE v"
    by (simp_all add: validate_and_decide_Inr)
  from validated_environment [OF v(1)] obtain e where "e \<in> set environments"
    "map_of v ''environment'' = Some (JStr e)" "reads_production v \<longleftrightarrow> e = ''production''" by blast
  with v(2) show ?thesis by (auto simp: environments_def production_restart_def)
qed

theorem restart_approval_by_environment_witness:
  "\<exists>v d. validate_and_decide sample_platform RESTART_SERVICE [(''service'', JStr ''checkout'')] = Inr (v, d) \<and>
     pd_approval_required d"
proof -
  have v: "validate_and_decide sample_platform RESTART_SERVICE [(''service'', JStr ''checkout'')] =
      Inr ([(''service'', JStr ''checkout''), (''environment'', JStr ''production'')],
        evaluate RESTART_SERVICE [(''service'', JStr ''checkout''), (''environment'', JStr ''production'')])"
    by (simp add: validate_and_decide_def validate_arguments_def valid_service_def valid_environment_def
        length_between_def slug_def name_char_def)
  from restart_approval_by_environment [OF this] v show ?thesis by auto
qed

end
