(* ===== verification/Config.thy ===== *)
theory Config
  imports Models
begin

text \<open>
  \<open>agent_resilience/config.py\<close>: the settings with their defaults. Reading them from the environment
  and from \<open>.env.local\<close> is Pydantic's; a run of the program is given a \<open>settings\<close> value.
\<close>

record settings =
  database_path :: string
  runtime_backend :: string
  tool_backend :: string
  openai_api_key :: "string option"
  openai_model :: string
  agent_mode :: string
  admin_api_token :: "string option"
  viewer_api_token :: "string option"
  max_agent_turns :: int
  max_queue_attempts :: int
  queue_lease_seconds :: int
  queue_heartbeat_seconds :: rat
  queue_retry_base_seconds :: rat
  worker_poll_seconds :: rat
  chaos_pause_tool :: "string option"
  chaos_pause_after_steps :: "int option"
  chaos_pause_seconds :: rat
  run_worker :: bool
  max_evidence_chars :: int
  otel_exporter_otlp_endpoint :: "string option"
  aws_region :: string
  aws_endpoint_url :: "string option"
  dynamodb_table_name :: string
  sqs_queue_url :: "string option"
  sqs_dlq_url :: "string option"
  ecs_cluster :: string
  ecs_service_prefix :: string
  cloudwatch_log_group_prefix :: string
  cloudwatch_metric_namespace :: string
  service_metric_namespace :: string
  cloudwatch_metrics_enabled :: bool

definition default_settings :: settings where
  "default_settings =
     \<lparr>database_path = ''data/agent-resilience.db'', runtime_backend = ''sqlite'',
      tool_backend = ''scenario'', openai_api_key = None, openai_model = ''gpt-5.6-terra'',
      agent_mode = ''live'', admin_api_token = None, viewer_api_token = None,
      max_agent_turns = 12, max_queue_attempts = 5, queue_lease_seconds = 60,
      queue_heartbeat_seconds = 20, queue_retry_base_seconds = 1, worker_poll_seconds = 1 / 2,
      chaos_pause_tool = None, chaos_pause_after_steps = None, chaos_pause_seconds = 0,
      run_worker = False, max_evidence_chars = 12000, otel_exporter_otlp_endpoint = None,
      aws_region = ''us-east-1'', aws_endpoint_url = None,
      dynamodb_table_name = ''agent-resilience-dev-workflows'', sqs_queue_url = None,
      sqs_dlq_url = None, ecs_cluster = ''agent-resilience-dev'', ecs_service_prefix = [],
      cloudwatch_log_group_prefix = ''/ecs/'', cloudwatch_metric_namespace = ''AgentResilience'',
      service_metric_namespace = ''AgentResilience/Services'', cloudwatch_metrics_enabled = False\<rparr>"

text \<open>\<open>agent_resilience/factory.py\<close>: which store and which tool backend the settings select.\<close>

datatype store_kind = Sqlite_Store | Aws_Store

datatype tool_backend_kind = Scenario_Tools | Aws_Tools

definition build_store :: "settings \<Rightarrow> error + store_kind" where
  "build_store c =
     (if runtime_backend c = ''aws'' then Inr Aws_Store
      else if runtime_backend c = ''sqlite'' then Inr Sqlite_Store
      else Inl (ValueError (''unsupported RUNTIME_BACKEND: '' @ runtime_backend c)))"

definition build_tool_backend :: "settings \<Rightarrow> error + tool_backend_kind" where
  "build_tool_backend c =
     (if tool_backend c = ''aws'' then Inr Aws_Tools
      else if tool_backend c = ''scenario'' then Inr Scenario_Tools
      else Inl (ValueError (''unsupported TOOL_BACKEND: '' @ tool_backend c)))"

end
