(* ===== verification/Decision.thy ===== *)
theory Decision
  imports Tool_Gateway Config
begin

text \<open>
  \<open>agent_resilience/decision.py\<close>: decision engines. An engine decides on a workflow and reports the
  tokens it used; both are programs over the state, because the model call is the point where a
  delivery waits and the rest of the system moves on. The deterministic engine is modelled in full;
  of the OpenAI engine, the prompt, the classification of errors and what is done with the outcome
  of a run, which is a parameter.
\<close>

record 's engine =
  en_decide :: "workflow_state \<Rightarrow> ('s, agent_decision) act"
  en_take_usage :: "('s, int \<times> int) act"

section \<open>The deterministic engine\<close>

definition default_arguments :: tool_arguments where
  "default_arguments = \<lparr>ta_service = Some ''checkout-service'', ta_environment = Some ''production'',
     ta_dependency = None\<rparr>"

definition use_tool :: "tool_name \<Rightarrow> string \<Rightarrow> string option \<Rightarrow> agent_decision" where
  "use_tool tool why diag =
     \<lparr>d_action = Use_Tool, d_rationale = why, d_tool = Some tool, d_arguments = default_arguments,
      d_diagnosis = diag, d_remediation = None, d_final_answer = None\<rparr>"

definition evidence_sequence :: "(string \<times> tool_name) list" where
  "evidence_sequence =
     [(''read_alert'', READ_ALERT), (''inspect_metrics'', INSPECT_METRICS),
      (''query_logs'', QUERY_LOGS), (''dependency_health'', DEPENDENCY_HEALTH)]"

definition py_float :: "platform \<Rightarrow> json \<Rightarrow> error + rat" where
  "py_float pf j =
     (case j of
        JInt i \<Rightarrow> Inr (of_int i)
      | JFloat q \<Rightarrow> Inr q
      | JBool b \<Rightarrow> Inr (if b then 1 else 0)
      | JStr s \<Rightarrow> (case parse_float pf s of Some q \<Rightarrow> Inr q | None \<Rightarrow> Inl (ValueError ''could not convert string to float''))
      | _ \<Rightarrow> Inl (TypeError ''float() argument''))"

definition recovered :: "platform \<Rightarrow> json \<Rightarrow> error + bool" where
  "recovered pf verification =
     (case py_get verification ''metrics'' verification of
        Inl e \<Rightarrow> Inl e
      | Inr metrics \<Rightarrow>
          (case py_get metrics ''error_rate_percent'' JNull of
             Inl e \<Rightarrow> Inl e
           | Inr rate \<Rightarrow>
               if rate = JNull then Inr False
               else (case py_float pf rate of Inl e \<Rightarrow> Inl e | Inr q \<Rightarrow> Inr (q < 1))))"

definition recovered_decision :: agent_decision where
  "recovered_decision =
     \<lparr>d_action = Complete, d_rationale = ''recovery evidence meets threshold'', d_tool = None,
      d_arguments = no_arguments, d_diagnosis = Some ''database connection pool exhaustion'',
      d_remediation = Some ''checkout-service restarted after approval'',
      d_final_answer = Some ''Checkout recovered: error rate is below 1% after the approved restart.''\<rparr>"

definition not_recovered_decision :: agent_decision where
  "not_recovered_decision =
     \<lparr>d_action = Fail, d_rationale = ''restart did not restore service health'', d_tool = None,
      d_arguments = no_arguments, d_diagnosis = Some ''upstream dependency failure'',
      d_remediation = Some ''escalate to the dependency owner'', d_final_answer = None\<rparr>"

definition deterministic_decide :: "platform \<Rightarrow> workflow_state \<Rightarrow> error + agent_decision" where
  "deterministic_decide pf st =
     (case find (\<lambda>kt. map_of (evidence st) (fst kt) = None) evidence_sequence of
        Some (key, tool) \<Rightarrow> make_decision (use_tool tool (''collect '' @ key @ '' evidence'') None)
      | None \<Rightarrow>
          if ''restart_service'' \<notin> set (completed_steps st)
          then make_decision (use_tool RESTART_SERVICE ''evidence supports a bounded service restart''
                 (Some ''database connection pool exhaustion''))
          else (case map_of (evidence st) ''verify_recovery'' of
              None \<Rightarrow> make_decision (use_tool VERIFY_RECOVERY ''verify recovery'' None)
            | Some verification \<Rightarrow>
                (case recovered pf verification of
                   Inl e \<Rightarrow> Inl e
                 | Inr True \<Rightarrow> make_decision recovered_decision
                 | Inr False \<Rightarrow> make_decision not_recovered_decision)))"

definition deterministic_engine :: "platform \<Rightarrow> 's engine" where
  "deterministic_engine pf =
     \<lparr>en_decide = (\<lambda>st. lift_sum (deterministic_decide pf st)), en_take_usage = ret (0, 0)\<rparr>"

section \<open>The OpenAI engine\<close>

text \<open>
  An exception of the agents SDK: its class name, the classes it is an instance of, its text. A run
  returns the usage it counted and its final output, \<open>None\<close> when that is no \<open>AgentDecision\<close>.
\<close>

record sdk_error =
  se_name :: string
  se_classes :: "string list"
  se_text :: string

datatype run_outcome =
    Run_Finished int int "agent_decision option"
  | Run_Raised sdk_error

definition classify_error :: "sdk_error \<Rightarrow> error" where
  "classify_error e =
     (let message = ''OpenAI agent run failed ('' @ se_name e @ ''): '' @ se_text e
      in if list_ex (\<lambda>c. c \<in> set (se_classes e))
              [''UserError'', ''AuthenticationError'', ''PermissionDeniedError'', ''BadRequestError'', ''NotFoundError'']
         then PermanentWorkflowError message
         else RetryableWorkflowError message)"

text \<open>
  The agents of the engine: an orchestrator whose tools are three specialists. Creating them registers
  the key with the SDK and calls nothing else, so the constructor is the tree of agents or a missing key.
\<close>

datatype agent = Agent (ag_name: string) (ag_model: string) (ag_instructions: string) (ag_typed_output: bool)
  (ag_tools: "(string \<times> string \<times> agent) list")

definition lines_text :: "string list \<Rightarrow> string" where
  \<comment> \<open>lines with a newline between them\<close>
  "lines_text ls = concat (map (\<lambda>l. l @ [CHR 0x0A]) (butlast ls)) @ last ls"

definition orchestrator_instructions :: string where
  "orchestrator_instructions = lines_text
    [''You are the orchestrator for a production incident response runtime. Decide exactly one next action.'',
     ''You do not execute infrastructure operations directly; choose one bounded tool for the runtime gateway.'',
     ''Gather alert, metrics, logs, and dependency evidence as needed. Do not repeat a tool unless prior evidence is'',
     ''missing or explicitly inconclusive. Production restarts require human approval and database deletion is forbidden.'',
     ''When evidence supports a bounded production restart, request it by returning use_tool with restart_service; the'',
     ''runtime, not you, creates the approval gate and pauses execution. Do not return fail merely because approval is'',
     ''required. After restart_service is completed, use verify_recovery before completing the incident.'',
     ''Complete only when you can state a supported diagnosis, remediation, and recovery result. Return the typed output.'',
     ''Use specialist agents when their bounded analysis improves your decision.'']"

definition specialist :: "settings \<Rightarrow> string \<Rightarrow> string \<Rightarrow> agent" where
  "specialist c name instructions = Agent name (openai_model c) instructions False []"

definition orchestrator :: "settings \<Rightarrow> agent" where
  "orchestrator c = Agent ''Incident orchestrator'' (openai_model c) orchestrator_instructions True
     [(''analyze_logs'', ''Analyze collected log evidence.'', specialist c ''Log analysis specialist''
         ''Analyze supplied application-log evidence. Identify concrete error signatures and avoid speculation.''),
      (''analyze_cloud_state'', ''Analyze metrics and dependencies.'', specialist c ''Cloud state specialist''
         ''Analyze supplied metrics and dependency evidence. Distinguish service-local from downstream failures.''),
      (''review_remediation'', ''Review a proposed safe remediation.'', specialist c ''Remediation specialist''
         ''Recommend the least risky remediation supported by evidence. Never bypass approval or policy.'')]"

definition open_openai_engine :: "settings \<Rightarrow> error + agent" where
  "open_openai_engine c =
     (if \<not> truthy_text (openai_api_key c)
      then Inl (ValueError ''OPENAI_API_KEY is required for live agent mode'')
      else Inr (orchestrator c))"

datatype engine_kind = Deterministic_Engine | Openai_Engine agent

definition build_decision_engine :: "settings \<Rightarrow> error + engine_kind" where
  "build_decision_engine c =
     (if agent_mode c = ''deterministic'' then Inr Deterministic_Engine
      else bind_sum (open_openai_engine c) (\<lambda>a. Inr (Openai_Engine a)))"

fun agent_tools :: "agent \<Rightarrow> string list" where
  \<comment> \<open>what the model may call by itself, at any depth\<close>
  "agent_tools (Agent n m i t ts) = concat (map (\<lambda>(name, _, a). name # agent_tools a) ts)"

lemma no_gateway_tool_in_agents: "set (agent_tools (orchestrator c)) \<inter> range tool_value = {}"
proof -
  have "tool_value tool \<notin> set (agent_tools (orchestrator c))" for tool
    by (cases tool) (simp_all add: orchestrator_def specialist_def)
  then show ?thesis by auto
qed

text \<open>The engine object keeps the usage of its last run: the state is that pair.\<close>

definition openai_decide :: "run_outcome \<Rightarrow> (int \<times> int, agent_decision) act" where
  "openai_decide outcome last_usage =
     (case outcome of
        Run_Finished i o' (Some d) \<Rightarrow> (Inr d, (i, o'))
      | Run_Finished i o' None \<Rightarrow>
          (Inl (RetryableWorkflowError ''agent returned invalid structured output''), (i, o'))
      | Run_Raised e \<Rightarrow> (Inl (classify_error e), last_usage))"

definition openai_take_usage :: "(int \<times> int, int \<times> int) act" where
  "openai_take_usage last_usage = (Inr last_usage, (0, 0))"

definition compacted_evidence :: "platform \<Rightarrow> settings \<Rightarrow> workflow_state \<Rightarrow> string" where
  "compacted_evidence pf c st = slice_from (- max_evidence_chars c) (sorted_dumps pf (evidence st))"

definition prompt :: "platform \<Rightarrow> settings \<Rightarrow> workflow_state \<Rightarrow> string" where
  "prompt pf c st =
     dumps pf '', '' '': '' False (JObj
       [(''goal'', JStr (goal st)),
        (''status'', JStr (status_value (status st))),
        (''completed_steps'', JArr (map JStr (completed_steps st))),
        (''tool_history'', JArr (map JStr (slice_from (- 20) (tool_history st)))),
        (''evidence'', JStr (compacted_evidence pf c st)),
        (''available_tools'', JArr (map (\<lambda>t. JStr (tool_value t)) tool_names)),
        (''required_tool_arguments'', JObj [(''service'', JStr ''checkout-service''),
           (''environment'', JStr ''production'')])])"

section \<open>What the engines decide\<close>

lemma make_use_tool:
  "why \<noteq> [] \<Longrightarrow> length why \<le> 1000 \<Longrightarrow> make_decision (use_tool t why diag) = Inr (use_tool t why diag)"
  by (simp add: make_decision_def use_tool_def validate_action_def valid_tool_arguments_def
      default_arguments_def length_between_def slug_def name_char_def environments_def truthy_text_def
      Suc_le_eq)

lemma make_recovered [simp]:
  "make_decision recovered_decision = Inr recovered_decision"
  "make_decision not_recovered_decision = Inr not_recovered_decision"
  by (simp_all add: make_decision_def recovered_decision_def not_recovered_decision_def
      validate_action_def valid_tool_arguments_def no_arguments_def length_between_def truthy_text_def)

text \<open>The deterministic engine asks for what is missing, in its fixed order.\<close>

definition next_tool :: "workflow_state \<Rightarrow> tool_name option" where
  "next_tool st =
     (case find (\<lambda>kt. map_of (evidence st) (fst kt) = None) evidence_sequence of
        Some kt \<Rightarrow> Some (snd kt)
      | None \<Rightarrow>
          if ''restart_service'' \<notin> set (completed_steps st) then Some RESTART_SERVICE
          else if map_of (evidence st) ''verify_recovery'' = None then Some VERIFY_RECOVERY
          else None)"

lemma deterministic_next_tool:
  assumes "next_tool st = Some t"
  shows "\<exists>why diag. deterministic_decide pf st = Inr (use_tool t why diag)"
proof (cases "find (\<lambda>kt. map_of (evidence st) (fst kt) = None) evidence_sequence")
  case (Some kt)
  then have "kt \<in> set evidence_sequence" by (auto dest: find_SomeD)
  then have "length (''collect '' @ fst kt @ '' evidence'') \<le> 1000"
    by (auto simp: evidence_sequence_def)
  with Some assms make_use_tool [of "''collect '' @ fst kt @ '' evidence''" "snd kt" None]
  show ?thesis by (cases kt) (auto simp: deterministic_decide_def next_tool_def)
next
  case None
  with assms show ?thesis
    by (auto simp: deterministic_decide_def next_tool_def make_use_tool split: if_splits)
qed

lemma deterministic_done:
  assumes "next_tool st = None"
  obtains v where "map_of (evidence st) ''verify_recovery'' = Some v"
    "deterministic_decide pf st = (case recovered pf v of Inl e \<Rightarrow> Inl e
      | Inr b \<Rightarrow> Inr (if b then recovered_decision else not_recovered_decision))"
  using assms
  by (auto simp: deterministic_decide_def next_tool_def split: option.splits if_splits sum.splits bool.splits)

lemma length_compacted_evidence:
  assumes "0 < max_evidence_chars c"
  shows "int (length (compacted_evidence pf c st)) \<le> max_evidence_chars c"
proof -
  from assms obtain k where k: "max_evidence_chars c = int k" "0 < k"
    by (metis of_nat_0_less_iff zero_less_imp_eq_int)
  then show ?thesis
    using length_slice_from_last [of k "sorted_dumps pf (evidence st)"] by (simp add: compacted_evidence_def)
qed

end
