(* ===== verification/Loop_Detector.thy ===== *)
theory Loop_Detector
  imports Models
begin

text \<open>
  \<open>agent_resilience/loop_detector.py\<close>: the tool-call budget, the search for a block of tools
  repeated at the end of the history, and the check that the last evidence fingerprints differ.
  The main lemmas give the meaning of the two searches without slices or ranges.
\<close>

record loop_detector =
  repeat_threshold :: int
  max_tool_calls :: int

definition make_loop_detector :: "int \<Rightarrow> int \<Rightarrow> error + loop_detector" where
  "make_loop_detector r m =
     (if r < 2 then Inl (ValueError ''repeat_threshold must be at least 2'')
      else Inr \<lparr>repeat_threshold = r, max_tool_calls = m\<rparr>)"

definition default_loop_detector :: loop_detector where
  \<comment> \<open>\<open>LoopDetector()\<close>\<close>
  "default_loop_detector = \<lparr>repeat_threshold = 4, max_tool_calls = 20\<rparr>"

definition repeated_suffix :: "loop_detector \<Rightarrow> 'a list \<Rightarrow> bool" where
  "repeated_suffix ld values =
     list_ex (\<lambda>len.
        let tail = slice_from (- len * repeat_threshold ld) values;
            pattern = slice_to len tail
        in tail = concat (replicate (nat (repeat_threshold ld)) pattern))
       [1..int (length values) div repeat_threshold ld]"

definition no_progress :: "loop_detector \<Rightarrow> 'a list \<Rightarrow> bool" where
  "no_progress ld progress =
     (int (length progress) \<ge> repeat_threshold ld \<and>
      length (remdups (slice_from (- repeat_threshold ld) progress)) = 1)"

definition reason :: "loop_detector \<Rightarrow> string list \<Rightarrow> string list \<Rightarrow> string option" where
  "reason ld tools progress =
     (if int (length tools) \<ge> max_tool_calls ld
      then Some (''tool-call budget exceeded ('' @ str_int (max_tool_calls ld) @ '')'')
      else if repeated_suffix ld tools then Some ''repeated tool sequence detected''
      else if no_progress ld progress
      then Some ''agent repeated actions without changing workflow evidence''
      else None)"

section \<open>What the searches find\<close>

lemma make_loop_detector_Inr: "make_loop_detector r m = Inr ld \<Longrightarrow> 2 \<le> repeat_threshold ld"
  by (auto simp: make_loop_detector_def split: if_splits)

lemma length_concat_replicate: "length (concat (replicate n p)) = n * length p"
  by (induction n) auto

lemma take_concat_replicate: "0 < n \<Longrightarrow> take (length p) (concat (replicate n p)) = p"
  by (cases n) auto

lemma drop_length_append: "length ys = k \<Longrightarrow> drop (length (xs @ ys) - k) (xs @ ys) = ys"
  by simp

lemma repeated_suffix_at:
  assumes thr: "2 \<le> repeat_threshold ld" and len: "1 \<le> (len :: int)"
    and fits: "len \<le> int (length xs) div repeat_threshold ld"
  shows "(let tail = slice_from (- len * repeat_threshold ld) xs; pattern = slice_to len tail
      in tail = concat (replicate (nat (repeat_threshold ld)) pattern)) \<longleftrightarrow>
    (\<exists>pre p. length p = nat len \<and> xs = pre @ concat (replicate (nat (repeat_threshold ld)) p))"
    (is "?code \<longleftrightarrow> ?spec")
proof -
  define t where "t = nat (repeat_threshold ld)"
  define k where "k = nat len"
  have t: "repeat_threshold ld = int t" and t2: "2 \<le> t" and l: "len = int k" and k1: "1 \<le> k"
    using thr len by (simp_all add: t_def k_def)
  have "int k \<le> int (length xs) div int t" using fits by (simp add: t l)
  then have "int k * int t \<le> int (length xs)"
    using t2 by (simp add: le_int_div_iff)
  then have kt: "k * t \<le> length xs" by (simp flip: of_nat_mult)
  have tail: "slice_from (- int k * repeat_threshold ld) xs = drop (length xs - k * t) xs"
    using slice_from_last [of "k * t" xs] k1 t2 by (simp add: t)
  have code: "?code \<longleftrightarrow> drop (length xs - k * t) xs =
      concat (replicate t (take k (drop (length xs - k * t) xs)))"
    unfolding l tail Let_def slice_to_pos t_def [symmetric] by (rule refl)
  show ?thesis
  proof
    assume ?code
    then have eq: "drop (length xs - k * t) xs = concat (replicate t (take k (drop (length xs - k * t) xs)))"
      by (simp only: code)
    let ?p = "take k (drop (length xs - k * t) xs)"
    have "k \<le> k * t" using t2 by simp
    then have "length ?p = k" using kt by simp
    moreover have "xs = take (length xs - k * t) xs @ concat (replicate t ?p)"
      using eq append_take_drop_id by metis
    ultimately show ?spec unfolding t_def [symmetric] k_def [symmetric] by blast
  next
    assume ?spec
    then obtain pre p where p: "length p = k" and xs: "xs = pre @ concat (replicate t p)"
      unfolding t_def k_def by blast
    have lc: "length (concat (replicate t p)) = k * t" by (simp add: length_concat_replicate p)
    have "drop (length xs - k * t) xs = concat (replicate t p)"
      unfolding xs by (rule drop_length_append) (rule lc)
    moreover have "take k (concat (replicate t p)) = p"
      using take_concat_replicate [of t p] t2 p by simp
    ultimately show ?code unfolding code by simp
  qed
qed

lemma repeated_suffix_iff:
  assumes thr: "2 \<le> repeat_threshold ld"
  shows "repeated_suffix ld xs \<longleftrightarrow>
    (\<exists>pre p. p \<noteq> [] \<and> xs = pre @ concat (replicate (nat (repeat_threshold ld)) p))"
proof -
  let ?t = "nat (repeat_threshold ld)"
  have fits: "int (length p) \<le> int (length xs) div repeat_threshold ld"
    if "xs = pre @ concat (replicate ?t p)" for pre p
  proof -
    have "length p * ?t \<le> length xs" using that by (simp add: length_concat_replicate mult.commute)
    then have "int (length p) * repeat_threshold ld \<le> int (length xs)"
      using thr by (metis nat_0_le of_nat_le_iff of_nat_mult order_trans zero_le_numeral)
    then show ?thesis using thr by (simp add: le_int_div_iff)
  qed
  have "repeated_suffix ld xs \<longleftrightarrow>
    (\<exists>len \<in> {1..int (length xs) div repeat_threshold ld}.
       \<exists>pre p. length p = nat len \<and> xs = pre @ concat (replicate ?t p))"
    unfolding repeated_suffix_def list_ex_iff set_upto
  proof (rule bex_cong [OF refl])
    fix len
    assume "len \<in> {1..int (length xs) div repeat_threshold ld}"
    then have "1 \<le> len" and "len \<le> int (length xs) div repeat_threshold ld" by simp_all
    then show "(let tail = slice_from (- len * repeat_threshold ld) xs; pattern = slice_to len tail
        in tail = concat (replicate ?t pattern)) \<longleftrightarrow>
      (\<exists>pre p. length p = nat len \<and> xs = pre @ concat (replicate ?t p))"
      by (rule repeated_suffix_at [OF thr])
  qed
  also have "\<dots> \<longleftrightarrow> (\<exists>pre p. p \<noteq> [] \<and> xs = pre @ concat (replicate ?t p))"
  proof
    assume "\<exists>len \<in> {1..int (length xs) div repeat_threshold ld}.
       \<exists>pre p. length p = nat len \<and> xs = pre @ concat (replicate ?t p)"
    then obtain len pre p where "1 \<le> len" "length p = nat len" "xs = pre @ concat (replicate ?t p)"
      by (meson atLeastAtMost_iff)
    moreover from this(1,2) have "p \<noteq> []" by (cases p) simp_all
    ultimately show "\<exists>pre p. p \<noteq> [] \<and> xs = pre @ concat (replicate ?t p)" by blast
  next
    assume "\<exists>pre p. p \<noteq> [] \<and> xs = pre @ concat (replicate ?t p)"
    then obtain pre p where p: "p \<noteq> []" "xs = pre @ concat (replicate ?t p)" by blast
    then have "int (length p) \<in> {1..int (length xs) div repeat_threshold ld}"
      using fits [OF p(2)] by (simp add: Suc_le_eq)
    moreover have "length p = nat (int (length p))" by simp
    ultimately show "\<exists>len \<in> {1..int (length xs) div repeat_threshold ld}.
       \<exists>pre p. length p = nat len \<and> xs = pre @ concat (replicate ?t p)" using p(2) by blast
  qed
  finally show ?thesis .
qed

lemma remdups_length_1: "length (remdups xs) = 1 \<longleftrightarrow> xs \<noteq> [] \<and> (\<exists>x. xs = replicate (length xs) x)"
proof
  assume "length (remdups xs) = 1"
  then obtain x where "remdups xs = [x]" by (metis One_nat_def length_0_conv length_Suc_conv)
  then have "set xs = {x}" by (metis list.set(1) list.simps(15) set_remdups)
  then show "xs \<noteq> [] \<and> (\<exists>x. xs = replicate (length xs) x)"
    by (metis empty_not_insert replicate_length_same set_empty singletonD)
next
  assume *: "xs \<noteq> [] \<and> (\<exists>x. xs = replicate (length xs) x)"
  then obtain x where "xs = replicate (length xs) x" by blast
  with * have "set xs = {x}" by (metis length_0_conv set_replicate)
  then show "length (remdups xs) = 1" by (simp add: length_remdups_card_conv)
qed

lemma no_progress_iff:
  assumes thr: "2 \<le> repeat_threshold ld"
  shows "no_progress ld xs \<longleftrightarrow> (\<exists>pre f. xs = pre @ replicate (nat (repeat_threshold ld)) f)"
proof -
  define t where "t = nat (repeat_threshold ld)"
  have t: "repeat_threshold ld = int t" and t2: "2 \<le> t" using thr by (simp_all add: t_def)
  have s: "slice_from (- repeat_threshold ld) xs = drop (length xs - t) xs"
    using slice_from_last [of t xs] t2 by (simp add: t)
  have code: "no_progress ld xs \<longleftrightarrow> t \<le> length xs \<and> (\<exists>f. drop (length xs - t) xs = replicate t f)"
  proof -
    have "no_progress ld xs \<longleftrightarrow> t \<le> length xs \<and> drop (length xs - t) xs \<noteq> [] \<and>
        (\<exists>f. drop (length xs - t) xs = replicate (length (drop (length xs - t) xs)) f)"
      unfolding no_progress_def s remdups_length_1 unfolding t by simp
    moreover have "length (drop (length xs - t) xs) = t" if "t \<le> length xs" using that by simp
    ultimately show ?thesis using t2 by (metis list.size(3) not_numeral_le_zero)
  qed
  show ?thesis unfolding code t_def [symmetric]
  proof
    assume "t \<le> length xs \<and> (\<exists>f. drop (length xs - t) xs = replicate t f)"
    then show "\<exists>pre f. xs = pre @ replicate t f" by (metis append_take_drop_id)
  next
    assume "\<exists>pre f. xs = pre @ replicate t f"
    then show "t \<le> length xs \<and> (\<exists>f. drop (length xs - t) xs = replicate t f)" by auto
  qed
qed

lemma reason_None:
  "reason ld tools progress = None \<longleftrightarrow>
    int (length tools) < max_tool_calls ld \<and> \<not> repeated_suffix ld tools \<and> \<not> no_progress ld progress"
  by (auto simp: reason_def)

section \<open>When the detector stops a workflow\<close>

text \<open>
  C28: With a threshold of at least two, a workflow is stopped exactly when its tool history has reached
  the budget, or ends in some non-empty block of tools repeated threshold-many times, or its last
  threshold-many evidence fingerprints are all the same.
\<close>

theorem stopped_exactly_when:
  assumes "2 \<le> repeat_threshold ld"
  shows "reason ld tools progress \<noteq> None \<longleftrightarrow>
    max_tool_calls ld \<le> int (length tools) \<or>
    (\<exists>pre p. p \<noteq> [] \<and> tools = pre @ concat (replicate (nat (repeat_threshold ld)) p)) \<or>
    (\<exists>pre f. progress = pre @ replicate (nat (repeat_threshold ld)) f)"
  by (simp add: reason_None linorder_not_less repeated_suffix_iff [OF assms] no_progress_iff [OF assms])

theorem stopped_exactly_when_witness:
  "reason default_loop_detector [''a'', ''b'', ''a'', ''b'', ''a'', ''b'', ''a'', ''b''] [] \<noteq> None \<and>
   reason default_loop_detector [''a'', ''a'', ''a''] [''x'', ''x'', ''x''] = None"
proof
  show "reason default_loop_detector [''a'', ''b'', ''a'', ''b'', ''a'', ''b'', ''a'', ''b''] [] \<noteq> None"
  proof -
    have "[''a'', ''b'', ''a'', ''b'', ''a'', ''b'', ''a'', ''b''] =
        [] @ concat (replicate (nat (repeat_threshold default_loop_detector)) [''a'', ''b''])"
      by (simp add: default_loop_detector_def eval_nat_numeral)
    then have "\<exists>pre p. p \<noteq> [] \<and> [''a'', ''b'', ''a'', ''b'', ''a'', ''b'', ''a'', ''b''] =
        pre @ concat (replicate (nat (repeat_threshold default_loop_detector)) p)" by blast
    moreover have "2 \<le> repeat_threshold default_loop_detector" by (simp add: default_loop_detector_def)
    ultimately show ?thesis using stopped_exactly_when by blast
  qed
  show "reason default_loop_detector [''a'', ''a'', ''a''] [''x'', ''x'', ''x''] = None"
    by code_simp
qed

text \<open>A detector with a threshold below two is refused; every other one is built as asked.\<close>

theorem detector_construction:
  "make_loop_detector r m =
     (if 2 \<le> r then Inr \<lparr>repeat_threshold = r, max_tool_calls = m\<rparr>
      else Inl (ValueError ''repeat_threshold must be at least 2''))"
  by (simp add: make_loop_detector_def)

end
