(* ===== verification/Runtime.thy ===== *)
theory Runtime
  imports Decision Loop_Detector
begin

text \<open>
  \<open>agent_resilience/runtime.py\<close>: one delivery of a workflow, \<open>process\<close>. A runtime is a record of the
  objects the class holds: the store, the engine, the tool backend behind the gateway, the loop
  detector and the chaos settings; \<open>wf_sleep\<close> is what the rest of the system does during the chaos
  pause, \<open>wf_now\<close> the time of the delivery and \<open>wf_heartbeat\<close> the exception, if any, that the heartbeat task
  of the worker ended with. Metrics have no effect on the state and are left out.
\<close>

record 's workflow_runtime =
  wf_platform :: platform
  wf_store :: "'s runtime_store"
  wf_engine :: "'s engine"
  wf_backend :: "'s backend"
  wf_loop_detector :: loop_detector
  wf_chaos_pause_tool :: "string option"
  wf_chaos_pause_after_steps :: "int option"
  wf_chaos_pause_seconds :: rat
  wf_sleep :: "rat \<Rightarrow> ('s, unit) act"
  wf_now :: int
  wf_heartbeat :: "error option"

definition save :: "'s workflow_runtime \<Rightarrow> workflow_state \<Rightarrow> ('s, workflow_state) act" where
  \<comment> \<open>\<open>self.store.save_workflow(state, state.version)\<close>\<close>
  "save R st = rs_save_workflow (wf_store R) st (version st)"

definition event :: "'s workflow_runtime \<Rightarrow> string \<Rightarrow> string \<Rightarrow> dict \<Rightarrow> ('s, unit) act" where
  "event R task type payload = rs_record_event (wf_store R) task type payload"

definition progress_fingerprint :: "platform \<Rightarrow> workflow_state \<Rightarrow> string" where
  "progress_fingerprint pf st = slice_to 16 (sha256_hex pf (sorted_dumps pf (evidence st)))"

definition required_state :: "'s workflow_runtime \<Rightarrow> string \<Rightarrow> ('s, workflow_state) act" where
  "required_state R task =
     bindE (rs_get_workflow (wf_store R) task) (\<lambda>found.
       case found of
         None \<Rightarrow> raise (PermanentWorkflowError (''unknown workflow: '' @ task))
       | Some st \<Rightarrow> ret st)"

definition fail_workflow ::
  "'s workflow_runtime \<Rightarrow> workflow_state \<Rightarrow> string \<Rightarrow> string \<Rightarrow> ('s, workflow_state) act" where
  \<comment> \<open>\<open>_fail\<close>\<close>
  "fail_workflow R st why category =
     bindE (save R (st\<lparr>status := FAILED, last_error := Some why, current_step := None\<rparr>)) (\<lambda>st.
     bindE (event R (task_id st) ''WORKFLOW_FAILED'' [(''category'', JStr category), (''reason'', JStr why)]) (\<lambda>_.
     ret st))"

section \<open>Executing a tool\<close>

definition tool_completed :: "platform \<Rightarrow> workflow_state \<Rightarrow> tool_name \<Rightarrow> dict \<Rightarrow> workflow_state" where
  \<comment> \<open>the checkpoint after a tool returned\<close>
  "tool_completed pf st tool result =
     (let st1 = st\<lparr>tool_calls := tool_calls st + 1,
                evidence := AList.update (tool_value tool) (JObj result) (evidence st),
                completed_steps := (if tool_value tool \<notin> set (completed_steps st)
                   then completed_steps st @ [tool_value tool] else completed_steps st),
                pending_action := None, current_step := None, last_error := None, status := QUEUED\<rparr>
      in st1\<lparr>progress_history := progress_history st1 @ [progress_fingerprint pf st1]\<rparr>)"

definition execute_tool ::
  "'s workflow_runtime \<Rightarrow> workflow_state \<Rightarrow> tool_name \<Rightarrow> dict \<Rightarrow> ('s, workflow_state) act" where
  "execute_tool R st tool arguments =
     bindE
       (try_catch
         (bindE (gateway_execute (wf_platform R) (wf_store R) (wf_backend R) st tool arguments)
           (\<lambda>rc. ret (Inr rc)))
         (\<lambda>e. if is_retryable e
           then bindE (save R (st\<lparr>retries := retries st + 1, last_error := Some (error_text e), status := QUEUED\<rparr>)) (\<lambda>_.
                bindE (event R (task_id st) ''TOOL_RETRYABLE_FAILURE''
                  [(''tool'', JStr (tool_value tool)), (''error'', JStr (error_text e))]) (\<lambda>_.
                raise e))
           else if is_permanent e
           then bindE (fail_workflow R st (error_text e) ''tool'') (\<lambda>st. ret (Inl st))
           else raise e))
       (\<lambda>outcome. case outcome of
          Inl st \<Rightarrow> ret st
        | Inr (result, cached) \<Rightarrow>
            bindE (save R (tool_completed (wf_platform R) st tool result)) (\<lambda>st.
            bindE (event R (task_id st) ''TOOL_COMPLETED''
              [(''tool'', JStr (tool_value tool)), (''cached'', JBool cached), (''result'', JObj result)]) (\<lambda>_.
            ret st)))"

definition resume_approved_action ::
  "'s workflow_runtime \<Rightarrow> workflow_state \<Rightarrow> pending_action \<Rightarrow> ('s, workflow_state) act" where
  "resume_approved_action R st p =
     bindE (rs_approval_status (wf_store R) (task_id st) (action_id p)) (\<lambda>approval.
       if approval \<noteq> Some ''APPROVED'' then ret (st\<lparr>status := WAITING_FOR_APPROVAL\<rparr>)
       else bindE (event R (task_id st) ''APPROVED_ACTION_RESUMED'' [(''action_id'', JStr (action_id p))]) (\<lambda>_.
            execute_tool R st (pa_tool p) (pa_arguments p)))"

section \<open>Acting on a decision\<close>

definition chaos_pause :: "'s workflow_runtime \<Rightarrow> workflow_state \<Rightarrow> tool_name \<Rightarrow> ('s, unit) act" where
  "chaos_pause R st tool =
     (if wf_chaos_pause_seconds R \<noteq> 0 \<and>
         (wf_chaos_pause_tool R = Some (tool_value tool) \<or>
          wf_chaos_pause_after_steps R = Some (int (length (completed_steps st))))
      then bindE (event R (task_id st) ''CHAOS_PAUSE_STARTED''
             [(''tool'', JStr (tool_value tool)), (''seconds'', JFloat (wf_chaos_pause_seconds R))]) (\<lambda>_.
           wf_sleep R (wf_chaos_pause_seconds R))
      else ret ())"

definition request_approval ::
  "'s workflow_runtime \<Rightarrow> workflow_state \<Rightarrow> agent_decision \<Rightarrow> tool_name \<Rightarrow> dict \<Rightarrow> policy_decision \<Rightarrow>
    ('s, workflow_state) act" where
  "request_approval R st d tool arguments policy =
     (let aid = gateway_action_id (wf_store R) st tool arguments;
          p = \<lparr>action_id = aid, pa_tool = tool, pa_arguments = arguments, pa_risk = pd_risk policy,
               pa_rationale = d_rationale d, pa_created_at = wf_now R\<rparr>
      in bindE (save R (st\<lparr>pending_action := Some p, status := WAITING_FOR_APPROVAL\<rparr>)) (\<lambda>st.
         bindE (rs_create_approval (wf_store R) (task_id st) aid) (\<lambda>_.
         bindE (event R (task_id st) ''APPROVAL_REQUIRED'' (dump_pending (wf_platform R) p)) (\<lambda>_.
         ret st))))"

definition tool_requested :: "platform \<Rightarrow> workflow_state \<Rightarrow> tool_name \<Rightarrow> workflow_state" where
  \<comment> \<open>the checkpoint with the request in its histories\<close>
  "tool_requested pf st tool =
     st\<lparr>current_step := Some (tool_value tool), tool_history := tool_history st @ [tool_value tool],
        progress_history := progress_history st @ [progress_fingerprint pf st]\<rparr>"

definition stop_loop :: "'s workflow_runtime \<Rightarrow> workflow_state \<Rightarrow> string \<Rightarrow> ('s, workflow_state) act" where
  "stop_loop R st why =
     bindE (save R (st\<lparr>status := LOOP_STOPPED, last_error := Some why\<rparr>)) (\<lambda>st.
     bindE (event R (task_id st) ''LOOP_DETECTED''
       [(''reason'', JStr why), (''history'', JArr (map JStr (slice_from (- 12) (tool_history st))))]) (\<lambda>_.
     ret st))"

definition follow_policy ::
  "'s workflow_runtime \<Rightarrow> workflow_state \<Rightarrow> agent_decision \<Rightarrow> tool_name \<Rightarrow> dict \<Rightarrow> policy_decision \<Rightarrow>
    ('s, workflow_state) act" where
  \<comment> \<open>what happens to a requested action once its request is saved\<close>
  "follow_policy R st d tool arguments policy =
     (if \<not> pd_allowed policy
      then bindE (event R (task_id st) ''POLICY_DENIED''
             [(''tool'', JStr (tool_value tool)), (''reason'', JStr (pd_reason policy))]) (\<lambda>_.
           fail_workflow R st (pd_reason policy) ''policy'')
      else if pd_approval_required policy then request_approval R st d tool arguments policy
      else bindE (chaos_pause R st tool) (\<lambda>_. execute_tool R st tool arguments))"

definition act_on_tool ::
  "'s workflow_runtime \<Rightarrow> workflow_state \<Rightarrow> agent_decision \<Rightarrow> tool_name \<Rightarrow> ('s, workflow_state) act" where
  "act_on_tool R st d tool =
     bindE (lift_sum (validate_and_decide (wf_platform R) tool (dump_arguments (d_arguments d)))) (\<lambda>vd.
       let arguments = fst vd; policy = snd vd; st = tool_requested (wf_platform R) st tool
       in case reason (wf_loop_detector R) (tool_history st) (progress_history st) of
            Some why \<Rightarrow> stop_loop R st why
          | None \<Rightarrow> bindE (save R st) (\<lambda>st. follow_policy R st d tool arguments policy))"

definition complete_workflow :: "'s workflow_runtime \<Rightarrow> workflow_state \<Rightarrow> agent_decision \<Rightarrow> ('s, workflow_state) act" where
  "complete_workflow R st d =
     bindE (save R (st\<lparr>status := COMPLETED, final_answer := d_final_answer d, current_step := None\<rparr>)) (\<lambda>st.
     bindE (event R (task_id st) ''WORKFLOW_COMPLETED'' [(''answer'', json_of_option (final_answer st))]) (\<lambda>_.
     ret st))"

definition note_findings :: "workflow_state \<Rightarrow> agent_decision \<Rightarrow> workflow_state" where
  "note_findings st d =
     st\<lparr>diagnosis := (if truthy_text (d_diagnosis d) then d_diagnosis d else diagnosis st),
        remediation := (if truthy_text (d_remediation d) then d_remediation d else remediation st)\<rparr>"

definition act_on_decision :: "'s workflow_runtime \<Rightarrow> workflow_state \<Rightarrow> agent_decision \<Rightarrow> ('s, workflow_state) act" where
  "act_on_decision R st d =
     (case d_action d of
        Complete \<Rightarrow> complete_workflow R st d
      | Fail \<Rightarrow> fail_workflow R st (d_rationale d) ''agent_decision''
      | Use_Tool \<Rightarrow>
          (case d_tool d of
             None \<Rightarrow> raise (AssertionError ''decision.tool is not None'')
           | Some tool \<Rightarrow> act_on_tool R st d tool))"

section \<open>One delivery\<close>

definition decide :: "'s workflow_runtime \<Rightarrow> workflow_state \<Rightarrow> ('s, agent_decision) act" where
  "decide R st =
     try_catch (en_decide (wf_engine R) st)
       (\<lambda>e. if is_retryable e
          then bindE (save R (st\<lparr>retries := retries st + 1, status := QUEUED, last_error := Some (error_text e)\<rparr>)) (\<lambda>st.
               bindE (event R (task_id st) ''MODEL_RETRYABLE_FAILURE'' [(''error'', JStr (error_text e))]) (\<lambda>_.
               raise e))
          else raise e)"

definition model_called :: "workflow_state \<Rightarrow> int \<times> int \<Rightarrow> workflow_state" where
  "model_called st usage =
     st\<lparr>model_calls := model_calls st + 1, input_tokens := input_tokens st + fst usage,
        output_tokens := output_tokens st + snd usage\<rparr>"

definition start_decision :: "'s workflow_runtime \<Rightarrow> workflow_state \<Rightarrow> ('s, workflow_state) act" where
  "start_decision R st =
     bindE (save R (st\<lparr>status := RUNNING, last_error := None\<rparr>)) (\<lambda>st.
     bindE (event R (task_id st) ''AGENT_DECISION_STARTED'' [(''model_call'', JInt (model_calls st + 1))]) (\<lambda>_.
     bindE (decide R st) (\<lambda>d.
     bindE (en_take_usage (wf_engine R)) (\<lambda>usage.
     bindE (event R (task_id st) ''AGENT_DECISION'' (dump_decision d)) (\<lambda>_.
     act_on_decision R (note_findings (model_called st usage) d) d)))))"

definition process :: "'s workflow_runtime \<Rightarrow> string \<Rightarrow> ('s, workflow_state) act" where
  "process R task =
     bindE (required_state R task) (\<lambda>st.
       if terminal st \<or> status st = WAITING_FOR_APPROVAL then ret st
       else (case pending_action st of
           Some p \<Rightarrow> resume_approved_action R st p
         | None \<Rightarrow> start_decision R st))"

lemmas runtime_defs = save_def event_def required_state_def fail_workflow_def execute_tool_def
  resume_approved_action_def chaos_pause_def request_approval_def stop_loop_def follow_policy_def act_on_tool_def
  complete_workflow_def act_on_decision_def decide_def start_decision_def process_def

end
