(* ===== verification/Worker.thy ===== *)
theory Worker
  imports Runtime
begin

text \<open>
  \<open>agent_resilience/worker.py\<close>: one bounded delivery per call of \<open>run_once\<close>, the heartbeat that
  extends the lease while a delivery waits, and the serving loop. The heartbeat task runs only while
  the delivery awaits (the model call, the chaos pause), so it is part of what the engine and
  \<open>wf_sleep\<close> do to the state; one beat is \<open>heartbeat\<close>.
\<close>

text \<open>The runtime that \<open>build_worker\<close> (and \<open>create_app\<close>) assembles from the settings.\<close>

definition make_runtime ::
  "platform \<Rightarrow> settings \<Rightarrow> 's runtime_store \<Rightarrow> 's engine \<Rightarrow> 's backend \<Rightarrow> (rat \<Rightarrow> ('s, unit) act) \<Rightarrow> int \<Rightarrow>
    's workflow_runtime" where
  "make_runtime pf c S E B sleep now =
     \<lparr>wf_platform = pf, wf_store = S, wf_engine = E, wf_backend = B,
      wf_loop_detector = default_loop_detector, wf_chaos_pause_tool = chaos_pause_tool c,
      wf_chaos_pause_after_steps = chaos_pause_after_steps c,
      wf_chaos_pause_seconds = max 0 (chaos_pause_seconds c), wf_sleep = sleep, wf_now = now, wf_heartbeat = None\<rparr>"

lemma make_runtime_simps [simp]:
  "wf_platform (make_runtime pf c S E B sleep now) = pf"
  "wf_store (make_runtime pf c S E B sleep now) = S"
  "wf_engine (make_runtime pf c S E B sleep now) = E"
  "wf_backend (make_runtime pf c S E B sleep now) = B"
  "wf_loop_detector (make_runtime pf c S E B sleep now) = default_loop_detector"
  "wf_sleep (make_runtime pf c S E B sleep now) = sleep"
  "wf_now (make_runtime pf c S E B sleep now) = now"
  "wf_heartbeat (make_runtime pf c S E B sleep now) = None"
  "(make_runtime pf c S E B sleep now)\<lparr>wf_heartbeat := None\<rparr> = make_runtime pf c S E B sleep now"
  by (simp_all add: make_runtime_def)

definition acknowledge_and_requeue ::
  "'s workflow_runtime \<Rightarrow> settings \<Rightarrow> queue_delivery \<Rightarrow> workflow_state \<Rightarrow> ('s, unit) act" where
  "acknowledge_and_requeue R c d st =
     bindE (rs_acknowledge (wf_store R) (dl_id d)) (\<lambda>_.
       if status st = QUEUED
       then bindE (rs_enqueue (wf_store R) (task_id st) (max_queue_attempts c) []) (\<lambda>_. ret ())
       else ret ())"

definition on_retryable ::
  "'s workflow_runtime \<Rightarrow> settings \<Rightarrow> queue_delivery \<Rightarrow> error \<Rightarrow> ('s, unit) act" where
  "on_retryable R c d e =
     bindE (rs_retry_or_dead_letter (wf_store R) d (error_text e) (queue_retry_base_seconds c)) (\<lambda>dead.
       if \<not> dead then ret ()
       else bindE (rs_get_workflow (wf_store R) (dl_task_id d)) (\<lambda>found.
         case found of
           None \<Rightarrow> ret ()
         | Some st \<Rightarrow>
             if terminal st then ret ()
             else bindE (save R (st\<lparr>status := DEAD_LETTERED, last_error := Some (error_text e)\<rparr>)) (\<lambda>st.
                  event R (task_id st) ''DEAD_LETTERED'' [(''error'', JStr (error_text e))])))"

definition on_permanent ::
  "'s workflow_runtime \<Rightarrow> queue_delivery \<Rightarrow> error \<Rightarrow> ('s, unit) act" where
  "on_permanent R d e =
     bindE (rs_acknowledge (wf_store R) (dl_id d)) (\<lambda>_.
     bindE (rs_get_workflow (wf_store R) (dl_task_id d)) (\<lambda>found.
       case found of
         None \<Rightarrow> ret ()
       | Some st \<Rightarrow>
           if terminal st then ret ()
           else bindE (save R (st\<lparr>status := FAILED, last_error := Some (error_text e)\<rparr>)) (\<lambda>st.
                event R (task_id st) ''WORKFLOW_FAILED''
                  [(''category'', JStr ''permanent''), (''reason'', JStr (error_text e))])))"

definition deliver ::
  "'s workflow_runtime \<Rightarrow> settings \<Rightarrow> queue_delivery \<Rightarrow> ('s, unit) act" where
  "deliver R c d =
     try_catch
       (bindE (process R (dl_task_id d)) (acknowledge_and_requeue R c d))
       (\<lambda>e. if is_retryable e then on_retryable R c d e
            else if is_permanent e then on_permanent R d e
            else raise e)"

text \<open>
  The \<open>finally\<close> of a delivery cancels the heartbeat task and awaits it: only its cancellation is suppressed,
  so an exception that the task ended with is raised here, in place of what the delivery returns or raises.
\<close>

definition await_heartbeat :: "error option \<Rightarrow> ('s, unit) act \<Rightarrow> ('s, unit) act" where
  "await_heartbeat failed m =
     (case failed of
        None \<Rightarrow> m
      | Some e \<Rightarrow> bindE (try_catch m (\<lambda>_. ret ())) (\<lambda>_. raise e))"

definition run_once :: "'s workflow_runtime \<Rightarrow> settings \<Rightarrow> string \<Rightarrow> ('s, bool) act" where
  "run_once R c worker =
     bindE (rs_claim (wf_store R) worker (queue_lease_seconds c)) (\<lambda>claimed.
       case claimed of
         None \<Rightarrow> bindE (rs_queue_counts (wf_store R)) (\<lambda>_. ret False)
       | Some d \<Rightarrow>
           bindE (await_heartbeat (wf_heartbeat R) (deliver R c d)) (\<lambda>_.
           bindE (rs_queue_counts (wf_store R)) (\<lambda>_. ret True)))"

definition heartbeat_interval :: "settings \<Rightarrow> rat" where
  "heartbeat_interval c = max (1 / 10) (min (queue_heartbeat_seconds c) (of_int (queue_lease_seconds c) / 2))"

definition heartbeat ::
  "'s workflow_runtime \<Rightarrow> settings \<Rightarrow> string \<Rightarrow> queue_delivery \<Rightarrow> ('s, unit) act" where
  "heartbeat R c worker d =
     bindE (rs_extend_lease (wf_store R) d (queue_lease_seconds c)) (\<lambda>_.
       event R (dl_task_id d) ''QUEUE_LEASE_EXTENDED''
         [(''worker_id'', JStr worker), (''lease_seconds'', JInt (queue_lease_seconds c))])"

text \<open>
  The loop of \<open>serve\<close> until \<open>stop\<close> is called after \<open>n\<close> rounds; an escaping exception ends it. Each round
  has its own time, engine and answers.
\<close>

fun serve :: "(nat \<Rightarrow> 's workflow_runtime) \<Rightarrow> settings \<Rightarrow> string \<Rightarrow> nat \<Rightarrow> ('s, unit) act" where
  "serve R c worker 0 = ret ()"
| "serve R c worker (Suc n) = bindE (run_once (R 0) c worker) (\<lambda>_. serve (\<lambda>i. R (Suc i)) c worker n)"

lemma await_heartbeat_simps [simp]:
  "await_heartbeat None m = m"
  "await_heartbeat (Some e) m s = (Inl e, snd (m s))"
  by (simp_all add: await_heartbeat_def bindE_def try_catch_def ret_def raise_def split: prod.split sum.split)

lemmas worker_defs = acknowledge_and_requeue_def on_retryable_def on_permanent_def deliver_def run_once_def

lemma heartbeat_interval_bounds:
  "1 / 10 \<le> heartbeat_interval c"
  "1 \<le> queue_lease_seconds c \<Longrightarrow> heartbeat_interval c < of_int (queue_lease_seconds c)"
proof -
  show "1 / 10 \<le> heartbeat_interval c" by (simp add: heartbeat_interval_def)
  assume "1 \<le> queue_lease_seconds c"
  then have "(1 :: rat) \<le> of_int (queue_lease_seconds c)" by simp
  then show "heartbeat_interval c < of_int (queue_lease_seconds c)"
    unfolding heartbeat_interval_def max_less_iff_conj min_less_iff_disj by linarith
qed

end
