(* ===== verification/Api.thy ===== *)
theory Api
  imports Worker
begin

text \<open>
  \<open>agent_resilience/api.py\<close>: the control plane. Each handler is a program over the store that the
  application holds; FastAPI's routing is left out, its request validation is the \<open>valid_\<close> predicate
  of the request (status 422), and the bearer checks are the functions \<open>require_admin\<close> and
  \<open>require_viewer\<close> of the \<open>Authorization\<close> header.
\<close>

section \<open>Start-up and bearer tokens\<close>

text \<open>The components \<open>create_app\<close> assembles when no engine is given, in the order it builds them.\<close>

definition create_app :: "settings \<Rightarrow> error + (store_kind \<times> engine_kind \<times> tool_backend_kind)" where
  "create_app c =
     (if runtime_backend c = ''aws'' \<and> (\<not> truthy_text (admin_api_token c) \<or> \<not> truthy_text (viewer_api_token c))
      then Inl (ValueError ''AWS runtime requires ADMIN_API_TOKEN and VIEWER_API_TOKEN'')
      else (case build_store c of
          Inl e \<Rightarrow> Inl e
        | Inr s \<Rightarrow>
            (case build_decision_engine c of
               Inl e \<Rightarrow> Inl e
             | Inr en \<Rightarrow>
                 (case build_tool_backend c of
                    Inl e \<Rightarrow> Inl e
                  | Inr b \<Rightarrow> Inr (s, en, b)))))"

text \<open>\<open>hmac.compare_digest\<close> on texts: equality, a \<open>TypeError\<close> when one is not ASCII.\<close>

definition ascii :: "string \<Rightarrow> bool" where
  "ascii s = list_all (\<lambda>c. of_char c < (128 :: nat)) s"

definition compare_digest :: "string \<Rightarrow> string \<Rightarrow> error + bool" where
  "compare_digest a b =
     (if ascii a \<and> ascii b then Inr (a = b)
      else Inl (TypeError ''comparing strings with non-ASCII characters is not supported''))"

definition bearer :: "string \<Rightarrow> string" where
  "bearer token = ''Bearer '' @ token"

definition require_admin :: "settings \<Rightarrow> string option \<Rightarrow> error + unit" where
  "require_admin c authorization =
     (if \<not> truthy_text (admin_api_token c) then Inr ()
      else (case authorization of
          None \<Rightarrow> Inl (HTTPException 401 ''valid administrator bearer token required'')
        | Some given \<Rightarrow>
            (case compare_digest given (bearer (the (admin_api_token c))) of
               Inl e \<Rightarrow> Inl e
             | Inr same \<Rightarrow>
                 if same then Inr ()
                 else Inl (HTTPException 401 ''valid administrator bearer token required''))))"

fun match_role :: "(string \<times> string option) list \<Rightarrow> string option \<Rightarrow> error + string" where
  "match_role [] authorization = Inl (HTTPException 401 ''valid control-plane bearer token required'')"
| "match_role ((role, token) # candidates) authorization =
     (if truthy_text token \<and> truthy_text authorization
      then (case compare_digest (the authorization) (bearer (the token)) of
          Inl e \<Rightarrow> Inl e
        | Inr same \<Rightarrow> if same then Inr role else match_role candidates authorization)
      else match_role candidates authorization)"

definition require_viewer :: "settings \<Rightarrow> string option \<Rightarrow> error + string" where
  "require_viewer c authorization =
     (if \<not> truthy_text (admin_api_token c) \<and> \<not> truthy_text (viewer_api_token c) then Inr ''administrator''
      else match_role [(''administrator'', admin_api_token c), (''viewer'', viewer_api_token c)] authorization)"

section \<open>Incidents\<close>

definition required :: "'s runtime_store \<Rightarrow> string \<Rightarrow> ('s, workflow_state) act" where
  \<comment> \<open>\<open>_required\<close>\<close>
  "required S task =
     bindE (rs_get_workflow S task) (\<lambda>found.
       case found of None \<Rightarrow> raise (HTTPException 404 ''workflow not found'') | Some st \<Rightarrow> ret st)"

text \<open>\<open>suffix\<close> is \<open>uuid.uuid4().hex[:12]\<close>.\<close>

definition create_incident ::
  "'s runtime_store \<Rightarrow> settings \<Rightarrow> int \<Rightarrow> string \<Rightarrow> create_incident_request \<Rightarrow> ('s, workflow_state) act" where
  "create_incident S c now suffix request =
     (if \<not> valid_create_incident request then raise (HTTPException 422 ''request validation'')
      else
        let st = new_workflow (''incident-'' @ suffix) (ci_goal request) (ci_scenario_id request) now
        in bindE (rs_create_workflow S st (max_queue_attempts c)) (\<lambda>_. ret st))"

definition get_events :: "'s runtime_store \<Rightarrow> string \<Rightarrow> ('s, event_record list) act" where
  "get_events S task = bindE (required S task) (\<lambda>_. rs_list_events S task)"

definition list_incidents ::
  "'s runtime_store \<Rightarrow> int \<Rightarrow> workflow_status option \<Rightarrow> ('s, workflow_state list) act" where
  "list_incidents S limit wanted =
     (if 1 \<le> limit \<and> limit \<le> 500 then rs_list_workflows S limit wanted
      else raise (HTTPException 422 ''request validation''))"

definition dead_letters :: "'s runtime_store \<Rightarrow> int \<Rightarrow> ('s, dead_letter_record list) act" where
  "dead_letters S limit =
     (if 1 \<le> limit \<and> limit \<le> 100 then rs_list_dead_letters S limit
      else raise (HTTPException 422 ''request validation''))"

definition replay :: "'s runtime_store \<Rightarrow> settings \<Rightarrow> replay_request \<Rightarrow> ('s, workflow_state) act" where
  \<comment> \<open>the handler \<open>replay_dead_letter\<close>\<close>
  "replay S c request =
     (if \<not> valid_replay_request request then raise (HTTPException 422 ''request validation'')
      else bindE (rs_replay_dead_letter S (rp_delivery_id request) (rp_task_id request)
                   (max_queue_attempts c) (rp_actor request) (rp_reason request)) (\<lambda>replayed.
        case replayed of
          None \<Rightarrow> raise (HTTPException 404 ''dead-letter delivery not found'')
        | Some st \<Rightarrow> ret st))"

definition actor_payload :: "approval_request \<Rightarrow> dict" where
  "actor_payload request =
     [(''actor'', JStr (ap_actor request)), (''reason'', json_of_option (ap_reason request))]"

definition approve ::
  "'s runtime_store \<Rightarrow> settings \<Rightarrow> string \<Rightarrow> approval_request \<Rightarrow> ('s, workflow_state) act" where
  "approve S c task request =
     (if \<not> valid_approval_request request then raise (HTTPException 422 ''request validation'')
      else bindE (required S task) (\<lambda>st.
        case (status st = WAITING_FOR_APPROVAL, pending_action st) of
          (True, Some p) \<Rightarrow>
            bindE (rs_resolve_approval S task (action_id p) True (ap_actor request) (ap_reason request)) (\<lambda>_.
            bindE (rs_save_workflow S (st\<lparr>status := QUEUED\<rparr>) (version st)) (\<lambda>st.
            bindE (rs_record_event S task ''APPROVAL_GRANTED'' (actor_payload request)) (\<lambda>_.
            bindE (rs_enqueue S task (max_queue_attempts c) []) (\<lambda>_.
            ret st))))
        | _ \<Rightarrow> raise (HTTPException 409 ''workflow is not waiting for approval'')))"

definition rejection_text :: "string option \<Rightarrow> string" where
  "rejection_text r = (if truthy_text r then the r else ''human rejected the proposed action'')"

definition reject ::
  "'s runtime_store \<Rightarrow> string \<Rightarrow> approval_request \<Rightarrow> ('s, workflow_state) act" where
  "reject S task request =
     (if \<not> valid_approval_request request then raise (HTTPException 422 ''request validation'')
      else bindE (required S task) (\<lambda>st.
        case (status st = WAITING_FOR_APPROVAL, pending_action st) of
          (True, Some p) \<Rightarrow>
            bindE (rs_resolve_approval S task (action_id p) False (ap_actor request) (ap_reason request)) (\<lambda>_.
            bindE (rs_save_workflow S
                (st\<lparr>status := HUMAN_REJECTED, last_error := Some (rejection_text (ap_reason request)),
                   pending_action := None\<rparr>) (version st)) (\<lambda>st.
            bindE (rs_record_event S task ''APPROVAL_REJECTED'' (actor_payload request)) (\<lambda>_.
            ret st)))
        | _ \<Rightarrow> raise (HTTPException 409 ''workflow is not waiting for approval'')))"

section \<open>Dashboard summary\<close>

record summary =
  su_total_incidents :: int
  su_active_incidents :: int
  su_success_rate :: rat
  su_total_retries :: int
  su_model_tokens :: int
  su_tool_failures :: int
  su_loop_detections :: int
  su_average_latency_seconds :: rat
  su_p95_latency_seconds :: rat
  su_statuses :: "(workflow_status \<times> int) list"

definition count_where :: "('a \<Rightarrow> bool) \<Rightarrow> 'a list \<Rightarrow> int" where
  "count_where P xs = int (length (filter P xs))"

definition latency_seconds :: "workflow_state \<Rightarrow> rat" where
  "latency_seconds st = of_int (updated_at st - created_at st) / 1000000"

text \<open>\<open>round(x, digits)\<close>, on exact numbers.\<close>

definition round_digits :: "nat \<Rightarrow> rat \<Rightarrow> rat" where
  "round_digits k x =
     (let y = x * 10 ^ k; f = \<lfloor>y\<rfloor>; d = y - of_int f;
          r = (if d < 1 / 2 then f else if d > 1 / 2 then f + 1 else if even f then f else f + 1)
      in of_int r / 10 ^ k)"

definition p95_index :: "nat \<Rightarrow> int" where
  \<comment> \<open>\<open>max(0, int(n * 0.95) - 1)\<close>\<close>
  "p95_index n = max 0 (\<lfloor>of_nat n * (95 / 100 :: rat)\<rfloor> - 1)"

definition p95 :: "rat list \<Rightarrow> rat" where
  "p95 latencies = (if latencies = [] then 0 else latencies ! nat (p95_index (length latencies)))"

definition counts_as_tool_failure :: "event_record \<Rightarrow> bool" where
  "counts_as_tool_failure e =
     (ev_type e = ''TOOL_RETRYABLE_FAILURE'' \<or>
      ev_type e = ''WORKFLOW_FAILED'' \<and> map_of (ev_payload e) ''category'' = Some (JStr ''tool''))"

definition summarise :: "workflow_state list \<Rightarrow> event_record list \<Rightarrow> summary" where
  "summarise items evs =
     (let done = filter terminal items;
          completed = filter (\<lambda>st. status st = COMPLETED) done;
          latencies = sort (map latency_seconds done);
          status_counts = map (\<lambda>s. (s, count_where (\<lambda>st. status st = s) items)) workflow_statuses
      in \<lparr>su_total_incidents = int (length items),
          su_active_incidents = count_where (\<lambda>st. \<not> terminal st) items,
          su_success_rate = (if done = [] then 0
             else round_digits 4 (of_nat (length completed) / of_nat (length done))),
          su_total_retries = sum_list (map retries items),
          su_model_tokens = sum_list (map (\<lambda>st. input_tokens st + output_tokens st) items),
          su_tool_failures = count_where counts_as_tool_failure evs,
          su_loop_detections = count_where (\<lambda>st. status st = LOOP_STOPPED) items,
          su_average_latency_seconds = (if latencies = [] then 0
             else round_digits 3 (sum_list latencies / of_nat (length latencies))),
          su_p95_latency_seconds = p95 latencies,
          su_statuses = status_counts\<rparr>)"

fun events_of :: "'s runtime_store \<Rightarrow> string list \<Rightarrow> ('s, event_record list) act" where
  "events_of S [] = ret []"
| "events_of S (t # ts) =
     bindE (rs_list_events S t) (\<lambda>es. bindE (events_of S ts) (\<lambda>rest. ret (es @ rest)))"

definition dashboard_summary :: "'s runtime_store \<Rightarrow> ('s, summary \<times> (string \<times> int) list) act" where
  "dashboard_summary S =
     bindE (rs_list_workflows S 500 None) (\<lambda>items.
     bindE (events_of S (map task_id items)) (\<lambda>evs.
     bindE (rs_queue_counts S) (\<lambda>counts.
     ret (summarise items evs, counts))))"

section \<open>Event stream\<close>

datatype frame = Snapshot workflow_state "event_record list" | Keep_Alive

text \<open>
  The generator \<open>snapshots\<close>, over what its successive polls read until the client disconnects: a
  snapshot whenever the version or the number of events changed, an end at a terminal state.
\<close>

fun snapshots :: "(int \<times> int) option \<Rightarrow> (workflow_state \<times> event_record list) list \<Rightarrow> frame list" where
  "snapshots previous [] = []"
| "snapshots previous ((st, evs) # polls) =
     (let fingerprint = (version st, int (length evs));
          shown = (if Some fingerprint \<noteq> previous then [Snapshot st evs] else [])
      in if terminal st then shown
         else shown @ Keep_Alive # snapshots (Some fingerprint) polls)"

section \<open>Authorised handlers\<close>

text \<open>\<open>dependencies=[Depends(require_admin)]\<close> and its viewer counterpart: the check runs first.\<close>

definition as_admin :: "settings \<Rightarrow> string option \<Rightarrow> ('s, 'a) act \<Rightarrow> ('s, 'a) act" where
  "as_admin c authorization m = bindE (lift_sum (require_admin c authorization)) (\<lambda>_. m)"

definition as_viewer :: "settings \<Rightarrow> string option \<Rightarrow> ('s, 'a) act \<Rightarrow> ('s, 'a) act" where
  "as_viewer c authorization m = bindE (lift_sum (require_viewer c authorization)) (\<lambda>_. m)"

section \<open>Routes\<close>

datatype call =
    Get_Health
  | Post_Incident create_incident_request
  | Get_Incident string
  | Get_Events string
  | Get_Session
  | Get_Incidents int "workflow_status option"
  | Get_Summary
  | Get_Dead_Letters int
  | Post_Replay replay_request
  | Post_Approve string approval_request
  | Post_Reject string approval_request
  | Post_Run_Once

datatype reply =
    Health string "(string \<times> int) list"
  | Workflow workflow_state
  | Workflows "workflow_state list"
  | Event_List "event_record list"
  | Session string
  | Summary summary "(string \<times> int) list"
  | Dead_Letter_List "dead_letter_record list"
  | Processed bool

definition and_reply :: "('s, 'a) act \<Rightarrow> ('a \<Rightarrow> reply) \<Rightarrow> ('s, reply) act" where
  "and_reply m f = bindE m (\<lambda>x. ret (f x))"

text \<open>
  One request with its \<open>Authorization\<close> header, over the runtime \<open>R\<close> of the application's worker;
  \<open>suffix\<close> is the random part of a new identifier.
\<close>

fun handle ::
  "'s workflow_runtime \<Rightarrow> settings \<Rightarrow> string \<Rightarrow> string \<Rightarrow> string option \<Rightarrow> call \<Rightarrow> ('s, reply) act" where
  "handle R c worker suffix auth Get_Health =
     and_reply (rs_queue_counts (wf_store R)) (Health (agent_mode c))"
| "handle R c worker suffix auth (Post_Incident request) =
     as_admin c auth (and_reply (create_incident (wf_store R) c (wf_now R) suffix request) Workflow)"
| "handle R c worker suffix auth (Get_Incident task) =
     as_viewer c auth (and_reply (required (wf_store R) task) Workflow)"
| "handle R c worker suffix auth (Get_Events task) =
     as_viewer c auth (and_reply (get_events (wf_store R) task) Event_List)"
| "handle R c worker suffix auth Get_Session =
     and_reply (lift_sum (require_viewer c auth)) Session"
| "handle R c worker suffix auth (Get_Incidents limit wanted) =
     as_viewer c auth (and_reply (list_incidents (wf_store R) limit wanted) Workflows)"
| "handle R c worker suffix auth Get_Summary =
     as_viewer c auth (and_reply (dashboard_summary (wf_store R)) (\<lambda>(s, q). Summary s q))"
| "handle R c worker suffix auth (Get_Dead_Letters limit) =
     as_viewer c auth (and_reply (dead_letters (wf_store R) limit) Dead_Letter_List)"
| "handle R c worker suffix auth (Post_Replay request) =
     as_admin c auth (and_reply (replay (wf_store R) c request) Workflow)"
| "handle R c worker suffix auth (Post_Approve task request) =
     as_admin c auth (and_reply (approve (wf_store R) c task request) Workflow)"
| "handle R c worker suffix auth (Post_Reject task request) =
     as_admin c auth (and_reply (reject (wf_store R) task request) Workflow)"
| "handle R c worker suffix auth Post_Run_Once =
     as_admin c auth (and_reply (run_once R c worker) Processed)"

fun changes_state :: "call \<Rightarrow> bool" where
  \<comment> \<open>the requests sent with POST\<close>
  "changes_state (Post_Incident r) = True"
| "changes_state (Post_Replay r) = True"
| "changes_state (Post_Approve t r) = True"
| "changes_state (Post_Reject t r) = True"
| "changes_state Post_Run_Once = True"
| "changes_state call = False"

end
