(* ===== verification/Runtime_Laws.thy ===== *)
theory Runtime_Laws
  imports Api
begin

text \<open>
  What one store operation guarantees, every delivery and every request guarantees: the locales
  \<open>store_guarantee\<close> and \<open>runtime_guarantee\<close> lift a relation on states from the operations of the
  store, the gateway and the awaits to \<open>process\<close>, \<open>run_once\<close>, the heartbeat and every route.
\<close>

locale store_guarantee = guarantee G for G :: "'s \<Rightarrow> 's \<Rightarrow> bool" +
  fixes S :: "'s runtime_store"
  assumes create: "relates G (rs_create_workflow S st m)"
    and get: "relates G (rs_get_workflow S t)"
    and list: "relates G (rs_list_workflows S l x)"
    and save: "relates G (rs_save_workflow S st v)"
    and enqueue: "relates G (rs_enqueue S t m p)"
    and claim: "relates G (rs_claim S wk ls)"
    and extend: "relates G (rs_extend_lease S d ls)"
    and acknowledge: "relates G (rs_acknowledge S did)"
    and retry: "relates G (rs_retry_or_dead_letter S d e b)"
    and event: "relates G (rs_record_event S t ty p)"
    and list_events: "relates G (rs_list_events S t)"
    and create_approval: "relates G (rs_create_approval S t a)"
    and resolve: "relates G (rs_resolve_approval S t a yes who why)"
    and approval: "relates G (rs_approval_status S t a)"
    and counts: "relates G (rs_queue_counts S)"
    and dead_letters: "relates G (rs_list_dead_letters S l)"
    and replay: "relates G (rs_replay_dead_letter S did t m who note)"
begin

lemmas store_rules = create get list save enqueue claim extend acknowledge retry event list_events
  create_approval resolve approval counts dead_letters replay

lemma relates_create_incident: "relates G (create_incident S c now suffix request)"
  unfolding create_incident_def Let_def by (intro relates_rules store_rules)

lemma relates_required: "relates G (required S t)"
  unfolding required_def by (intro relates_rules store_rules)

lemma relates_approve: "relates G (approve S c t request)"
  unfolding approve_def by (auto intro!: relates_rules store_rules relates_required split: bool.split option.split)

lemma relates_reject: "relates G (reject S t request)"
  unfolding reject_def by (auto intro!: relates_rules store_rules relates_required split: bool.split option.split)

lemma relates_api_replay: "relates G (Api.replay S c request)"
  unfolding replay_def by (intro relates_rules store_rules)

lemma relates_events_of: "relates G (events_of S ts)"
  by (induction ts) (auto intro!: relates_rules store_rules)

lemma relates_queries:
  "relates G (get_events S t)" "relates G (list_incidents S l x)" "relates G (Api.dead_letters S l)"
  "relates G (dashboard_summary S)"
  unfolding get_events_def list_incidents_def dead_letters_def dashboard_summary_def
  by (intro relates_rules store_rules relates_required relates_events_of)+

lemma relates_and_reply: "relates G m \<Longrightarrow> relates G (and_reply m f)"
  unfolding and_reply_def by (intro relates_rules)

lemma relates_authorised:
  "relates G m \<Longrightarrow> relates G (as_admin c auth m)" "relates G m \<Longrightarrow> relates G (as_viewer c auth m)"
  unfolding as_admin_def as_viewer_def by (intro relates_rules; assumption)+

end

locale runtime_guarantee = store_guarantee G "wf_store R" for G :: "'s \<Rightarrow> 's \<Rightarrow> bool" and R :: "'s workflow_runtime" +
  assumes gateway: "relates G (gateway_execute (wf_platform R) (wf_store R) (wf_backend R) st tool args)"
    and engine: "relates G (en_decide (wf_engine R) st)"
    and usage: "relates G (en_take_usage (wf_engine R))"
    and sleep: "relates G (wf_sleep R x)"
begin

lemma relates_save: "relates G (Runtime.save R st)"
  unfolding save_def by (rule store_rules)

lemma relates_event: "relates G (Runtime.event R t ty p)"
  unfolding event_def by (rule store_rules)

lemma relates_fail: "relates G (fail_workflow R st why category)"
  unfolding fail_workflow_def by (intro relates_rules relates_save relates_event)

lemma relates_execute_tool: "relates G (execute_tool R st tool args)"
  unfolding execute_tool_def
  by (intro relates_rules gateway relates_save relates_event relates_fail)

lemma relates_resume: "relates G (resume_approved_action R st p)"
  unfolding resume_approved_action_def
  by (intro relates_rules store_rules relates_event relates_execute_tool)

lemma relates_act_on_tool: "relates G (act_on_tool R st d tool)"
  unfolding act_on_tool_def stop_loop_def follow_policy_def request_approval_def chaos_pause_def Let_def
  by (intro relates_rules store_rules relates_save relates_event relates_fail relates_execute_tool sleep)

lemma relates_act_on_decision: "relates G (act_on_decision R st d)"
  unfolding act_on_decision_def complete_workflow_def
  by (cases "d_action d")
     (auto intro!: relates_rules relates_save relates_event relates_fail relates_act_on_tool)

lemma relates_decide: "relates G (decide R st)"
  unfolding decide_def by (intro relates_rules engine relates_save relates_event)

lemma relates_process: "relates G (process R t)"
  unfolding process_def required_state_def start_decision_def
  by (intro relates_rules store_rules relates_resume relates_save relates_event relates_decide usage
      relates_act_on_decision)

lemma relates_deliver: "relates G (deliver R c d)"
  unfolding deliver_def acknowledge_and_requeue_def on_retryable_def on_permanent_def
  by (intro relates_rules store_rules relates_process relates_save relates_event)

lemma relates_await_heartbeat: "relates G m \<Longrightarrow> relates G (await_heartbeat failed m)"
  unfolding await_heartbeat_def by (intro relates_rules)

lemma relates_run_once: "relates G (run_once R c wk)"
  unfolding run_once_def by (intro relates_rules store_rules relates_await_heartbeat relates_deliver)

lemma relates_heartbeat: "relates G (heartbeat R c wk d)"
  unfolding heartbeat_def by (intro relates_rules store_rules relates_event)

lemma relates_handle: "relates G (handle R c wk suffix auth call)"
  by (cases call)
     (simp_all add: relates_authorised relates_and_reply relates_create_incident relates_required
        relates_approve relates_reject relates_api_replay relates_queries relates_run_once counts relates_lift_sum)

end

lemma relates_serve:
  assumes "\<And>i. runtime_guarantee G (R i)"
  shows "relates G (serve R c wk n)"
proof -
  have G: "guarantee G"
    by (rule store_guarantee.axioms(1) [OF runtime_guarantee.axioms(1) [OF assms [of undefined]]])
  show ?thesis
    using assms
  proof (induction n arbitrary: R)
    case 0
    then show ?case by (simp add: guarantee.relates_ret [OF G])
  next
    case (Suc n)
    then show ?case by (simp add: guarantee.relates_bindE [OF G] runtime_guarantee.relates_run_once)
  qed
qed

end
