(* ===== verification/Sql_Store.thy ===== *)
theory Sql_Store
  imports Contracts
begin

text \<open>
  \<open>agent_resilience/store.py\<close>: the SQLite store. The state is the record \<open>world\<close>: one list of rows per
  table, in primary-key order, the two AUTOINCREMENT counters, and the log of the invocations that
  external systems received (no table; the tool backends append to it). A checkpoint row holds the
  workflow itself where the table holds its JSON. A statement that fails inside a transaction rolls
  the transaction back; every operation is one transaction or one statement, so it is atomic here.
  Each operation takes the time \<open>now\<close> that \<open>utc_now()\<close> gives it.
\<close>

section \<open>Tables\<close>

record workflow_row =
  wr_task_id :: string
  wr_state :: workflow_state
  wr_version :: int
  wr_updated_at :: int

datatype queue_status = Q_PENDING | Q_PROCESSING | Q_COMPLETED | Q_DEAD

record queue_row =
  q_id :: int
  q_task_id :: string
  q_status :: queue_status
  q_attempts :: int
  q_max_attempts :: int
  q_available_at :: int
  q_lease_until :: "int option"
  q_worker_id :: "string option"
  q_payload :: dict
  q_last_error :: "string option"
  q_created_at :: int
  q_updated_at :: int

record tool_result_row =
  tr_key :: string
  tr_task_id :: string
  tr_tool_name :: string
  tr_arguments_hash :: string
  tr_result :: dict
  tr_created_at :: int

datatype approval_state = A_PENDING | A_APPROVED | A_REJECTED

fun approval_value :: "approval_state \<Rightarrow> string" where
  "approval_value A_PENDING = ''PENDING''"
| "approval_value A_APPROVED = ''APPROVED''"
| "approval_value A_REJECTED = ''REJECTED''"

record approval_row =
  ar_task_id :: string
  ar_action_id :: string
  ar_status :: approval_state
  ar_actor :: "string option"
  ar_reason :: "string option"
  ar_created_at :: int
  ar_resolved_at :: "int option"

record invocation =
  iv_task_id :: string
  iv_tool :: tool_name
  iv_arguments :: dict

record world =
  workflows :: "workflow_row list"
  queue :: "queue_row list"
  next_queue_id :: int
  events :: "event_record list"
  next_event_id :: int
  tool_results :: "tool_result_row list"
  approvals :: "approval_row list"
  invocations :: "invocation list"

definition empty_world :: world where
  \<comment> \<open>\<open>initialize\<close> on a new database\<close>
  "empty_world = \<lparr>workflows = [], queue = [], next_queue_id = 1, events = [], next_event_id = 1,
     tool_results = [], approvals = [], invocations = []\<rparr>"

text \<open>\<open>UPDATE \<dots> WHERE P\<close> and its row count.\<close>

definition update_where :: "('r \<Rightarrow> bool) \<Rightarrow> ('r \<Rightarrow> 'r) \<Rightarrow> 'r list \<Rightarrow> 'r list" where
  "update_where P f = map (\<lambda>r. if P r then f r else r)"

definition row_count :: "('r \<Rightarrow> bool) \<Rightarrow> 'r list \<Rightarrow> nat" where
  "row_count P rows = length (filter P rows)"

text \<open>
  \<open>WHERE id = ?\<close>: the column is an integer, so SQLite reads a text operand as a number when it is one.
\<close>

fun id_matches :: "platform \<Rightarrow> delivery_id \<Rightarrow> int \<Rightarrow> bool" where
  "id_matches pf (IdInt i) j = (i = j)"
| "id_matches pf (IdStr s) j = (sql_numeric pf s = Some j)"

text \<open>Microseconds in a second; \<open>timedelta(seconds=x)\<close> rounds to them, halves to the even one.\<close>

definition second :: int where
  "second = 1000000"

definition round_half_even :: "rat \<Rightarrow> int" where
  "round_half_even x =
     (let f = \<lfloor>x\<rfloor>; d = x - of_int f
      in if d < 1 / 2 then f else if d > 1 / 2 then f + 1 else if even f then f else f + 1)"

definition timedelta_seconds :: "rat \<Rightarrow> int" where
  "timedelta_seconds x = round_half_even (x * of_int second)"

section \<open>Workflows\<close>

definition record_event_row :: "int \<Rightarrow> string \<Rightarrow> string \<Rightarrow> dict \<Rightarrow> world \<Rightarrow> world" where
  \<comment> \<open>\<open>_record_event\<close>\<close>
  "record_event_row now task type payload w =
     w\<lparr>events := events w @ [\<lparr>ev_id = IdInt (next_event_id w), ev_task_id = task, ev_type = type,
         ev_payload = payload, ev_created_at = now\<rparr>],
       next_event_id := next_event_id w + 1\<rparr>"

definition new_queue_row :: "int \<Rightarrow> int \<Rightarrow> string \<Rightarrow> int \<Rightarrow> dict \<Rightarrow> queue_row" where
  "new_queue_row now i task max_attempts payload =
     \<lparr>q_id = i, q_task_id = task, q_status = Q_PENDING, q_attempts = 0,
      q_max_attempts = max_attempts, q_available_at = now, q_lease_until = None,
      q_worker_id = None, q_payload = payload, q_last_error = None, q_created_at = now,
      q_updated_at = now\<rparr>"

definition insert_queue_row :: "int \<Rightarrow> string \<Rightarrow> int \<Rightarrow> dict \<Rightarrow> world \<Rightarrow> world" where
  "insert_queue_row now task max_attempts payload w =
     w\<lparr>queue := queue w @ [new_queue_row now (next_queue_id w) task max_attempts payload],
       next_queue_id := next_queue_id w + 1\<rparr>"

definition find_workflow :: "string \<Rightarrow> world \<Rightarrow> workflow_row option" where
  "find_workflow task w = find (\<lambda>r. wr_task_id r = task) (workflows w)"

definition create_workflow :: "int \<Rightarrow> workflow_state \<Rightarrow> int \<Rightarrow> (world, workflow_state) act" where
  "create_workflow now st max_attempts w =
     (if find_workflow (task_id st) w \<noteq> None
      then (Inl (IntegrityError ''UNIQUE constraint failed: workflows.task_id''), w)
      else
        let w1 = w\<lparr>workflows := workflows w @ [\<lparr>wr_task_id = task_id st, wr_state = st,
                    wr_version = version st, wr_updated_at = now\<rparr>]\<rparr>;
            w2 = insert_queue_row now (task_id st) max_attempts [] w1;
            w3 = record_event_row now (task_id st) ''WORKFLOW_CREATED'' [(''goal'', JStr (goal st))] w2
        in (Inr st, w3))"

definition get_workflow :: "string \<Rightarrow> (world, workflow_state option) act" where
  "get_workflow task w = (Inr (map_option wr_state (find_workflow task w)), w)"

definition list_workflows ::
  "int \<Rightarrow> workflow_status option \<Rightarrow> (world, workflow_state list) act" where
  "list_workflows limit wanted w =
     (let requested = max 1 (min limit 500);
          rows = take (nat (if wanted \<noteq> None then 500 else requested))
                   (sort_key (\<lambda>r. - wr_updated_at r) (workflows w));
          states = map wr_state rows
      in (Inr (slice_to requested
                 (filter (\<lambda>st. wanted = None \<or> wanted = Some (status st)) states)), w))"

definition save_workflow :: "int \<Rightarrow> workflow_state \<Rightarrow> int \<Rightarrow> (world, workflow_state) act" where
  "save_workflow now st expected w =
     (let st' = st\<lparr>version := expected + 1, updated_at := now\<rparr>;
          matches = (\<lambda>r. wr_task_id r = task_id st \<and> wr_version r = expected);
          change = (\<lambda>r. r\<lparr>wr_state := st', wr_version := expected + 1, wr_updated_at := now\<rparr>)
      in if row_count matches (workflows w) \<noteq> 1
         then (Inl (ConcurrentUpdateError (''stale checkpoint for '' @ task_id st)), w)
         else (Inr st', w\<lparr>workflows := update_where matches change (workflows w)\<rparr>))"

section \<open>Queue\<close>

definition active_status :: "queue_status \<Rightarrow> bool" where
  "active_status s = (s = Q_PENDING \<or> s = Q_PROCESSING)"

definition active_row :: "string \<Rightarrow> queue_row \<Rightarrow> bool" where
  "active_row task r = (q_task_id r = task \<and> active_status (q_status r))"

definition enqueue :: "int \<Rightarrow> string \<Rightarrow> int \<Rightarrow> dict \<Rightarrow> (world, delivery_id) act" where
  "enqueue now task max_attempts payload w =
     (case find (active_row task) (queue w) of
        Some r \<Rightarrow> (Inr (IdInt (q_id r)), w)
      | None \<Rightarrow>
          if find_workflow task w = None
          then (Inl (IntegrityError ''FOREIGN KEY constraint failed''), w)
          else (Inr (IdInt (next_queue_id w)), insert_queue_row now task max_attempts payload w))"

definition lease_expired :: "int \<Rightarrow> queue_row \<Rightarrow> bool" where
  "lease_expired now r =
     (q_status r = Q_PROCESSING \<and> (case q_lease_until r of None \<Rightarrow> False | Some t \<Rightarrow> t < now))"

definition release_expired :: "int \<Rightarrow> queue_row list \<Rightarrow> queue_row list" where
  "release_expired now = update_where (lease_expired now)
     (\<lambda>r. r\<lparr>q_status := Q_PENDING, q_worker_id := None, q_lease_until := None, q_updated_at := now\<rparr>)"

definition claimable :: "int \<Rightarrow> queue_row \<Rightarrow> bool" where
  "claimable now r = (q_status r = Q_PENDING \<and> q_available_at r \<le> now)"

definition lease_row :: "int \<Rightarrow> string \<Rightarrow> int \<Rightarrow> queue_row \<Rightarrow> queue_row" where
  "lease_row now worker lease_seconds r =
     r\<lparr>q_status := Q_PROCESSING, q_attempts := q_attempts r + 1, q_worker_id := Some worker,
       q_lease_until := Some (now + lease_seconds * second), q_updated_at := now\<rparr>"

definition delivery_of_row :: "queue_row \<Rightarrow> queue_delivery" where
  "delivery_of_row r =
     \<lparr>dl_id = IdInt (q_id r), dl_task_id = q_task_id r, dl_attempts = q_attempts r + 1,
      dl_max_attempts = q_max_attempts r, dl_payload = q_payload r, dl_receipt_handle = None\<rparr>"

definition claim :: "int \<Rightarrow> string \<Rightarrow> int \<Rightarrow> (world, queue_delivery option) act" where
  "claim now worker lease_seconds w =
     (let rows = release_expired now (queue w)
      in case find (claimable now) rows of
           None \<Rightarrow> (Inr None, w\<lparr>queue := rows\<rparr>)
         | Some r \<Rightarrow>
             (Inr (Some (delivery_of_row r)),
              w\<lparr>queue := update_where (\<lambda>x. q_id x = q_id r \<and> q_status x = Q_PENDING)
                  (lease_row now worker lease_seconds) rows\<rparr>))"

definition acknowledge :: "platform \<Rightarrow> int \<Rightarrow> delivery_id \<Rightarrow> (world, unit) act" where
  "acknowledge pf now did w =
     (Inr (), w\<lparr>queue := update_where (\<lambda>r. id_matches pf did (q_id r))
        (\<lambda>r. r\<lparr>q_status := Q_COMPLETED, q_lease_until := None, q_updated_at := now\<rparr>) (queue w)\<rparr>)"

definition extend_lease :: "platform \<Rightarrow> int \<Rightarrow> queue_delivery \<Rightarrow> int \<Rightarrow> (world, unit) act" where
  "extend_lease pf now d lease_seconds w =
     (Inr (), w\<lparr>queue := update_where (\<lambda>r. id_matches pf (dl_id d) (q_id r) \<and> q_status r = Q_PROCESSING)
        (\<lambda>r. r\<lparr>q_lease_until := Some (now + lease_seconds * second), q_updated_at := now\<rparr>) (queue w)\<rparr>)"

definition exhausted :: "queue_delivery \<Rightarrow> bool" where
  "exhausted d = (dl_attempts d \<ge> dl_max_attempts d)"

definition retry_delay :: "queue_delivery \<Rightarrow> rat \<Rightarrow> rat" where
  "retry_delay d base = min 60 (base * 2 ^ nat (max 0 (dl_attempts d - 1)))"

definition retry_or_dead_letter ::
  "platform \<Rightarrow> int \<Rightarrow> queue_delivery \<Rightarrow> string \<Rightarrow> rat \<Rightarrow> (world, bool) act" where
  "retry_or_dead_letter pf now d err base w =
     (let dead = exhausted d;
          available = (if dead then now else now + timedelta_seconds (retry_delay d base))
      in (Inr dead, w\<lparr>queue := update_where (\<lambda>r. id_matches pf (dl_id d) (q_id r))
           (\<lambda>r. r\<lparr>q_status := (if dead then Q_DEAD else Q_PENDING), q_available_at := available,
                 q_lease_until := None, q_worker_id := None, q_last_error := Some (slice_to 2000 err),
                 q_updated_at := now\<rparr>) (queue w)\<rparr>))"

section \<open>Events, tool results, approvals\<close>

definition record_event :: "int \<Rightarrow> string \<Rightarrow> string \<Rightarrow> dict \<Rightarrow> (world, unit) act" where
  "record_event now task type payload w = (Inr (), record_event_row now task type payload w)"

definition list_events :: "string \<Rightarrow> (world, event_record list) act" where
  "list_events task w = (Inr (filter (\<lambda>e. ev_task_id e = task) (events w)), w)"

definition arguments_hash :: "platform \<Rightarrow> dict \<Rightarrow> string" where
  "arguments_hash pf arguments = sha256_hex pf (canonical pf arguments)"

definition find_result :: "string \<Rightarrow> world \<Rightarrow> tool_result_row option" where
  "find_result key w = find (\<lambda>r. tr_key r = key) (tool_results w)"

definition get_tool_result :: "platform \<Rightarrow> string \<Rightarrow> dict \<Rightarrow> (world, dict option) act" where
  "get_tool_result pf key arguments w =
     (case find_result key w of
        None \<Rightarrow> (Inr None, w)
      | Some r \<Rightarrow>
          if tr_arguments_hash r \<noteq> arguments_hash pf arguments
          then (Inl (ValueError ''idempotency key reused with different arguments''), w)
          else (Inr (Some (tr_result r)), w))"

definition save_tool_result ::
  "platform \<Rightarrow> int \<Rightarrow> string \<Rightarrow> string \<Rightarrow> string \<Rightarrow> dict \<Rightarrow> dict \<Rightarrow> (world, unit) act" where
  "save_tool_result pf now key task tool arguments result w =
     (Inr (), if find_result key w \<noteq> None then w
       else w\<lparr>tool_results := tool_results w @ [\<lparr>tr_key = key, tr_task_id = task, tr_tool_name = tool,
              tr_arguments_hash = arguments_hash pf arguments, tr_result = result, tr_created_at = now\<rparr>]\<rparr>)"

definition approval_at :: "string \<Rightarrow> string \<Rightarrow> approval_row \<Rightarrow> bool" where
  "approval_at task action r = (ar_task_id r = task \<and> ar_action_id r = action)"

definition find_approval :: "string \<Rightarrow> string \<Rightarrow> world \<Rightarrow> approval_row option" where
  "find_approval task action w = find (approval_at task action) (approvals w)"

definition create_approval :: "int \<Rightarrow> string \<Rightarrow> string \<Rightarrow> (world, unit) act" where
  "create_approval now task action w =
     (Inr (), if find_approval task action w \<noteq> None then w
       else w\<lparr>approvals := approvals w @ [\<lparr>ar_task_id = task, ar_action_id = action,
              ar_status = A_PENDING, ar_actor = None, ar_reason = None, ar_created_at = now,
              ar_resolved_at = None\<rparr>]\<rparr>)"

definition resolve_approval ::
  "int \<Rightarrow> string \<Rightarrow> string \<Rightarrow> bool \<Rightarrow> string \<Rightarrow> string option \<Rightarrow> (world, unit) act" where
  "resolve_approval now task action approved actor why w =
     (let matches = (\<lambda>r. approval_at task action r \<and> ar_status r = A_PENDING)
      in if row_count matches (approvals w) \<noteq> 1 then (Inl (ValueError ''approval is not pending''), w)
         else (Inr (), w\<lparr>approvals := update_where matches
                (\<lambda>r. r\<lparr>ar_status := (if approved then A_APPROVED else A_REJECTED),
                      ar_actor := Some actor, ar_reason := why, ar_resolved_at := Some now\<rparr>)
                (approvals w)\<rparr>))"

definition approval_status :: "string \<Rightarrow> string \<Rightarrow> (world, string option) act" where
  "approval_status task action w =
     (Inr (map_option (\<lambda>r. approval_value (ar_status r)) (find_approval task action w)), w)"

section \<open>Queue statistics and dead letters\<close>

definition queue_counts :: "(world, (string \<times> int) list) act" where
  "queue_counts w =
     (Inr (filter (\<lambda>kv. 0 < snd kv)
        (map (\<lambda>kv. (fst kv, int (row_count (\<lambda>r. q_status r = snd kv) (queue w))))
           [(''COMPLETED'', Q_COMPLETED), (''DEAD'', Q_DEAD), (''PENDING'', Q_PENDING),
            (''PROCESSING'', Q_PROCESSING)])), w)"

definition dead_letter_of_row :: "queue_row \<Rightarrow> dead_letter_record" where
  "dead_letter_of_row r =
     \<lparr>dr_id = IdInt (q_id r), dr_task_id = q_task_id r, dr_attempts = q_attempts r,
      dr_max_attempts = q_max_attempts r, dr_last_error = q_last_error r, dr_payload = q_payload r,
      dr_updated_at = q_updated_at r\<rparr>"

definition list_dead_letters :: "int \<Rightarrow> (world, dead_letter_record list) act" where
  "list_dead_letters limit w =
     (Inr (map dead_letter_of_row
        (take (nat (max 1 (min limit 100)))
          (sort_key (\<lambda>r. - q_updated_at r) (filter (\<lambda>r. q_status r = Q_DEAD) (queue w))))), w)"

definition replay_dead_letter ::
  "platform \<Rightarrow> int \<Rightarrow> delivery_id \<Rightarrow> string \<Rightarrow> int \<Rightarrow> string \<Rightarrow> string \<Rightarrow>
    (world, workflow_state option) act" where
  "replay_dead_letter pf now did task max_attempts actor why w =
     (case find (\<lambda>r. id_matches pf did (q_id r) \<and> q_task_id r = task \<and> q_status r = Q_DEAD) (queue w) of
        None \<Rightarrow> (Inr None, w)
      | Some row \<Rightarrow>
          (case find_workflow (q_task_id row) w of
             None \<Rightarrow> (Inr None, w)
           | Some wrow \<Rightarrow>
               let expected = wr_version wrow;
                   st = (wr_state wrow)\<lparr>status := QUEUED, last_error := None, version := expected + 1,
                          updated_at := now\<rparr>;
                   w1 = w\<lparr>workflows := update_where
                          (\<lambda>r. wr_task_id r = task_id st \<and> wr_version r = expected)
                          (\<lambda>r. r\<lparr>wr_state := st, wr_version := version st, wr_updated_at := now\<rparr>)
                          (workflows w)\<rparr>;
                   w2 = w1\<lparr>queue := update_where
                          (\<lambda>r. id_matches pf did (q_id r) \<and> q_status r = Q_DEAD)
                          (\<lambda>r. r\<lparr>q_status := Q_PENDING, q_attempts := 0, q_max_attempts := max_attempts,
                                q_available_at := now, q_lease_until := None, q_worker_id := None,
                                q_last_error := None, q_updated_at := now\<rparr>)
                          (queue w1)\<rparr>;
                   w3 = record_event_row now (task_id st) ''DLQ_REPLAYED''
                          [(''delivery_id'', json_of_id did), (''actor'', JStr actor),
                           (''reason'', JStr why)] w2
               in (Inr (Some st), w3)))"

text \<open>The store as the object that the runtime, the gateway, the worker and the API hold.\<close>

definition sqlite_store :: "platform \<Rightarrow> int \<Rightarrow> world runtime_store" where
  "sqlite_store pf now =
     \<lparr>rs_create_workflow = create_workflow now,
      rs_get_workflow = get_workflow,
      rs_list_workflows = list_workflows,
      rs_save_workflow = save_workflow now,
      rs_enqueue = enqueue now,
      rs_claim = claim now,
      rs_extend_lease = extend_lease pf now,
      rs_acknowledge = acknowledge pf now,
      rs_retry_or_dead_letter = retry_or_dead_letter pf now,
      rs_record_event = record_event now,
      rs_list_events = list_events,
      rs_arguments_hash = arguments_hash pf,
      rs_get_tool_result = get_tool_result pf,
      rs_save_tool_result = save_tool_result pf now,
      rs_create_approval = create_approval now,
      rs_resolve_approval = resolve_approval now,
      rs_approval_status = approval_status,
      rs_queue_counts = queue_counts,
      rs_list_dead_letters = list_dead_letters,
      rs_replay_dead_letter = replay_dead_letter pf now\<rparr>"

end
