(* ===== verification/Sql_Laws.thy ===== *)
theory Sql_Laws
  imports Sql_Store
begin

text \<open>
  What the SQLite store keeps and promises: the table invariant \<open>world_ok\<close>, kept by every operation;
  and the interpretations of the three contracts of \<open>Contracts\<close>. Leases, retries and the dead-letter queue are
  in \<open>Sql_Queue\<close>, the monotone evolution of the durable records in \<open>Sql_Evolution\<close>.
\<close>

section \<open>Updates\<close>

lemma update_where_Nil [simp]: "update_where P f [] = []"
  by (simp add: update_where_def)

lemma update_where_Cons [simp]:
  "update_where P f (r # rows) = (if P r then f r else r) # update_where P f rows"
  by (simp add: update_where_def)

lemma map_update_where: "(\<And>r. P r \<Longrightarrow> g (f r) = g r) \<Longrightarrow> map g (update_where P f rows) = map g rows"
  by (simp add: update_where_def)

lemma set_update_where: "r \<in> set (update_where P f rows) \<longleftrightarrow>
    (\<exists>r' \<in> set rows. r = (if P r' then f r' else r'))"
  by (auto simp: update_where_def)

lemma ball_update_where: "(\<forall>r \<in> set (update_where P f rows). Q r) \<longleftrightarrow>
    (\<forall>r \<in> set rows. Q (if P r then f r else r))"
  by (auto simp: update_where_def)

lemma length_update_where [simp]: "length (update_where P f rows) = length rows"
  by (simp add: update_where_def)

lemma find_update_where_other:
  "(\<And>r. P r \<Longrightarrow> \<not> Q r \<and> \<not> Q (f r)) \<Longrightarrow> find Q (update_where P f rows) = find Q rows"
  by (induction rows) auto

lemma find_update_where_same:
  "(\<And>r. P r \<Longrightarrow> Q (f r) = Q r) \<Longrightarrow>
    find Q (update_where P f rows) = map_option (\<lambda>r. if P r then f r else r) (find Q rows)"
  by (induction rows) auto

lemma row_count_0: "row_count P rows = 0 \<longleftrightarrow> (\<forall>r \<in> set rows. \<not> P r)"
  by (auto simp: row_count_def filter_empty_conv)

lemma row_count_key:
  assumes "distinct (map key rows)" and "\<And>r. P r \<Longrightarrow> key r = k"
  shows "row_count P rows = (if \<exists>r \<in> set rows. P r then 1 else 0)"
  using assms
proof (induction rows)
  case Nil
  then show ?case by (simp add: row_count_def)
next
  case (Cons r rows)
  then have IH: "row_count P rows = (if \<exists>r \<in> set rows. P r then 1 else 0)" by simp
  show ?case
  proof (cases "P r")
    case True
    then have "\<forall>r' \<in> set rows. \<not> P r'" using Cons.prems by fastforce
    then have "row_count P rows = 0" by (simp add: row_count_0)
    with True show ?thesis by (simp add: row_count_def)
  next
    case False
    with IH show ?thesis by (simp add: row_count_def)
  qed
qed

section \<open>The table invariant\<close>

definition workflows_ok :: "workflow_row list \<Rightarrow> bool" where
  "workflows_ok rows \<longleftrightarrow>
     distinct (map wr_task_id rows) \<and>
     (\<forall>r \<in> set rows. task_id (wr_state r) = wr_task_id r \<and> version (wr_state r) = wr_version r)"

definition queue_ok :: "queue_row list \<Rightarrow> int \<Rightarrow> bool" where
  "queue_ok rows n \<longleftrightarrow> sorted_wrt (<) (map q_id rows) \<and> (\<forall>r \<in> set rows. q_id r < n)"

fun row_id :: "delivery_id \<Rightarrow> int" where
  "row_id (IdInt i) = i"
| "row_id (IdStr s) = 0"

definition world_ok :: "world \<Rightarrow> bool" where
  "world_ok w \<longleftrightarrow>
     workflows_ok (workflows w) \<and>
     queue_ok (queue w) (next_queue_id w) \<and>
     (\<forall>r \<in> set (queue w). find_workflow (q_task_id r) w \<noteq> None) \<and>
     distinct (map tr_key (tool_results w)) \<and>
     distinct (map (\<lambda>r. (ar_task_id r, ar_action_id r)) (approvals w)) \<and>
     sorted_wrt (<) (map (row_id \<circ> ev_id) (events w)) \<and> (\<forall>e \<in> set (events w). row_id (ev_id e) < next_event_id w)"

lemma world_ok_empty: "world_ok empty_world"
  by (simp add: world_ok_def empty_world_def workflows_ok_def queue_ok_def)

lemma find_workflow_SomeD:
  "find_workflow t w = Some r \<Longrightarrow> r \<in> set (workflows w) \<and> wr_task_id r = t"
  unfolding find_workflow_def by (rule find_SomeD)

lemma world_ok_row:
  "world_ok w \<Longrightarrow> find_workflow t w = Some r \<Longrightarrow>
    wr_task_id r = t \<and> task_id (wr_state r) = t \<and> version (wr_state r) = wr_version r"
  by (auto dest!: find_workflow_SomeD simp: world_ok_def workflows_ok_def)

lemma world_ok_distinct: "world_ok w \<Longrightarrow> distinct (map wr_task_id (workflows w))"
  by (simp add: world_ok_def workflows_ok_def)

lemma find_workflow_iff:
  assumes "world_ok w"
  shows "find_workflow t w = Some r \<longleftrightarrow> r \<in> set (workflows w) \<and> wr_task_id r = t"
proof
  assume "r \<in> set (workflows w) \<and> wr_task_id r = t"
  then show "find_workflow t w = Some r"
    using find_unique [OF world_ok_distinct [OF assms], of r] by (auto simp: find_workflow_def)
qed (rule find_workflow_SomeD)

lemma find_workflow_unique:
  assumes "world_ok w" and "find_workflow t w = Some r" and "x \<in> set (workflows w)" and "wr_task_id x = t"
  shows "x = r"
  using find_workflow_iff [OF assms(1), of t x] assms(2-4) by simp

text \<open>The abstract view of the tables that the contracts speak about.\<close>

definition checkpoint :: "world \<Rightarrow> string \<Rightarrow> workflow_state option" where
  "checkpoint w t = map_option wr_state (find_workflow t w)"

definition ledger :: "world \<Rightarrow> string \<Rightarrow> (string \<times> dict) option" where
  "ledger w k = map_option (\<lambda>r. (tr_arguments_hash r, tr_result r)) (find_result k w)"

definition approval_of :: "world \<Rightarrow> string \<Rightarrow> string \<Rightarrow> string option" where
  "approval_of w t a = map_option (\<lambda>r. approval_value (ar_status r)) (find_approval t a w)"

lemma get_workflow_checkpoint: "get_workflow t w = (Inr (checkpoint w t), w)"
  by (simp add: get_workflow_def checkpoint_def)

subsection \<open>Saving\<close>

lemma save_workflow_row_count:
  assumes "world_ok w"
  shows "row_count (\<lambda>r. wr_task_id r = t \<and> wr_version r = v) (workflows w) =
    (case find_workflow t w of None \<Rightarrow> 0 | Some r \<Rightarrow> if wr_version r = v then 1 else 0)"
proof -
  have "row_count (\<lambda>r. wr_task_id r = t \<and> wr_version r = v) (workflows w) =
      (if \<exists>r \<in> set (workflows w). wr_task_id r = t \<and> wr_version r = v then 1 else 0)"
    by (rule row_count_key [OF world_ok_distinct [OF assms], of _ t]) simp
  also have "\<dots> = (case find_workflow t w of None \<Rightarrow> 0 | Some r \<Rightarrow> if wr_version r = v then 1 else 0)"
  proof (cases "find_workflow t w")
    case None
    then have "\<forall>r \<in> set (workflows w). wr_task_id r \<noteq> t" by (auto simp: find_workflow_def find_None_iff)
    with None show ?thesis by auto
  next
    case (Some r)
    have "wr_version r' = wr_version r" if "r' \<in> set (workflows w)" "wr_task_id r' = t" for r'
      by (rule arg_cong [OF find_workflow_unique [OF assms Some that]])
    moreover have "r \<in> set (workflows w)" "wr_task_id r = t" using find_workflow_SomeD [OF Some] by simp_all
    ultimately have "(\<exists>r \<in> set (workflows w). wr_task_id r = t \<and> wr_version r = v) \<longleftrightarrow> wr_version r = v"
      by metis
    with Some show ?thesis by simp
  qed
  finally show ?thesis .
qed

definition stored_row :: "int \<Rightarrow> workflow_state \<Rightarrow> workflow_row \<Rightarrow> workflow_row" where
  "stored_row now st r = r\<lparr>wr_state := st, wr_version := version st, wr_updated_at := now\<rparr>"

definition put_workflow :: "int \<Rightarrow> workflow_state \<Rightarrow> world \<Rightarrow> world" where
  "put_workflow now st w = w\<lparr>workflows := update_where (\<lambda>r. wr_task_id r = task_id st) (stored_row now st) (workflows w)\<rparr>"

lemma update_where_cong:
  "(\<And>r. r \<in> set rows \<Longrightarrow> (if P r then f r else r) = (if P' r then f' r else r)) \<Longrightarrow>
    update_where P f rows = update_where P' f' rows"
  by (simp add: update_where_def)

lemma save_workflow_eq:
  assumes ok: "world_ok w"
  shows "save_workflow now st v w =
    (if \<exists>old. checkpoint w (task_id st) = Some old \<and> version old = v
     then (Inr (st\<lparr>version := v + 1, updated_at := now\<rparr>),
           put_workflow now (st\<lparr>version := v + 1, updated_at := now\<rparr>) w)
     else (Inl (ConcurrentUpdateError (''stale checkpoint for '' @ task_id st)), w))"
proof (cases "find_workflow (task_id st) w")
  case None
  then show ?thesis by (simp add: save_workflow_def save_workflow_row_count [OF ok] checkpoint_def Let_def)
next
  case (Some r)
  have r: "version (wr_state r) = wr_version r" using world_ok_row [OF ok Some] by simp
  show ?thesis
  proof (cases "wr_version r = v")
    case False
    with Some r show ?thesis
      by (simp add: save_workflow_def save_workflow_row_count [OF ok] checkpoint_def Let_def)
  next
    case True
    let ?st = "st\<lparr>version := v + 1, updated_at := now\<rparr>"
    have "update_where (\<lambda>r. wr_task_id r = task_id st \<and> wr_version r = v)
        (\<lambda>r. r\<lparr>wr_state := ?st, wr_version := v + 1, wr_updated_at := now\<rparr>) (workflows w) =
      update_where (\<lambda>r. wr_task_id r = task_id ?st) (stored_row now ?st) (workflows w)"
    proof (rule update_where_cong)
      fix x
      assume "x \<in> set (workflows w)"
      then have "wr_task_id x = task_id st \<Longrightarrow> x = r"
        using find_workflow_unique [OF ok Some] by blast
      with True show "(if wr_task_id x = task_id st \<and> wr_version x = v
           then x\<lparr>wr_state := ?st, wr_version := v + 1, wr_updated_at := now\<rparr> else x) =
         (if wr_task_id x = task_id ?st then stored_row now ?st x else x)"
        by (auto simp: stored_row_def)
    qed
    with Some r True show ?thesis
      by (simp add: save_workflow_def save_workflow_row_count [OF ok] checkpoint_def Let_def put_workflow_def)
  qed
qed

lemma find_workflow_put:
  "find_workflow t (put_workflow now st w) =
    (if t = task_id st then map_option (stored_row now st) (find_workflow t w) else find_workflow t w)"
proof -
  have "find (\<lambda>r. wr_task_id r = t) (update_where (\<lambda>r. wr_task_id r = task_id st) (stored_row now st) rows) =
    map_option (\<lambda>r. if wr_task_id r = task_id st then stored_row now st r else r) (find (\<lambda>r. wr_task_id r = t) rows)"
    for rows by (rule find_update_where_same) (simp add: stored_row_def)
  then have "find_workflow t (put_workflow now st w) =
      map_option (\<lambda>r. if wr_task_id r = task_id st then stored_row now st r else r) (find_workflow t w)"
    by (simp add: find_workflow_def put_workflow_def)
  then show ?thesis
    by (cases "find_workflow t w") (auto dest: find_workflow_SomeD)
qed

lemma checkpoint_put:
  "checkpoint (put_workflow now st w) =
    (if checkpoint w (task_id st) = None then checkpoint w else (checkpoint w)(task_id st \<mapsto> st))"
  by (rule ext) (auto simp: checkpoint_def find_workflow_put stored_row_def)

lemma put_workflow_frame [simp]:
  "queue (put_workflow now st w) = queue w"
  "next_queue_id (put_workflow now st w) = next_queue_id w"
  "events (put_workflow now st w) = events w"
  "next_event_id (put_workflow now st w) = next_event_id w"
  "tool_results (put_workflow now st w) = tool_results w"
  "approvals (put_workflow now st w) = approvals w"
  "invocations (put_workflow now st w) = invocations w"
  by (simp_all add: put_workflow_def)

lemma workflows_ok_put:
  "workflows_ok rows \<Longrightarrow>
    workflows_ok (update_where (\<lambda>r. wr_task_id r = task_id st) (stored_row now st) rows)"
  unfolding workflows_ok_def
  by (subst map_update_where) (auto simp: stored_row_def set_update_where)

lemma world_ok_put:
  assumes "world_ok w"
  shows "world_ok (put_workflow now st w)"
  using assms workflows_ok_put [of "workflows w" st now]
  by (auto simp: world_ok_def find_workflow_put) (simp add: put_workflow_def)

subsection \<open>Every operation keeps the tables well formed\<close>

lemma find_workflow_cong: "workflows w' = workflows w \<Longrightarrow> find_workflow t w' = find_workflow t w"
  by (simp add: find_workflow_def)

lemma world_ok_event [intro]: "world_ok w \<Longrightarrow> world_ok (record_event_row now t ty p w)"
  by (auto simp: world_ok_def record_event_row_def sorted_wrt_append find_workflow_def)

lemma world_ok_insert_queue:
  assumes "world_ok w" and "find_workflow t w \<noteq> None"
  shows "world_ok (insert_queue_row now t m p w)"
  using assms
  by (auto simp: world_ok_def insert_queue_row_def new_queue_row_def queue_ok_def sorted_wrt_append
      find_workflow_def)

definition queue_step :: "(queue_row \<Rightarrow> queue_row) \<Rightarrow> bool" where
  \<comment> \<open>updates of a queue row that keep its key and its task\<close>
  "queue_step f \<longleftrightarrow> (\<forall>r. q_id (f r) = q_id r \<and> q_task_id (f r) = q_task_id r)"

lemma queue_ok_update: "queue_ok rows n \<Longrightarrow> queue_step f \<Longrightarrow> queue_ok (update_where P f rows) n"
  unfolding queue_ok_def queue_step_def
  by (subst map_update_where) (auto simp: set_update_where)

lemma world_ok_update_queue:
  assumes "world_ok w" and "queue_step f"
  shows "world_ok (w\<lparr>queue := update_where P f (queue w)\<rparr>)"
  using assms queue_ok_update [of "queue w" "next_queue_id w" f P]
  by (auto simp: world_ok_def set_update_where queue_step_def find_workflow_def)

lemma queue_step_intros [intro!]:
  "queue_step (\<lambda>r. r\<lparr>q_status := Q_PENDING, q_worker_id := None, q_lease_until := None, q_updated_at := now\<rparr>)"
  "queue_step (lease_row now wk ls)"
  "queue_step (\<lambda>r. r\<lparr>q_status := Q_COMPLETED, q_lease_until := None, q_updated_at := now\<rparr>)"
  "queue_step (\<lambda>r. r\<lparr>q_lease_until := x, q_updated_at := now\<rparr>)"
  "queue_step (\<lambda>r. r\<lparr>q_status := s, q_available_at := a, q_lease_until := None, q_worker_id := None,
     q_last_error := e, q_updated_at := now\<rparr>)"
  "queue_step (\<lambda>r. r\<lparr>q_status := Q_PENDING, q_attempts := 0, q_max_attempts := m, q_available_at := now,
     q_lease_until := None, q_worker_id := None, q_last_error := None, q_updated_at := now\<rparr>)"
  by (simp_all add: queue_step_def lease_row_def)

lemma keeps_ok_create: "keeps world_ok (create_workflow now st m)"
proof (rule relatesI, rule impI)
  fix w
  assume ok: "world_ok w"
  show "world_ok (snd (create_workflow now st m w))"
  proof (cases "find_workflow (task_id st) w")
    case (Some r)
    with ok show ?thesis by (simp add: create_workflow_def)
  next
    case None
    let ?w1 = "w\<lparr>workflows := workflows w @ [\<lparr>wr_task_id = task_id st, wr_state = st,
        wr_version = version st, wr_updated_at = now\<rparr>]\<rparr>"
    have "task_id st \<notin> wr_task_id ` set (workflows w)"
      using None by (auto simp: find_workflow_def find_None_iff)
    then have "world_ok ?w1" using ok
      by (auto simp: world_ok_def workflows_ok_def find_workflow_def find_append split: option.splits)
    moreover have "find_workflow (task_id st) ?w1 \<noteq> None"
      by (simp add: find_workflow_def find_append split: option.split)
    ultimately have "world_ok (insert_queue_row now (task_id st) m [] ?w1)"
      by (rule world_ok_insert_queue)
    with None show ?thesis by (simp add: create_workflow_def Let_def world_ok_event)
  qed
qed

lemma keeps_ok_save: "keeps world_ok (save_workflow now st v)"
  by (rule relatesI) (auto simp: save_workflow_eq world_ok_put)

lemma keeps_ok_enqueue: "keeps world_ok (enqueue now t m p)"
  by (rule relatesI) (auto simp: enqueue_def world_ok_insert_queue split: option.split)

lemma keeps_ok_claim: "keeps world_ok (claim now wk ls)"
proof (rule relatesI, rule impI)
  fix w
  assume "world_ok w"
  then have ok: "world_ok (w\<lparr>queue := release_expired now (queue w)\<rparr>)"
    unfolding release_expired_def by (rule world_ok_update_queue) blast
  moreover have "world_ok (w\<lparr>queue := update_where P (lease_row now wk ls) (release_expired now (queue w))\<rparr>)" for P
    using world_ok_update_queue [OF ok queue_step_intros(2), of P] by simp
  ultimately show "world_ok (snd (claim now wk ls w))"
    by (simp add: claim_def Let_def split: option.split)
qed

lemma keeps_ok_acknowledge: "keeps world_ok (acknowledge pf now d)"
  by (rule relatesI) (auto simp: acknowledge_def intro: world_ok_update_queue)

lemma keeps_ok_extend: "keeps world_ok (extend_lease pf now d ls)"
  by (rule relatesI) (auto simp: extend_lease_def intro: world_ok_update_queue)

lemma keeps_ok_retry: "keeps world_ok (retry_or_dead_letter pf now d e b)"
  by (rule relatesI) (auto simp: retry_or_dead_letter_def Let_def intro: world_ok_update_queue)

lemma keeps_ok_event: "keeps world_ok (record_event now t ty p)"
  by (rule relatesI) (auto simp: record_event_def)

lemma find_result_None: "find_result k w = None \<longleftrightarrow> k \<notin> tr_key ` set (tool_results w)"
  by (auto simp: find_result_def find_None_iff)

lemma keeps_ok_save_result: "keeps world_ok (save_tool_result pf now k t n a r)"
  by (rule relatesI) (auto simp: save_tool_result_def world_ok_def find_result_None find_workflow_def)

lemma keeps_ok_create_approval: "keeps world_ok (create_approval now t a)"
  by (rule relatesI)
     (auto simp: create_approval_def world_ok_def find_workflow_def find_approval_def approval_at_def find_None_iff)

lemma world_ok_update_approvals:
  assumes "world_ok w" and "\<And>r. ar_task_id (f r) = ar_task_id r \<and> ar_action_id (f r) = ar_action_id r"
  shows "world_ok (w\<lparr>approvals := update_where P f (approvals w)\<rparr>)"
  using assms
  by (auto simp: world_ok_def find_workflow_def) (subst map_update_where, auto)

lemma keeps_ok_resolve: "keeps world_ok (resolve_approval now t a yes who why)"
  by (rule relatesI) (auto simp: resolve_approval_def Let_def intro: world_ok_update_approvals)

lemma keeps_ok_replay: "keeps world_ok (replay_dead_letter pf now did t m who why)"
proof (rule relatesI, rule impI)
  fix w
  assume ok: "world_ok w"
  show "world_ok (snd (replay_dead_letter pf now did t m who why w))"
  proof (cases "find (\<lambda>r. id_matches pf did (q_id r) \<and> q_task_id r = t \<and> q_status r = Q_DEAD) (queue w)")
    case None
    with ok show ?thesis by (simp add: replay_dead_letter_def)
  next
    case row: (Some row)
    show ?thesis
    proof (cases "find_workflow (q_task_id row) w")
      case None
      with row ok show ?thesis by (simp add: replay_dead_letter_def)
    next
      case (Some wrow)
      let ?v = "wr_version wrow"
      let ?st = "(wr_state wrow)\<lparr>status := QUEUED, last_error := None\<rparr>"
      have "snd (save_workflow now ?st ?v w) =
          w\<lparr>workflows := update_where (\<lambda>r. wr_task_id r = task_id ?st \<and> wr_version r = ?v)
            (\<lambda>r. r\<lparr>wr_state := ?st\<lparr>version := ?v + 1, updated_at := now\<rparr>, wr_version := ?v + 1,
              wr_updated_at := now\<rparr>) (workflows w)\<rparr>" (is "_ = ?w1")
        using world_ok_row [OF ok Some] Some
        by (simp add: save_workflow_def save_workflow_row_count [OF ok] Let_def)
      moreover have "world_ok (snd (save_workflow now ?st ?v w))"
        using keeps_ok_save ok by (auto dest: relatesD)
      ultimately have "world_ok ?w1" by simp
      from world_ok_update_queue [OF this queue_step_intros(6)]
      have "world_ok (?w1\<lparr>queue := update_where P (\<lambda>r. r\<lparr>q_status := Q_PENDING, q_attempts := 0,
          q_max_attempts := m, q_available_at := now, q_lease_until := None, q_worker_id := None,
          q_last_error := None, q_updated_at := now\<rparr>) (queue ?w1)\<rparr>)" for P .
      with row Some show ?thesis by (simp add: replay_dead_letter_def Let_def world_ok_event)
    qed
  qed
qed

lemma keeps_reader: "(\<And>w. snd (m w) = w) \<Longrightarrow> relates (\<lambda>s t. I s \<longrightarrow> I t) m"
  by (simp add: relates_def)

lemmas keeps_world_ok = keeps_ok_create keeps_ok_save keeps_ok_enqueue keeps_ok_claim
  keeps_ok_acknowledge keeps_ok_extend keeps_ok_retry keeps_ok_event keeps_ok_save_result
  keeps_ok_create_approval keeps_ok_resolve keeps_ok_replay

section \<open>The contracts\<close>

lemma sqlite_store_simps [simp]:
  "rs_create_workflow (sqlite_store pf now) = create_workflow now"
  "rs_get_workflow (sqlite_store pf now) = get_workflow"
  "rs_list_workflows (sqlite_store pf now) = list_workflows"
  "rs_save_workflow (sqlite_store pf now) = save_workflow now"
  "rs_enqueue (sqlite_store pf now) = enqueue now"
  "rs_claim (sqlite_store pf now) = claim now"
  "rs_extend_lease (sqlite_store pf now) = extend_lease pf now"
  "rs_acknowledge (sqlite_store pf now) = acknowledge pf now"
  "rs_retry_or_dead_letter (sqlite_store pf now) = retry_or_dead_letter pf now"
  "rs_record_event (sqlite_store pf now) = record_event now"
  "rs_list_events (sqlite_store pf now) = list_events"
  "rs_arguments_hash (sqlite_store pf now) = arguments_hash pf"
  "rs_get_tool_result (sqlite_store pf now) = get_tool_result pf"
  "rs_save_tool_result (sqlite_store pf now) = save_tool_result pf now"
  "rs_create_approval (sqlite_store pf now) = create_approval now"
  "rs_resolve_approval (sqlite_store pf now) = resolve_approval now"
  "rs_approval_status (sqlite_store pf now) = approval_status"
  "rs_queue_counts (sqlite_store pf now) = queue_counts"
  "rs_list_dead_letters (sqlite_store pf now) = list_dead_letters"
  "rs_replay_dead_letter (sqlite_store pf now) = replay_dead_letter pf now"
  by (simp_all add: sqlite_store_def)

interpretation sqlite_checkpoints: checkpoint_store "sqlite_store pf now" checkpoint world_ok
  for pf now
proof unfold_locales
  fix s :: world and st :: workflow_state and v :: int
  assume ok: "world_ok s"
  show "rs_get_workflow (sqlite_store pf now) t s = (Inr (checkpoint s t), s)" for t
    by (simp add: get_workflow_checkpoint)
  show "\<exists>st' s'. rs_save_workflow (sqlite_store pf now) st v s = (Inr st', s') \<and> version st' = v + 1 \<and>
      task_id st' = task_id st \<and> status st' = status st \<and>
      checkpoint s' = (checkpoint s)(task_id st \<mapsto> st') \<and> world_ok s'"
    if "checkpoint s (task_id st) = Some old" "version old = v" for old
    using ok that by (simp add: save_workflow_eq checkpoint_put world_ok_put)
  show "rs_save_workflow (sqlite_store pf now) st v s =
      (Inl (ConcurrentUpdateError (''stale checkpoint for '' @ task_id st)), s)"
    if "\<forall>old. checkpoint s (task_id st) = Some old \<longrightarrow> version old \<noteq> v"
    using ok that by (auto simp: save_workflow_eq)
qed

lemma ledger_None: "ledger w k = None \<longleftrightarrow> find_result k w = None"
  by (simp add: ledger_def)

lemma ledger_append:
  "find_result (tr_key row) w = None \<Longrightarrow>
    ledger (w\<lparr>tool_results := tool_results w @ [row]\<rparr>) =
      (ledger w)(tr_key row \<mapsto> (tr_arguments_hash row, tr_result row))"
  by (rule ext) (auto simp: ledger_def find_result_def find_append split: option.split)

interpretation sqlite_ledger: idempotency_ledger "sqlite_store pf now" ledger "\<lambda>_. True" for pf now
proof unfold_locales
  fix s :: world and k t n :: string and a r :: dict
  show "rs_get_tool_result (sqlite_store pf now) k a s = (Inr None, s)" if "ledger s k = None"
    using that by (simp add: ledger_None get_tool_result_def)
  show "rs_get_tool_result (sqlite_store pf now) k a s = (Inr (Some r), s)"
    if "ledger s k = Some (rs_arguments_hash (sqlite_store pf now) a, r)"
    using that by (auto simp: ledger_def get_tool_result_def)
  show "rs_get_tool_result (sqlite_store pf now) k a s =
      (Inl (ValueError ''idempotency key reused with different arguments''), s)"
    if "ledger s k = Some (h, r)" "h \<noteq> rs_arguments_hash (sqlite_store pf now) a" for h
    using that by (auto simp: ledger_def get_tool_result_def)
  show "\<exists>s'. rs_save_tool_result (sqlite_store pf now) k t n a r s = (Inr (), s') \<and> True \<and>
      ledger s' = (ledger s)(k \<mapsto> (rs_arguments_hash (sqlite_store pf now) a, r))"
    if "ledger s k = None"
    using that ledger_append [of "\<lparr>tr_key = k, tr_task_id = t, tr_tool_name = n,
        tr_arguments_hash = arguments_hash pf a, tr_result = r, tr_created_at = now\<rparr>" s]
    by (simp add: ledger_None save_tool_result_def)
  show "\<exists>s'. rs_save_tool_result (sqlite_store pf now) k t n a r s = (Inr (), s') \<and> True \<and> ledger s' = ledger s"
    if "ledger s k = Some x" for x
    using that by (auto simp: ledger_def save_tool_result_def)
qed

lemma approval_of_None: "approval_of w t a = None \<longleftrightarrow> find_approval t a w = None"
  by (simp add: approval_of_def)

lemma approval_of_append:
  "find_approval (ar_task_id row) (ar_action_id row) w = None \<Longrightarrow>
    approval_of (w\<lparr>approvals := approvals w @ [row]\<rparr>) =
      (approval_of w)(ar_task_id row :=
        (approval_of w (ar_task_id row))(ar_action_id row \<mapsto> approval_value (ar_status row)))"
  by (intro ext)
     (auto simp: approval_of_def find_approval_def find_append approval_at_def fun_upd_def split: option.split)

lemma approval_value_inject: "approval_value x = approval_value y \<longleftrightarrow> x = y"
  by (cases x; cases y) simp_all

lemma approval_value_text [simp]:
  "approval_value x = ''PENDING'' \<longleftrightarrow> x = A_PENDING"
  "approval_value x = ''APPROVED'' \<longleftrightarrow> x = A_APPROVED"
  "approval_value x = ''REJECTED'' \<longleftrightarrow> x = A_REJECTED"
  by (cases x; simp)+

lemma approval_row_count:
  assumes "world_ok w"
  shows "row_count (\<lambda>r. approval_at t a r \<and> ar_status r = A_PENDING) (approvals w) =
    (if approval_of w t a = Some ''PENDING'' then 1 else 0)"
proof -
  have dist: "distinct (map (\<lambda>r. (ar_task_id r, ar_action_id r)) (approvals w))"
    using assms by (simp add: world_ok_def)
  have "row_count (\<lambda>r. approval_at t a r \<and> ar_status r = A_PENDING) (approvals w) =
      (if \<exists>r \<in> set (approvals w). approval_at t a r \<and> ar_status r = A_PENDING then 1 else 0)"
    by (rule row_count_key [OF dist, of _ "(t, a)"]) (simp add: approval_at_def)
  moreover have "(\<exists>r \<in> set (approvals w). approval_at t a r \<and> ar_status r = A_PENDING) \<longleftrightarrow>
      approval_of w t a = Some ''PENDING''"
  proof
    assume "\<exists>r \<in> set (approvals w). approval_at t a r \<and> ar_status r = A_PENDING"
    then obtain r where r: "r \<in> set (approvals w)" "approval_at t a r" "ar_status r = A_PENDING" by blast
    then have "find (\<lambda>y. (ar_task_id y, ar_action_id y) = (ar_task_id r, ar_action_id r)) (approvals w) = Some r"
      using find_unique [OF dist, of r] by simp
    then have "find_approval t a w = Some r"
      using r(2) by (simp add: find_approval_def approval_at_def [abs_def])
    with r(3) show "approval_of w t a = Some ''PENDING''" by (simp add: approval_of_def)
  next
    assume "approval_of w t a = Some ''PENDING''"
    then obtain r where "find (approval_at t a) (approvals w) = Some r" "ar_status r = A_PENDING"
      by (auto simp: approval_of_def find_approval_def)
    then show "\<exists>r \<in> set (approvals w). approval_at t a r \<and> ar_status r = A_PENDING"
      by (auto dest: find_SomeD)
  qed
  ultimately show ?thesis by simp
qed

lemma approval_of_resolve:
  assumes "approval_of w t a = Some ''PENDING''"
    and "\<And>r. ar_task_id (f r) = ar_task_id r \<and> ar_action_id (f r) = ar_action_id r \<and> ar_status (f r) = x"
  shows "approval_of (w\<lparr>approvals := update_where (\<lambda>r. approval_at t a r \<and> ar_status r = A_PENDING) f (approvals w)\<rparr>) =
    (approval_of w)(t := (approval_of w t)(a \<mapsto> approval_value x))"
proof (intro ext)
  fix t' a'
  let ?P = "\<lambda>r. approval_at t a r \<and> ar_status r = A_PENDING"
  have "find (approval_at t' a') (update_where ?P f (approvals w)) =
      map_option (\<lambda>r. if ?P r then f r else r) (find (approval_at t' a') (approvals w))"
    by (rule find_update_where_same) (simp add: approval_at_def assms(2))
  moreover obtain r where "find_approval t a w = Some r" "ar_status r = A_PENDING"
    using assms(1) by (auto simp: approval_of_def)
  ultimately show "approval_of (w\<lparr>approvals := update_where ?P f (approvals w)\<rparr>) t' a' =
      ((approval_of w)(t := (approval_of w t)(a \<mapsto> approval_value x))) t' a'"
    using find_SomeD [of "approval_at t' a'" "approvals w"]
    by (cases "find (approval_at t' a') (approvals w)")
       (auto simp: approval_of_def find_approval_def approval_at_def assms(2))
qed

lemma resolve_approval_eq:
  assumes "world_ok w"
  shows "resolve_approval now t a yes who why w =
    (if approval_of w t a = Some ''PENDING''
     then (Inr (), w\<lparr>approvals := update_where (\<lambda>r. approval_at t a r \<and> ar_status r = A_PENDING)
            (\<lambda>r. r\<lparr>ar_status := (if yes then A_APPROVED else A_REJECTED), ar_actor := Some who,
                  ar_reason := why, ar_resolved_at := Some now\<rparr>) (approvals w)\<rparr>)
     else (Inl (ValueError ''approval is not pending''), w))"
  using approval_row_count [OF assms, of t a] by (simp add: resolve_approval_def Let_def)

lemma approval_status_eq: "approval_status t a w = (Inr (approval_of w t a), w)"
  by (simp add: approval_status_def approval_of_def)

interpretation sqlite_approvals: approval_ledger "sqlite_store pf now" approval_of world_ok for pf now
proof unfold_locales
  fix s :: world and t a who :: string and yes :: bool and why :: "string option"
  assume ok: "world_ok s"
  show "rs_approval_status (sqlite_store pf now) t a s = (Inr (approval_of s t a), s)"
    by (simp add: approval_status_eq)
  show "\<exists>s'. rs_create_approval (sqlite_store pf now) t a s = (Inr (), s') \<and> world_ok s' \<and>
      approval_of s' = (approval_of s)(t := (approval_of s t)(a \<mapsto> ''PENDING''))"
    if "approval_of s t a = None"
    using that relatesD [OF keeps_ok_create_approval, of s now t a] ok
      approval_of_append [of "\<lparr>ar_task_id = t, ar_action_id = a, ar_status = A_PENDING, ar_actor = None,
        ar_reason = None, ar_created_at = now, ar_resolved_at = None\<rparr>" s]
    by (simp add: approval_of_None create_approval_def)
  show "\<exists>s'. rs_create_approval (sqlite_store pf now) t a s = (Inr (), s') \<and> world_ok s' \<and>
      approval_of s' = approval_of s"
    if "approval_of s t a = Some x" for x
    using that ok by (auto simp: approval_of_def create_approval_def)
  show "\<exists>s'. rs_resolve_approval (sqlite_store pf now) t a yes who why s = (Inr (), s') \<and> world_ok s' \<and>
      approval_of s' = (approval_of s)(t := (approval_of s t)(a \<mapsto> (if yes then ''APPROVED'' else ''REJECTED'')))"
    if "approval_of s t a = Some ''PENDING''"
    using that relatesD [OF keeps_ok_resolve, of s now t a yes who why] ok
      approval_of_resolve [OF that, of "\<lambda>r. r\<lparr>ar_status := (if yes then A_APPROVED else A_REJECTED),
        ar_actor := Some who, ar_reason := why, ar_resolved_at := Some now\<rparr>"
        "if yes then A_APPROVED else A_REJECTED"]
    by (simp add: resolve_approval_eq)
  show "rs_resolve_approval (sqlite_store pf now) t a yes who why s =
      (Inl (ValueError ''approval is not pending''), s)"
    if "approval_of s t a \<noteq> Some ''PENDING''"
    using that ok by (simp add: resolve_approval_eq)
qed

end
