(* ===== verification/Sql_Queue.thy ===== *)
theory Sql_Queue
  imports Sql_Laws
begin

text \<open>
  The durable queue of the SQLite store: a leased delivery is handed to nobody else while its lease
  lasts and to somebody afterwards; retries back off within a bound and end in the dead-letter
  state; a workflow has at most one active delivery.
\<close>

section \<open>Claiming\<close>

definition holds_lease :: "int \<Rightarrow> int \<Rightarrow> queue_row \<Rightarrow> bool" where
  \<comment> \<open>row \<open>i\<close> is being processed and its lease lasts until \<open>until\<close> at least\<close>
  "holds_lease i until r \<longleftrightarrow>
     q_id r = i \<and> q_status r = Q_PROCESSING \<and> (\<exists>l. q_lease_until r = Some l \<and> until \<le> l)"

definition leased :: "int \<Rightarrow> int \<Rightarrow> world \<Rightarrow> bool" where
  "leased i until w \<longleftrightarrow> (\<exists>r \<in> set (queue w). holds_lease i until r)"

lemma queue_ids_unique:
  assumes "world_ok w" and "r \<in> set (queue w)" and "r' \<in> set (queue w)" and "q_id r = q_id r'"
  shows "r = r'"
proof -
  have "distinct (map q_id (queue w))"
    using assms(1) by (auto simp: world_ok_def queue_ok_def strict_sorted_iff)
  then show ?thesis using assms(2-4) by (auto simp: distinct_map dest: inj_onD)
qed

lemma set_release_expired:
  "r \<in> set (release_expired now rows) \<longleftrightarrow>
    (\<exists>r' \<in> set rows. r = (if lease_expired now r'
       then r'\<lparr>q_status := Q_PENDING, q_worker_id := None, q_lease_until := None, q_updated_at := now\<rparr>
       else r'))"
  by (simp add: release_expired_def set_update_where)

text \<open>What a successful claim found and what it leaves behind.\<close>

lemma claim_SomeE:
  assumes "claim now wk ls w = (Inr (Some d), w')"
  obtains r where "r \<in> set (release_expired now (queue w))" "claimable now r" "d = delivery_of_row r"
    "find (claimable now) (release_expired now (queue w)) = Some r"
    "w' = w\<lparr>queue := update_where (\<lambda>x. q_id x = q_id r \<and> q_status x = Q_PENDING) (lease_row now wk ls)
       (release_expired now (queue w))\<rparr>"
proof -
  from assms obtain r where f: "find (claimable now) (release_expired now (queue w)) = Some r"
    and "d = delivery_of_row r"
    and "w' = w\<lparr>queue := update_where (\<lambda>x. q_id x = q_id r \<and> q_status x = Q_PENDING) (lease_row now wk ls)
       (release_expired now (queue w))\<rparr>"
    by (auto simp: claim_def Let_def split: option.splits)
  with find_SomeD [OF f] show thesis using that by blast
qed

lemma claim_leases:
  assumes "claim now wk ls w = (Inr (Some d), w')"
  shows "\<exists>i. dl_id d = IdInt i \<and> leased i (now + ls * second) w'"
proof -
  from assms obtain r where r: "r \<in> set (release_expired now (queue w))" "claimable now r" "d = delivery_of_row r"
    and w': "w' = w\<lparr>queue := update_where (\<lambda>x. q_id x = q_id r \<and> q_status x = Q_PENDING) (lease_row now wk ls)
       (release_expired now (queue w))\<rparr>" by (rule claim_SomeE)
  have "lease_row now wk ls r \<in> set (queue w')"
    using r(1,2) unfolding w' by (auto simp: set_update_where claimable_def intro!: bexI [of _ r])
  moreover have "holds_lease (q_id r) (now + ls * second) (lease_row now wk ls r)"
    by (simp add: holds_lease_def lease_row_def)
  ultimately show ?thesis using r(3) by (auto simp: leased_def delivery_of_row_def)
qed

lemma release_ids_unique:
  assumes "world_ok w" and "r \<in> set (release_expired now (queue w))" and "r' \<in> set (release_expired now (queue w))"
    and "q_id r = q_id r'"
  shows "r = r'"
proof -
  have "world_ok (w\<lparr>queue := release_expired now (queue w)\<rparr>)"
    unfolding release_expired_def by (rule world_ok_update_queue [OF assms(1)]) blast
  from queue_ids_unique [OF this] assms(2-4) show ?thesis by simp
qed

text \<open>A row that is neither due nor has an expired lease stays as it is, and no claim gets it.\<close>

definition withheld :: "int \<Rightarrow> queue_row \<Rightarrow> bool" where
  "withheld now r \<longleftrightarrow> \<not> lease_expired now r \<and> \<not> claimable now r"

lemma withheld_release: "withheld now r \<Longrightarrow> r \<in> set rows \<Longrightarrow> r \<in> set (release_expired now rows)"
  by (auto simp: set_release_expired withheld_def intro!: bexI [of _ r])

lemma claim_not_withheld:
  assumes ok: "world_ok w" and r: "r \<in> set (queue w)" "withheld now r" and c: "claim now wk ls w = (Inr (Some d), w')"
  shows "dl_id d \<noteq> IdInt (q_id r)"
proof
  assume same: "dl_id d = IdInt (q_id r)"
  from c obtain x where x: "x \<in> set (release_expired now (queue w))" "claimable now x" "d = delivery_of_row x"
    by (rule claim_SomeE)
  have "x = r"
    by (rule release_ids_unique [OF ok x(1) withheld_release [OF r(2,1)]]) (use same x(3) in \<open>simp add: delivery_of_row_def\<close>)
  with x(2) r(2) show False by (simp add: withheld_def)
qed

lemma claim_keeps_withheld:
  assumes ok: "world_ok w" and r: "r \<in> set (queue w)" "withheld now r"
  shows "r \<in> set (queue (snd (claim now wk ls w)))"
proof (cases "find (claimable now) (release_expired now (queue w))")
  case None
  then show ?thesis using withheld_release [OF r(2,1)] by (simp add: claim_def)
next
  case (Some x)
  then have "claim now wk ls w = (Inr (Some (delivery_of_row x)),
      w\<lparr>queue := update_where (\<lambda>y. q_id y = q_id x \<and> q_status y = Q_PENDING) (lease_row now wk ls)
        (release_expired now (queue w))\<rparr>)"
    by (simp add: claim_def Let_def)
  moreover from claim_not_withheld [OF ok r this] have "q_id r \<noteq> q_id x" by (simp add: delivery_of_row_def)
  ultimately show ?thesis using withheld_release [OF r(2,1)] by (auto simp: set_update_where intro!: bexI [of _ r])
qed

text \<open>A series of claims by any workers at any times; the deliveries they get.\<close>

fun claims :: "(int \<times> string \<times> int) list \<Rightarrow> world \<Rightarrow> queue_delivery list" where
  "claims [] w = []"
| "claims ((now, wk, ls) # cs) w =
     (case claim now wk ls w of
        (Inr (Some d), w') \<Rightarrow> d # claims cs w'
      | (_, w') \<Rightarrow> claims cs w')"

lemma claims_avoid_withheld:
  "world_ok w \<Longrightarrow> r \<in> set (queue w) \<Longrightarrow> \<forall>(now, wk, ls) \<in> set cs. withheld now r \<Longrightarrow>
    d \<in> set (claims cs w) \<Longrightarrow> dl_id d \<noteq> IdInt (q_id r)"
proof (induction cs arbitrary: w)
  case Nil
  then show ?case by simp
next
  case (Cons c cs)
  obtain now wk ls where c: "c = (now, wk, ls)" by (cases c)
  obtain res w' where res: "claim now wk ls w = (res, w')" by (cases "claim now wk ls w")
  have held: "withheld now r" and rest: "\<forall>(now, wk, ls) \<in> set cs. withheld now r"
    using Cons.prems(3) c by auto
  have "world_ok w'" and "r \<in> set (queue w')"
    using relatesD [OF keeps_ok_claim, of w now wk ls] Cons.prems(1)
      claim_keeps_withheld [OF Cons.prems(1,2) held, of wk ls] res by simp_all
  note IH = Cons.IH [OF this rest]
  show ?case
  proof (cases "res = Inr (Some d)")
    case True
    with res claim_not_withheld [OF Cons.prems(1,2) held] show ?thesis by blast
  next
    case False
    then have "d \<in> set (claims cs w')"
      using Cons.prems(4) c res by (auto split: sum.splits option.splits)
    then show ?thesis by (rule IH)
  qed
qed

lemma claims_avoid_leased:
  assumes "world_ok w" and "leased i until w" and "\<forall>(now, wk, ls) \<in> set cs. now \<le> until" and "d \<in> set (claims cs w)"
  shows "dl_id d \<noteq> IdInt i"
proof -
  obtain r where r: "r \<in> set (queue w)" "holds_lease i until r" using assms(2) by (auto simp: leased_def)
  then have "\<forall>(now, wk, ls) \<in> set cs. withheld now r"
    using assms(3) by (fastforce simp: withheld_def holds_lease_def lease_expired_def claimable_def)
  from claims_avoid_withheld [OF assms(1) r(1) this assms(4)] r(2) show ?thesis by (simp add: holds_lease_def)
qed

text \<open>After the lease, the delivery is claimable again, with one more attempt.\<close>

lemma find_least_id:
  assumes "sorted_wrt (<) (map q_id rows)" and "r \<in> set rows" and "P r"
    and "\<And>x. x \<in> set rows \<Longrightarrow> q_id x < q_id r \<Longrightarrow> \<not> P x"
  shows "find P rows = Some r"
  using assms by (induction rows) (auto split: if_splits)

lemma find_is_least:
  assumes "sorted_wrt (<) (map q_id rows)" and "find P rows = Some r" and "x \<in> set rows" and "P x"
  shows "q_id r \<le> q_id x"
  using assms by (induction rows) (auto split: if_splits)

lemma sorted_release: "sorted_wrt (<) (map q_id rows) \<Longrightarrow> sorted_wrt (<) (map q_id (release_expired now rows))"
  unfolding release_expired_def by (subst map_update_where) simp_all

definition ready :: "int \<Rightarrow> queue_row \<Rightarrow> bool" where
  "ready now r \<longleftrightarrow> claimable now r \<or> lease_expired now r \<and> q_available_at r \<le> now"

lemma claim_first_ready:
  assumes ok: "world_ok w" and r: "r \<in> set (queue w)" "ready now r"
    and least: "\<And>x. x \<in> set (queue w) \<Longrightarrow> q_id x < q_id r \<Longrightarrow> \<not> ready now x"
  shows "\<exists>w'. claim now wk ls w = (Inr (Some (delivery_of_row r)), w') \<and> leased (q_id r) (now + ls * second) w'"
proof -
  define rel where "rel r' = (if lease_expired now r'
       then r'\<lparr>q_status := Q_PENDING, q_worker_id := None, q_lease_until := None, q_updated_at := now\<rparr>
       else r')" for r'
  have rel_id: "q_id (rel x) = q_id x" for x by (simp add: rel_def)
  have rel_claimable: "claimable now (rel x) \<longleftrightarrow> ready now x" for x
    by (auto simp: rel_def claimable_def ready_def lease_expired_def)
  have rows: "set (release_expired now (queue w)) = rel ` set (queue w)"
    by (simp add: release_expired_def update_where_def rel_def [abs_def])
  have "find (claimable now) (release_expired now (queue w)) = Some (rel r)"
  proof (rule find_least_id)
    show "sorted_wrt (<) (map q_id (release_expired now (queue w)))"
      using ok by (auto simp: world_ok_def queue_ok_def intro: sorted_release)
    show "rel r \<in> set (release_expired now (queue w))" using r(1) rows by simp
    show "claimable now (rel r)" using r(2) by (simp add: rel_claimable)
    show "\<not> claimable now x" if "x \<in> set (release_expired now (queue w))" "q_id x < q_id (rel r)" for x
      using that least rows by (auto simp: rel_claimable rel_id)
  qed
  then have c: "claim now wk ls w = (Inr (Some (delivery_of_row (rel r))),
      w\<lparr>queue := update_where (\<lambda>x. q_id x = q_id (rel r) \<and> q_status x = Q_PENDING) (lease_row now wk ls)
          (release_expired now (queue w))\<rparr>)" (is "_ = (_, ?w')")
    by (simp add: claim_def Let_def)
  have "delivery_of_row (rel r) = delivery_of_row r" by (simp add: rel_def delivery_of_row_def)
  moreover have "leased (q_id r) (now + ls * second) ?w'"
    using claim_leases [OF c] by (auto simp: delivery_of_row_def rel_id)
  ultimately show ?thesis using c by (intro exI [of _ ?w']) simp
qed

section \<open>Retries\<close>

lemma retry_delay_bounds:
  assumes "0 \<le> base"
  shows "0 \<le> retry_delay d base" and "retry_delay d base \<le> 60"
  using assms by (simp_all add: retry_delay_def)

lemma round_half_even_mono_bound: "x \<le> of_int n \<Longrightarrow> round_half_even x \<le> n"
proof -
  assume le: "x \<le> of_int n"
  show ?thesis
  proof (cases "\<lfloor>x\<rfloor> = n")
    case True
    then have "x - of_int \<lfloor>x\<rfloor> \<le> 0" using le by simp
    then have "x - of_int \<lfloor>x\<rfloor> < 1 / 2" by (rule le_less_trans) simp
    with True show ?thesis by (simp add: round_half_even_def Let_def)
  next
    case False
    moreover have "\<lfloor>x\<rfloor> \<le> n" using floor_mono [OF le] by simp
    ultimately have "\<lfloor>x\<rfloor> + 1 \<le> n" by simp
    then show ?thesis by (auto simp: round_half_even_def Let_def)
  qed
qed

lemma round_half_even_nonneg: "0 \<le> x \<Longrightarrow> 0 \<le> round_half_even x"
proof -
  assume "0 \<le> x"
  then have "0 \<le> \<lfloor>x\<rfloor>" by simp
  then show ?thesis by (auto simp: round_half_even_def Let_def)
qed

lemma timedelta_bounds:
  assumes "0 \<le> x" and "x \<le> of_int n"
  shows "0 \<le> timedelta_seconds x \<and> timedelta_seconds x \<le> n * second"
proof -
  have "x * of_int second \<le> of_int n * of_int second"
    using assms(2) by (rule mult_right_mono) (simp add: second_def)
  then have "x * of_int second \<le> of_int (n * second)" by simp
  moreover have "0 \<le> x * of_int second" using assms(1) by (simp add: second_def)
  ultimately show ?thesis
    unfolding timedelta_seconds_def by (blast intro: round_half_even_mono_bound round_half_even_nonneg)
qed

lemma round_half_even_near: "\<bar>of_int (round_half_even x) - x\<bar> \<le> 1 / 2"
proof -
  have "of_int \<lfloor>x\<rfloor> \<le> x" "x < of_int \<lfloor>x\<rfloor> + 1" using floor_correct [of x] by simp_all
  then show ?thesis unfolding round_half_even_def Let_def by (auto simp: abs_le_iff)
qed

lemma timedelta_near: "\<bar>of_int (timedelta_seconds x) - x * of_int second\<bar> \<le> 1 / 2"
  unfolding timedelta_seconds_def by (rule round_half_even_near)

lemma retry_queue:
  "dl_id d = IdInt i \<Longrightarrow> queue (snd (retry_or_dead_letter pf now d e base w)) =
    update_where (\<lambda>r. q_id r = i)
      (\<lambda>r. r\<lparr>q_status := (if exhausted d then Q_DEAD else Q_PENDING),
         q_available_at := (if exhausted d then now else now + timedelta_seconds (retry_delay d base)),
         q_lease_until := None, q_worker_id := None, q_last_error := Some (slice_to 2000 e), q_updated_at := now\<rparr>) (queue w)"
  by (auto simp: retry_or_dead_letter_def Let_def intro!: update_where_cong)

section \<open>At most one active delivery\<close>

definition single_active :: "world \<Rightarrow> bool" where
  "single_active w \<longleftrightarrow> (\<forall>t. row_count (active_row t) (queue w) \<le> 1)"

lemma row_count_update_le:
  "(\<And>r. r \<in> set rows \<Longrightarrow> Q r \<Longrightarrow> P (f r) \<Longrightarrow> P r) \<Longrightarrow>
    row_count P (update_where Q f rows) \<le> row_count P rows"
  by (induction rows) (auto simp: row_count_def le_Suc_eq)

lemma single_active_update:
  assumes "single_active w"
    and "\<And>r t. r \<in> set (queue w) \<Longrightarrow> Q r \<Longrightarrow> active_row t (f r) \<Longrightarrow> active_row t r"
  shows "single_active (w\<lparr>queue := update_where Q f (queue w)\<rparr>)"
proof -
  have "row_count (active_row t) (update_where Q f (queue w)) \<le> row_count (active_row t) (queue w)" for t
    by (rule row_count_update_le) (rule assms(2))
  then show ?thesis using assms(1) by (auto simp: single_active_def intro: order_trans)
qed

lemma single_active_cong: "queue w' = queue w \<Longrightarrow> single_active w' = single_active w"
  by (simp add: single_active_def)

lemma single_active_insert:
  assumes "single_active w" and "\<forall>r \<in> set (queue w). \<not> active_row t r"
  shows "single_active (insert_queue_row now t m p w)"
proof -
  have "row_count (active_row t) (queue w) = 0" using assms(2) by (simp add: row_count_0)
  then show ?thesis using assms(1)
    by (auto simp: single_active_def insert_queue_row_def new_queue_row_def active_row_def row_count_def)
qed

lemma enqueue_single_active: "keeps single_active (enqueue now t m p)"
proof (rule relatesI, rule impI)
  fix w
  assume "single_active w"
  then show "single_active (snd (enqueue now t m p w))"
    by (auto simp: enqueue_def find_None_iff split: option.split intro: single_active_insert)
qed

lemma single_active_release:
  assumes "single_active w"
  shows "single_active (w\<lparr>queue := release_expired now (queue w)\<rparr>)"
  unfolding release_expired_def
  by (rule single_active_update [OF assms])
     (auto simp: active_row_def active_status_def lease_expired_def)

lemma claim_single_active: "keeps single_active (claim now wk ls)"
proof (rule relatesI, rule impI)
  fix w
  assume "single_active w"
  then have rel: "single_active (w\<lparr>queue := release_expired now (queue w)\<rparr>)" (is "single_active ?w")
    by (rule single_active_release)
  have "single_active (?w\<lparr>queue := update_where (\<lambda>x. q_id x = i \<and> q_status x = Q_PENDING)
      (lease_row now wk ls) (queue ?w)\<rparr>)" for i
    by (rule single_active_update [OF rel]) (auto simp: active_row_def active_status_def lease_row_def)
  with rel show "single_active (snd (claim now wk ls w))"
    by (simp add: claim_def Let_def split: option.split)
qed

lemma acknowledge_single_active: "keeps single_active (acknowledge pf now d)"
  by (rule relatesI)
     (auto simp: acknowledge_def active_row_def active_status_def intro: single_active_update)

lemma extend_single_active: "keeps single_active (extend_lease pf now d ls)"
  by (rule relatesI)
     (auto simp: extend_lease_def active_row_def active_status_def intro: single_active_update)

lemma create_single_active:
  assumes ok: "world_ok w" and one: "single_active w"
  shows "single_active (snd (create_workflow now st m w))"
proof (cases "find_workflow (task_id st) w")
  case (Some r)
  with one show ?thesis by (simp add: create_workflow_def)
next
  case None
  have "\<forall>r \<in> set (queue w). \<not> active_row (task_id st) r"
    using ok None by (auto simp: world_ok_def active_row_def)
  then have "single_active (insert_queue_row now (task_id st) m [] w)"
    by (rule single_active_insert [OF one])
  moreover have "queue (snd (create_workflow now st m w)) = queue (insert_queue_row now (task_id st) m [] w)"
    using None by (simp add: create_workflow_def Let_def record_event_row_def insert_queue_row_def)
  ultimately show ?thesis by (simp add: single_active_def)
qed

text \<open>
  A retry changes the row by its id alone, whatever its status, so it keeps this only for a row that
  is still active.
\<close>

lemma retry_single_active:
  assumes "single_active w"
    and "\<And>r. r \<in> set (queue w) \<Longrightarrow> id_matches pf (dl_id d) (q_id r) \<Longrightarrow> active_status (q_status r)"
  shows "single_active (snd (retry_or_dead_letter pf now d e base w))"
  unfolding retry_or_dead_letter_def Let_def snd_conv
  by (rule single_active_update [OF assms(1)])
     (use assms(2) in \<open>auto simp: active_row_def active_status_def split: if_splits\<close>)

section \<open>Properties of the queue\<close>

text \<open>A world with one created workflow and its delivery, and the world after its first claim.\<close>

definition sample_world :: world where
  "sample_world = snd (create_workflow 0 (new_workflow ''t'' ''restore checkout'' ''s'' 0) 5 empty_world)"

definition claimed_world :: world where
  "claimed_world = snd (claim 0 ''w1'' 60 sample_world)"

definition sample_delivery :: queue_delivery where
  "sample_delivery = \<lparr>dl_id = IdInt 1, dl_task_id = ''t'', dl_attempts = 1, dl_max_attempts = 5,
     dl_payload = [], dl_receipt_handle = None\<rparr>"

lemma sample_world_ok: "world_ok sample_world"
  using relatesD [OF keeps_ok_create] world_ok_empty by (auto simp: sample_world_def)

lemma claimed_world_ok: "world_ok claimed_world"
  using relatesD [OF keeps_ok_claim] sample_world_ok by (auto simp: claimed_world_def)

lemma sample_queue: "queue sample_world = [new_queue_row 0 1 ''t'' 5 []]"
  by (simp add: sample_world_def create_workflow_def empty_world_def find_workflow_def new_workflow_def
      insert_queue_row_def record_event_row_def)

lemma sample_claim: "claim 0 ''w1'' 60 sample_world = (Inr (Some sample_delivery), claimed_world)"
  by (simp add: claimed_world_def claim_def sample_queue release_expired_def lease_expired_def claimable_def
      new_queue_row_def delivery_of_row_def sample_delivery_def)

lemma claimed_queue: "queue claimed_world = [lease_row 0 ''w1'' 60 (new_queue_row 0 1 ''t'' 5 [])]"
  by (simp add: claimed_world_def claim_def sample_queue release_expired_def lease_expired_def claimable_def
      new_queue_row_def)

text \<open>
  C25: A lease excludes: after a worker claimed a delivery, no claim by any worker, at any time until the
  lease ends and in any number, gets the same delivery.
\<close>

theorem lease_excludes:
  assumes "world_ok w" and "claim now wk ls w = (Inr (Some d), w')"
    and "\<forall>(now', wk', ls') \<in> set cs. now' \<le> now + ls * second" and "d' \<in> set (claims cs w')"
  shows "dl_id d' \<noteq> dl_id d"
proof -
  obtain i where i: "dl_id d = IdInt i" "leased i (now + ls * second) w'" using claim_leases [OF assms(2)] by blast
  have "world_ok w'" using relatesD [OF keeps_ok_claim, of w now wk ls] assms(1,2) by simp
  from claims_avoid_leased [OF this i(2) assms(3,4)] i(1) show ?thesis by simp
qed

theorem lease_excludes_witness:
  "IdInt 1 \<notin> dl_id ` set (claims [(30 * second, ''w2'', 60), (60 * second, ''w3'', 60)] claimed_world)"
proof
  assume "IdInt 1 \<in> dl_id ` set (claims [(30 * second, ''w2'', 60), (60 * second, ''w3'', 60)] claimed_world)"
  then obtain d' where d': "d' \<in> set (claims [(30 * second, ''w2'', 60), (60 * second, ''w3'', 60)] claimed_world)"
    "dl_id d' = IdInt 1" by (auto simp only: image_iff)
  from lease_excludes [OF sample_world_ok sample_claim _ d'(1)] d'(2) show False
    by (simp add: sample_delivery_def second_def)
qed

text \<open>
  A crashed worker loses its delivery: once the lease of a row has expired and the row is the oldest
  one that is ready, the next claim gets exactly this delivery, with one attempt more, under a new lease.
\<close>

theorem expired_delivery_recovered:
  assumes "world_ok w" and "r \<in> set (queue w)" and "q_status r = Q_PROCESSING"
    and "q_lease_until r = Some l" and "l < now" and "q_available_at r \<le> now"
    and "\<forall>x \<in> set (queue w). q_id x < q_id r \<longrightarrow> \<not> ready now x"
  shows "\<exists>d w'. claim now wk ls w = (Inr (Some d), w') \<and> dl_id d = IdInt (q_id r) \<and> dl_task_id d = q_task_id r \<and>
    dl_attempts d = q_attempts r + 1 \<and> leased (q_id r) (now + ls * second) w'"
proof -
  have "ready now r" using assms(3-6) by (simp add: ready_def lease_expired_def)
  with assms(7) obtain w' where "claim now wk ls w = (Inr (Some (delivery_of_row r)), w')"
    "leased (q_id r) (now + ls * second) w'"
    using claim_first_ready [OF assms(1,2), of now wk ls] by blast
  then show ?thesis by (intro exI [of _ "delivery_of_row r"] exI [of _ w']) (simp add: delivery_of_row_def)
qed

theorem expired_delivery_recovered_witness:
  "\<exists>d w'. claim (60 * second + 1) ''w2'' 60 claimed_world = (Inr (Some d), w') \<and> dl_id d = IdInt 1 \<and> dl_attempts d = 2"
proof -
  have r: "lease_row 0 ''w1'' 60 (new_queue_row 0 1 ''t'' 5 []) \<in> set (queue claimed_world)" by (simp add: claimed_queue)
  have "\<exists>d w'. claim (60 * second + 1) ''w2'' 60 claimed_world = (Inr (Some d), w') \<and>
      dl_id d = IdInt (q_id (lease_row 0 ''w1'' 60 (new_queue_row 0 1 ''t'' 5 []))) \<and>
      dl_task_id d = q_task_id (lease_row 0 ''w1'' 60 (new_queue_row 0 1 ''t'' 5 [])) \<and>
      dl_attempts d = q_attempts (lease_row 0 ''w1'' 60 (new_queue_row 0 1 ''t'' 5 [])) + 1 \<and>
      leased (q_id (lease_row 0 ''w1'' 60 (new_queue_row 0 1 ''t'' 5 []))) (60 * second + 1 + 60 * second) w'"
    by (rule expired_delivery_recovered [OF claimed_world_ok r, of "60 * second"])
       (simp_all add: lease_row_def new_queue_row_def claimed_queue second_def)
  then show ?thesis by (auto simp: lease_row_def new_queue_row_def)
qed

text \<open>
  C26: A failed delivery is put back or given up. Below its attempt limit its row becomes pending again,
  without lease or worker, and available after a delay that is \<open>base\<close> doubled for each attempt but the
  first, at most sixty seconds, to the nearest microsecond; until then no series of claims by any workers gets
  it. At the limit the row is a dead letter, which no claim ever gets, and the caller is told so. The error is
  kept, cut to 2000 characters; the other rows, and everything else, stay as they are.
\<close>

theorem retry_backs_off:
  assumes "world_ok w" and "0 \<le> base" and "dl_id d = IdInt i" and "r \<in> set (queue w)" and "q_id r = i"
    and "retry_or_dead_letter pf now d e base w = (answer, w')"
  shows "answer = Inr (dl_max_attempts d \<le> dl_attempts d) \<and>
    (\<exists>r'. w' = w\<lparr>queue := map (\<lambda>x. if q_id x = i then r' else x) (queue w)\<rparr> \<and>
      q_id r' = i \<and> q_task_id r' = q_task_id r \<and> q_attempts r' = q_attempts r \<and>
      q_lease_until r' = None \<and> q_worker_id r' = None \<and> q_last_error r' = Some (slice_to 2000 e) \<and>
      (if dl_max_attempts d \<le> dl_attempts d
       then q_status r' = Q_DEAD \<and> (\<forall>cs. \<forall>d' \<in> set (claims cs w'). dl_id d' \<noteq> IdInt i)
       else q_status r' = Q_PENDING \<and> now \<le> q_available_at r' \<and> q_available_at r' \<le> now + 60 * second \<and>
         \<bar>of_int (q_available_at r' - now) - min 60 (base * 2 ^ nat (dl_attempts d - 1)) * of_int second\<bar> \<le> 1 / 2 \<and>
         (\<forall>cs. (\<forall>(t, wk, ls) \<in> set cs. t < q_available_at r') \<longrightarrow> (\<forall>d' \<in> set (claims cs w'). dl_id d' \<noteq> IdInt i))))"
proof -
  define r' where "r' = r\<lparr>q_status := (if exhausted d then Q_DEAD else Q_PENDING),
    q_available_at := (if exhausted d then now else now + timedelta_seconds (retry_delay d base)),
    q_lease_until := None, q_worker_id := None, q_last_error := Some (slice_to 2000 e), q_updated_at := now\<rparr>"
  have one: "x = r" if "x \<in> set (queue w)" "q_id x = i" for x
    using queue_ids_unique [OF assms(1) that(1) assms(4)] that(2) assms(5) by simp
  have rows: "queue w' = map (\<lambda>x. if q_id x = i then r' else x) (queue w)"
    using retry_queue [OF assms(3), of pf now e base w] one assms(6) by (simp add: update_where_def r'_def)
  have w': "w' = w\<lparr>queue := map (\<lambda>x. if q_id x = i then r' else x) (queue w)\<rparr>"
    unfolding rows [symmetric] using assms(6) by (auto simp: retry_or_dead_letter_def Let_def)
  have answer: "answer = Inr (dl_max_attempts d \<le> dl_attempts d)"
    using assms(6) by (simp add: retry_or_dead_letter_def exhausted_def Let_def)
  have "r' \<in> set (queue w')" using assms(4,5) by (auto simp: rows intro!: image_eqI [of _ _ r])
  moreover have "world_ok w'" using relatesD [OF keeps_ok_retry, of w pf now d e base] assms(1,6) by simp
  moreover have "q_id r' = i" using assms(5) by (simp add: r'_def)
  ultimately have avoided: "\<forall>d' \<in> set (claims cs w'). dl_id d' \<noteq> IdInt i"
    if "\<forall>(t, wk, ls) \<in> set cs. withheld t r'" for cs
    using claims_avoid_withheld that by metis
  have "0 \<le> timedelta_seconds (retry_delay d base)" "timedelta_seconds (retry_delay d base) \<le> 60 * second"
    using timedelta_bounds [of "retry_delay d base" 60] retry_delay_bounds [OF assms(2), of d] by simp_all
  moreover have "retry_delay d base = min 60 (base * 2 ^ nat (dl_attempts d - 1))"
    by (cases "1 \<le> dl_attempts d") (simp_all add: retry_delay_def max_def)
  moreover have "\<forall>d' \<in> set (claims cs w'). dl_id d' \<noteq> IdInt i" if "exhausted d" for cs
    by (rule avoided) (use that in \<open>simp add: withheld_def r'_def lease_expired_def claimable_def case_prod_beta\<close>)
  moreover have "\<forall>d' \<in> set (claims cs w'). dl_id d' \<noteq> IdInt i"
    if "\<not> exhausted d" "\<forall>(t, wk, ls) \<in> set cs. t < q_available_at r'" for cs
    by (rule avoided) (use that in \<open>auto simp: withheld_def r'_def lease_expired_def claimable_def\<close>)
  ultimately show ?thesis
    using answer w' timedelta_near [of "retry_delay d base"] \<open>q_id r' = i\<close>
    by (intro conjI exI [of _ r']) (auto simp: r'_def exhausted_def)
qed

text \<open>The second failure of a delivery with base one second: two seconds later, and not before.\<close>

theorem retry_backs_off_witness:
  "\<exists>r'. queue (snd (retry_or_dead_letter sample_platform 7 (sample_delivery\<lparr>dl_attempts := 2\<rparr>) ''down'' 1 claimed_world)) = [r'] \<and>
    q_status r' = Q_PENDING \<and> q_available_at r' = 7 + 2 * second \<and>
    (\<forall>d' \<in> set (claims [(7 + second, ''w2'', 60)]
      (snd (retry_or_dead_letter sample_platform 7 (sample_delivery\<lparr>dl_attempts := 2\<rparr>) ''down'' 1 claimed_world))).
        dl_id d' \<noteq> IdInt 1)"
proof -
  let ?d = "sample_delivery\<lparr>dl_attempts := 2\<rparr>"
  let ?w = "snd (retry_or_dead_letter sample_platform 7 ?d ''down'' 1 claimed_world)"
  let ?r = "lease_row 0 ''w1'' 60 (new_queue_row 0 1 ''t'' 5 [])"
  have r: "?r \<in> set (queue claimed_world)" "q_id ?r = 1" by (simp_all add: claimed_queue lease_row_def new_queue_row_def)
  have run: "retry_or_dead_letter sample_platform 7 ?d ''down'' 1 claimed_world = (Inr False, ?w)"
    by (simp add: retry_or_dead_letter_def Let_def exhausted_def sample_delivery_def)
  have d: "dl_id ?d = IdInt 1" "dl_attempts ?d = 2" "dl_max_attempts ?d = 5" by (simp_all add: sample_delivery_def)
  from retry_backs_off [OF claimed_world_ok _ d(1) r run] d obtain r' where
    w: "?w = claimed_world\<lparr>queue := map (\<lambda>x. if q_id x = 1 then r' else x) (queue claimed_world)\<rparr>"
    and r': "q_status r' = Q_PENDING" "\<bar>of_int (q_available_at r' - 7) - 2 * of_int second\<bar> \<le> (1 / 2 :: rat)"
      "\<forall>cs. (\<forall>(t, wk, ls) \<in> set cs. t < q_available_at r') \<longrightarrow> (\<forall>d' \<in> set (claims cs ?w). dl_id d' \<noteq> IdInt 1)"
    by auto
  have "queue ?w = [r']" using r by (subst w) (simp add: claimed_queue)
  moreover have at: "q_available_at r' = 7 + 2 * second"
  proof -
    have "of_int \<bar>q_available_at r' - 7 - 2 * second\<bar> \<le> (1 / 2 :: rat)" using r'(2) by simp
    then have "of_int \<bar>q_available_at r' - 7 - 2 * second\<bar> < (of_int 1 :: rat)" by (rule le_less_trans) simp
    then have "\<bar>q_available_at r' - 7 - 2 * second\<bar> < 1" unfolding of_int_less_iff .
    then show ?thesis by simp
  qed
  moreover have "\<forall>d' \<in> set (claims [(7 + second, ''w2'', 60)] ?w). dl_id d' \<noteq> IdInt 1"
    by (rule mp [OF spec [OF r'(3)]]) (simp add: at second_def)
  ultimately show ?thesis using r'(1) by blast
qed

text \<open>
  Creation, enqueueing, claiming, acknowledging and extending keep at most one row of each workflow pending
  or in processing.
\<close>

theorem one_active_delivery:
  assumes "world_ok w" and "single_active w"
  shows "single_active (snd (create_workflow now st m w)) \<and> single_active (snd (enqueue now t m p w)) \<and>
    single_active (snd (claim now wk ls w)) \<and> single_active (snd (acknowledge pf now did w)) \<and>
    single_active (snd (extend_lease pf now d ls w))"
  using assms(2) create_single_active [OF assms]
    relatesD [OF enqueue_single_active, of w now t m p] relatesD [OF claim_single_active, of w now wk ls]
    relatesD [OF acknowledge_single_active, of w pf now did] relatesD [OF extend_single_active, of w pf now d ls]
  by blast

theorem one_active_delivery_witness:
  "single_active (snd (enqueue 5 ''t'' 5 [] claimed_world))"
proof -
  have "single_active claimed_world"
    by (auto simp: single_active_def claimed_queue row_count_def)
  from one_active_delivery [OF claimed_world_ok this] show ?thesis by blast
qed

text \<open>Enqueueing twice is enqueueing once: the second call answers the same delivery and changes nothing.\<close>

theorem enqueue_idempotent:
  assumes "enqueue now t m p w = (Inr i, w')"
  shows "enqueue now' t m' p' w' = (Inr i, w')"
proof (cases "find (active_row t) (queue w)")
  case (Some r)
  with assms show ?thesis by (auto simp: enqueue_def)
next
  case None
  with assms have "i = IdInt (next_queue_id w)" "w' = insert_queue_row now t m p w"
    by (auto simp: enqueue_def split: if_splits)
  with None show ?thesis
    by (simp add: enqueue_def insert_queue_row_def find_append new_queue_row_def active_row_def active_status_def)
qed

theorem enqueue_idempotent_witness:
  "enqueue 9 ''t'' 3 [] sample_world = (Inr (IdInt 1), sample_world)"
proof (rule enqueue_idempotent)
  show "enqueue 0 ''t'' 5 [] sample_world = (Inr (IdInt 1), sample_world)"
    by (simp add: enqueue_def sample_queue new_queue_row_def active_row_def active_status_def)
qed

end
