(* ===== verification/Sql_Evolution.thy ===== *)
theory Sql_Evolution
  imports Sql_Queue
begin

text \<open>
  How the durable records of the SQLite store may change: checkpoints only move to a higher version,
  a resolved approval stays resolved, a recorded tool result stays and stops further invocations
  under its key, the event log and the invocation log only grow. Every store operation evolves the
  world this way, and so does everything built from them (\<open>guarantee\<close>).
\<close>

definition action_key :: "platform \<Rightarrow> string \<Rightarrow> tool_name \<Rightarrow> dict \<Rightarrow> string" where
  \<comment> \<open>the action id of \<open>ToolGateway.action_id\<close> over this store\<close>
  "action_key pf task tool arguments =
     task @ '':'' @ tool_value tool @ '':'' @ slice_to 16 (arguments_hash pf arguments)"

definition calls :: "platform \<Rightarrow> string \<Rightarrow> world \<Rightarrow> invocation list" where
  \<comment> \<open>the invocations an external system received under an action id\<close>
  "calls pf k w = filter (\<lambda>iv. action_key pf (iv_task_id iv) (iv_tool iv) (iv_arguments iv) = k) (invocations w)"

definition versions_grow :: "world \<Rightarrow> world \<Rightarrow> bool" where
  "versions_grow w w' \<longleftrightarrow>
     (\<forall>t st. checkpoint w t = Some st \<longrightarrow>
        (\<exists>st'. checkpoint w' t = Some st' \<and> (st' = st \<or> version st < version st')))"

definition approvals_final :: "world \<Rightarrow> world \<Rightarrow> bool" where
  "approvals_final w w' \<longleftrightarrow>
     (\<forall>t a x. approval_of w t a = Some x \<longrightarrow> x \<noteq> ''PENDING'' \<longrightarrow> approval_of w' t a = Some x)"

definition results_final :: "platform \<Rightarrow> world \<Rightarrow> world \<Rightarrow> bool" where
  "results_final pf w w' \<longleftrightarrow>
     (\<forall>k x. ledger w k = Some x \<longrightarrow> ledger w' k = Some x \<and> calls pf k w' = calls pf k w)"

definition logs_grow :: "world \<Rightarrow> world \<Rightarrow> bool" where
  "logs_grow w w' \<longleftrightarrow> (\<exists>es. events w' = events w @ es) \<and> (\<exists>ivs. invocations w' = invocations w @ ivs)"

definition evolves :: "platform \<Rightarrow> world \<Rightarrow> world \<Rightarrow> bool" where
  "evolves pf w w' \<longleftrightarrow>
     (world_ok w \<longrightarrow>
        world_ok w' \<and> versions_grow w w' \<and> approvals_final w w' \<and> results_final pf w w' \<and> logs_grow w w')"

text \<open>
  What holds even when two deliveries of one workflow overlap: all of it but the last clause of
  \<open>results_final\<close>. A delivery that looked a result up before another one recorded it still calls its tool.
\<close>

definition results_kept :: "world \<Rightarrow> world \<Rightarrow> bool" where
  "results_kept w w' \<longleftrightarrow> (\<forall>k x. ledger w k = Some x \<longrightarrow> ledger w' k = Some x)"

definition endures :: "world \<Rightarrow> world \<Rightarrow> bool" where
  "endures w w' \<longleftrightarrow>
     (world_ok w \<longrightarrow>
        world_ok w' \<and> versions_grow w w' \<and> approvals_final w w' \<and> results_kept w w' \<and> logs_grow w w')"

lemmas evolution_defs = versions_grow_def approvals_final_def results_final_def logs_grow_def

lemma versions_grow_trans:
  assumes "versions_grow u v" and "versions_grow v w"
  shows "versions_grow u w"
  unfolding versions_grow_def
proof (intro allI impI)
  fix t st
  assume "checkpoint u t = Some st"
  then obtain st' where 1: "checkpoint v t = Some st'" "st' = st \<or> version st < version st'"
    using assms(1) by (auto simp: versions_grow_def)
  then obtain st'' where "checkpoint w t = Some st''" "st'' = st' \<or> version st' < version st''"
    using assms(2) by (auto simp: versions_grow_def)
  with 1 show "\<exists>st''. checkpoint w t = Some st'' \<and> (st'' = st \<or> version st < version st'')"
    by (intro exI [of _ st'']) auto
qed

lemma logs_grow_trans: "logs_grow u v \<Longrightarrow> logs_grow v w \<Longrightarrow> logs_grow u w"
  by (auto simp: logs_grow_def)

interpretation evolution: guarantee "evolves pf" for pf
proof
  show "evolves pf s s" for s by (auto simp: evolves_def evolution_defs)
  show "evolves pf s u" if "evolves pf s t" "evolves pf t u" for s t u
  proof -
    have "approvals_final s u" if "approvals_final s t" "approvals_final t u"
      using that unfolding approvals_final_def by blast
    moreover have "results_final pf s u" if "results_final pf s t" "results_final pf t u"
      using that unfolding results_final_def by (metis (no_types))
    ultimately show ?thesis using that unfolding evolves_def
      by (blast intro: versions_grow_trans logs_grow_trans)
  qed
qed

interpretation endurance: guarantee endures
proof
  show "endures s s" for s by (auto simp: endures_def results_kept_def evolution_defs)
  show "endures s u" if "endures s t" "endures t u" for s t u
  proof -
    have "approvals_final s u" if "approvals_final s t" "approvals_final t u"
      using that unfolding approvals_final_def by blast
    moreover have "results_kept s u" if "results_kept s t" "results_kept t u"
      using that unfolding results_kept_def by blast
    ultimately show ?thesis using that unfolding endures_def
      by (blast intro: versions_grow_trans logs_grow_trans)
  qed
qed

lemma evolves_endures: "evolves pf w w' \<Longrightarrow> endures w w'"
  by (auto simp: evolves_def endures_def results_final_def results_kept_def)

lemma relates_endures: "relates (evolves pf) m \<Longrightarrow> relates endures m"
  by (auto simp: relates_def intro: evolves_endures)

section \<open>The operations\<close>

lemma view_cong:
  "workflows w' = workflows w \<Longrightarrow> checkpoint w' = checkpoint w"
  "approvals w' = approvals w \<Longrightarrow> approval_of w' = approval_of w"
  "tool_results w' = tool_results w \<Longrightarrow> ledger w' = ledger w"
  "invocations w' = invocations w \<Longrightarrow> calls pf k w' = calls pf k w"
  by (simp_all add: checkpoint_def [abs_def] find_workflow_def approval_of_def [abs_def] find_approval_def
      ledger_def [abs_def] find_result_def calls_def)

lemma same_tables:
  "workflows w' = workflows w \<Longrightarrow> versions_grow w w'"
  "approvals w' = approvals w \<Longrightarrow> approvals_final w w'"
  "tool_results w' = tool_results w \<Longrightarrow> \<forall>k x. ledger w k = Some x \<longrightarrow> ledger w' k = Some x"
  using view_cong(1-3) [of w' w] by (simp_all add: versions_grow_def approvals_final_def)

lemma evolvesI:
  assumes "world_ok w \<Longrightarrow> world_ok w'"
    and "world_ok w \<Longrightarrow> versions_grow w w'"
    and "world_ok w \<Longrightarrow> approvals_final w w'"
    and "world_ok w \<Longrightarrow> \<forall>k x. ledger w k = Some x \<longrightarrow> ledger w' k = Some x"
    and "events w' = events w @ es" and "invocations w' = invocations w"
  shows "evolves pf w w'"
  using assms view_cong(4) [OF assms(6)] by (auto simp: evolves_def results_final_def logs_grow_def)

lemma evolves_frame:
  assumes "keeps world_ok m"
    and "\<And>w. workflows (snd (m w)) = workflows w \<and> approvals (snd (m w)) = approvals w \<and>
      tool_results (snd (m w)) = tool_results w \<and> invocations (snd (m w)) = invocations w"
    and "\<And>w. \<exists>es. events (snd (m w)) = events w @ es"
  shows "relates (evolves pf) m"
proof (rule relatesI)
  fix w
  obtain es where "events (snd (m w)) = events w @ es" using assms(3) by blast
  then show "evolves pf w (snd (m w))"
    using relatesD [OF assms(1), of w] assms(2) [of w]
    by (intro evolvesI same_tables) simp_all
qed

lemma evolves_readonly: "(\<And>w. snd (m w) = w) \<Longrightarrow> relates (evolves pf) m"
  by (rule relatesI) (simp add: evolution.R_refl)

lemma evolves_enqueue: "relates (evolves pf) (enqueue now t m p)"
  by (rule evolves_frame [OF keeps_ok_enqueue]) (auto simp: enqueue_def insert_queue_row_def split: option.split)

lemma evolves_claim: "relates (evolves pf) (claim now wk ls)"
  by (rule evolves_frame [OF keeps_ok_claim]) (simp_all add: claim_def Let_def split: option.split)

lemma evolves_acknowledge: "relates (evolves pf) (acknowledge pf now d)"
  by (rule evolves_frame [OF keeps_ok_acknowledge]) (auto simp: acknowledge_def)

lemma evolves_extend: "relates (evolves pf) (extend_lease pf now d ls)"
  by (rule evolves_frame [OF keeps_ok_extend]) (auto simp: extend_lease_def)

lemma evolves_retry: "relates (evolves pf) (retry_or_dead_letter pf now d e b)"
  by (rule evolves_frame [OF keeps_ok_retry]) (auto simp: retry_or_dead_letter_def Let_def)

lemma evolves_event: "relates (evolves pf) (record_event now t ty p)"
  by (rule evolves_frame [OF keeps_ok_event]) (auto simp: record_event_def record_event_row_def)

lemma checkpoint_append:
  "find_workflow (wr_task_id r) w = None \<Longrightarrow>
    checkpoint (w\<lparr>workflows := workflows w @ [r]\<rparr>) = (checkpoint w)(wr_task_id r \<mapsto> wr_state r)"
  by (rule ext) (auto simp: checkpoint_def find_workflow_def find_append split: option.split)

lemma checkpoint_create:
  assumes "find_workflow (task_id st) w = None"
  shows "checkpoint (snd (create_workflow now st m w)) = (checkpoint w)(task_id st \<mapsto> st)"
proof -
  let ?w1 = "w\<lparr>workflows := workflows w @ [\<lparr>wr_task_id = task_id st, wr_state = st, wr_version = version st,
      wr_updated_at = now\<rparr>]\<rparr>"
  have "checkpoint (snd (create_workflow now st m w)) = checkpoint ?w1"
    by (rule view_cong(1)) (simp add: create_workflow_def assms Let_def record_event_row_def insert_queue_row_def)
  with assms checkpoint_append [of "\<lparr>wr_task_id = task_id st, wr_state = st, wr_version = version st,
      wr_updated_at = now\<rparr>" w]
  show ?thesis by simp
qed

lemma create_workflow_frame:
  "approvals (snd (create_workflow now st m w)) = approvals w"
  "tool_results (snd (create_workflow now st m w)) = tool_results w"
  "invocations (snd (create_workflow now st m w)) = invocations w"
  "\<exists>es. events (snd (create_workflow now st m w)) = events w @ es"
  by (simp_all add: create_workflow_def Let_def record_event_row_def insert_queue_row_def)

lemma evolves_create: "relates (evolves pf) (create_workflow now st m)"
proof (rule relatesI)
  fix w
  let ?w' = "snd (create_workflow now st m w)"
  obtain es where es: "events ?w' = events w @ es" using create_workflow_frame(4) by blast
  have "versions_grow w ?w'"
  proof (cases "find_workflow (task_id st) w")
    case None
    then have "checkpoint w (task_id st) = None" by (simp add: checkpoint_def)
    then show ?thesis unfolding versions_grow_def checkpoint_create [OF None] by auto
  next
    case (Some r)
    then show ?thesis by (simp add: create_workflow_def versions_grow_def)
  qed
  moreover have "approvals_final w ?w'" "\<forall>k x. ledger w k = Some x \<longrightarrow> ledger ?w' k = Some x"
    by (rule same_tables, rule create_workflow_frame)+
  ultimately show "evolves pf w ?w'"
    using relatesD [OF keeps_ok_create, of w now st m] create_workflow_frame(3)
    by (intro evolvesI [OF _ _ _ _ es]) auto
qed

lemma versions_grow_put:
  assumes "checkpoint w (task_id st) = Some old" and "version old < version st"
  shows "versions_grow w (put_workflow now st w)"
  using assms by (auto simp: versions_grow_def checkpoint_put)

lemma put_views [simp]:
  "approval_of (put_workflow now st w) = approval_of w"
  "ledger (put_workflow now st w) = ledger w"
  by (rule view_cong, simp)+

lemma evolves_put:
  assumes "world_ok w \<Longrightarrow> \<exists>old. checkpoint w (task_id st) = Some old \<and> version old < version st"
  shows "evolves pf w (put_workflow now st w)"
proof (rule evolvesI [where es = "[]"])
  show "versions_grow w (put_workflow now st w)" if "world_ok w"
    using assms [OF that] versions_grow_put by blast
qed (simp_all add: world_ok_put approvals_final_def)

lemma evolves_save: "relates (evolves pf) (save_workflow now st v)"
proof (rule relatesI)
  fix w
  show "evolves pf w (snd (save_workflow now st v w))"
  proof (cases "world_ok w")
    case False
    then show ?thesis by (simp add: evolves_def)
  next
    case True
    then show ?thesis
      by (auto simp: save_workflow_eq evolution.R_refl intro!: evolves_put)
  qed
qed

lemma evolves_save_result: "relates (evolves pf) (save_tool_result pf now k t n a r)"
proof (rule relatesI)
  fix w
  have "ledger (snd (save_tool_result pf now k t n a r w)) k' = Some x" if "ledger w k' = Some x" for k' x
    using sqlite_ledger.stored_after_save [OF TrueI, of pf now k t n a r w] that
    by (auto split: option.splits)
  moreover have "workflows (snd (save_tool_result pf now k t n a r w)) = workflows w"
    "approvals (snd (save_tool_result pf now k t n a r w)) = approvals w"
    "events (snd (save_tool_result pf now k t n a r w)) = events w @ []"
    "invocations (snd (save_tool_result pf now k t n a r w)) = invocations w"
    by (simp_all add: save_tool_result_def)
  ultimately show "evolves pf w (snd (save_tool_result pf now k t n a r w))"
    using relatesD [OF keeps_ok_save_result, of w pf now k t n a r]
    by (intro evolvesI [where es = "[]"] same_tables(1,2)) simp_all
qed

lemma evolves_create_approval: "relates (evolves pf) (create_approval now t a)"
proof (rule relatesI)
  fix w
  have "approval_of (snd (create_approval now t a w)) t' a' = Some x"
    if "world_ok w" "approval_of w t' a' = Some x" for t' a' x
    using sqlite_approvals.final_under_create [of w t' a' x undefined now t a] that by simp
  moreover have "workflows (snd (create_approval now t a w)) = workflows w"
    "tool_results (snd (create_approval now t a w)) = tool_results w"
    "events (snd (create_approval now t a w)) = events w @ []"
    "invocations (snd (create_approval now t a w)) = invocations w"
    by (simp_all add: create_approval_def)
  ultimately show "evolves pf w (snd (create_approval now t a w))"
    using relatesD [OF keeps_ok_create_approval, of w now t a]
    by (intro evolvesI [where es = "[]"] same_tables(1,3)) (simp_all add: approvals_final_def)
qed

lemma evolves_resolve: "relates (evolves pf) (resolve_approval now t a yes who why)"
proof (rule relatesI)
  fix w
  have "approval_of (snd (resolve_approval now t a yes who why w)) t' a' = Some x"
    if "world_ok w" "approval_of w t' a' = Some x" "x \<noteq> ''PENDING''" for t' a' x
    using sqlite_approvals.final_under_resolve [of w t' a' x undefined now t a yes who why] that by simp
  moreover have "workflows (snd (resolve_approval now t a yes who why w)) = workflows w"
    "tool_results (snd (resolve_approval now t a yes who why w)) = tool_results w"
    "events (snd (resolve_approval now t a yes who why w)) = events w @ []"
    "invocations (snd (resolve_approval now t a yes who why w)) = invocations w"
    by (simp_all add: resolve_approval_def Let_def)
  ultimately show "evolves pf w (snd (resolve_approval now t a yes who why w))"
    using relatesD [OF keeps_ok_resolve, of w now t a yes who why]
    by (intro evolvesI [where es = "[]"] same_tables(1,3)) (simp_all add: approvals_final_def)
qed

text \<open>A replay puts the workflow back with the next version, resets the row and logs the event.\<close>

definition replayed_state :: "int \<Rightarrow> workflow_state \<Rightarrow> workflow_state" where
  "replayed_state now st = st\<lparr>status := QUEUED, last_error := None, version := version st + 1, updated_at := now\<rparr>"

definition replayed_row :: "int \<Rightarrow> int \<Rightarrow> queue_row \<Rightarrow> queue_row" where
  "replayed_row now m r = r\<lparr>q_status := Q_PENDING, q_attempts := 0, q_max_attempts := m, q_available_at := now,
     q_lease_until := None, q_worker_id := None, q_last_error := None, q_updated_at := now\<rparr>"

definition dead_row :: "platform \<Rightarrow> delivery_id \<Rightarrow> string \<Rightarrow> queue_row \<Rightarrow> bool" where
  "dead_row pf did t r \<longleftrightarrow> id_matches pf did (q_id r) \<and> q_task_id r = t \<and> q_status r = Q_DEAD"

lemma replay_eq:
  assumes ok: "world_ok w"
  shows "replay_dead_letter pf now did t m who why w =
    (case (find (dead_row pf did t) (queue w), checkpoint w t) of
       (Some row, Some st) \<Rightarrow>
         (let w1 = put_workflow now (replayed_state now st) w
          in (Inr (Some (replayed_state now st)),
              record_event_row now t ''DLQ_REPLAYED''
                [(''delivery_id'', json_of_id did), (''actor'', JStr who), (''reason'', JStr why)]
                (w1\<lparr>queue := update_where (\<lambda>r. id_matches pf did (q_id r) \<and> q_status r = Q_DEAD)
                    (replayed_row now m) (queue w1)\<rparr>)))
     | _ \<Rightarrow> (Inr None, w))"
proof (cases "find (dead_row pf did t) (queue w)")
  case None
  then show ?thesis by (simp add: replay_dead_letter_def dead_row_def [abs_def])
next
  case row: (Some row)
  then have t: "q_task_id row = t" by (auto dest: find_SomeD simp: dead_row_def)
  show ?thesis
  proof (cases "find_workflow t w")
    case None
    with row t show ?thesis by (simp add: replay_dead_letter_def dead_row_def [abs_def] checkpoint_def)
  next
    case (Some wrow)
    note facts = world_ok_row [OF ok Some]
    let ?st = "replayed_state now (wr_state wrow)"
    have put: "w\<lparr>workflows := update_where (\<lambda>r. wr_task_id r = t \<and> wr_version r = wr_version wrow)
          (\<lambda>r. r\<lparr>wr_state := ?st, wr_version := wr_version wrow + 1, wr_updated_at := now\<rparr>) (workflows w)\<rparr> =
        put_workflow now ?st w"
      unfolding put_workflow_def
    proof (rule arg_cong [of _ _ "\<lambda>x. w\<lparr>workflows := x\<rparr>"], rule update_where_cong)
      fix r
      assume "r \<in> set (workflows w)"
      then show "(if wr_task_id r = t \<and> wr_version r = wr_version wrow
          then r\<lparr>wr_state := ?st, wr_version := wr_version wrow + 1, wr_updated_at := now\<rparr> else r) =
        (if wr_task_id r = task_id ?st then stored_row now ?st r else r)"
        using find_workflow_unique [OF ok Some, of r] facts
        by (cases "r = wrow") (auto simp: stored_row_def replayed_state_def)
    qed
    have st: "(wr_state wrow)\<lparr>status := QUEUED, last_error := None, version := wr_version wrow + 1, updated_at := now\<rparr> = ?st"
      using facts by (simp add: replayed_state_def)
    have id: "task_id ?st = t" "version ?st = wr_version wrow + 1" "checkpoint w t = Some (wr_state wrow)"
      using facts Some by (simp_all add: replayed_state_def checkpoint_def)
    show ?thesis
      using row t Some
      by (simp add: replay_dead_letter_def dead_row_def [abs_def] id facts put [symmetric] st Let_def
          replayed_row_def [abs_def])
  qed
qed

lemma evolves_replay: "relates (evolves pf) (replay_dead_letter pf now did t m who why)"
proof (rule relatesI)
  fix w
  let ?w' = "snd (replay_dead_letter pf now did t m who why w)"
  show "evolves pf w ?w'"
  proof (cases "world_ok w")
    case False
    then show ?thesis by (simp add: evolves_def)
  next
    case ok: True
    show ?thesis
    proof (cases "(find (dead_row pf did t) (queue w), checkpoint w t)")
      case (Pair a b)
      show ?thesis
      proof (cases "a = None \<or> b = None")
        case True
        with Pair have "?w' = w" by (auto simp: replay_eq [OF ok] split: option.split)
        then show ?thesis by (simp add: evolution.R_refl)
      next
        case False
        then obtain row st where ab: "a = Some row" "b = Some st" by (cases a; cases b) auto
        let ?w1 = "put_workflow now (replayed_state now st) w"
        have "task_id st = t" using ab Pair ok by (auto simp: checkpoint_def dest: world_ok_row)
        then have "evolves pf w ?w1"
          using ab Pair by (intro evolves_put) (simp add: replayed_state_def)
        moreover have "evolves pf ?w1 ?w'"
        proof (rule evolvesI)
          show "world_ok ?w'" using relatesD [OF keeps_ok_replay] ok by blast
          show "versions_grow ?w1 ?w'"
            by (rule same_tables) (use ab Pair in \<open>simp add: replay_eq [OF ok] Let_def record_event_row_def\<close>)
          show "approvals_final ?w1 ?w'" "\<forall>k x. ledger ?w1 k = Some x \<longrightarrow> ledger ?w' k = Some x"
            by (rule same_tables, use ab Pair in \<open>simp add: replay_eq [OF ok] Let_def record_event_row_def\<close>)+
        qed (use ab Pair in \<open>simp_all add: replay_eq [OF ok] Let_def record_event_row_def\<close>)
        ultimately show ?thesis by (rule evolution.R_trans)
      qed
    qed
  qed
qed

lemmas evolves_operations = evolves_enqueue evolves_claim evolves_acknowledge evolves_extend evolves_retry
  evolves_event evolves_create evolves_save evolves_save_result evolves_create_approval evolves_resolve
  evolves_replay

lemma readers [simp]:
  "snd (get_workflow t w) = w" "snd (list_workflows l s w) = w" "snd (list_events t w) = w"
  "snd (get_tool_result pf k args w) = w" "snd (approval_status t a w) = w" "snd (queue_counts w) = w"
  "snd (list_dead_letters l w) = w"
  by (auto simp: get_workflow_def list_workflows_def list_events_def get_tool_result_def
      approval_status_def queue_counts_def list_dead_letters_def Let_def split: option.split)

lemmas evolves_readers = readers [THEN evolves_readonly]

lemmas endures_enqueue = evolves_enqueue [THEN relates_endures]
  and endures_claim = evolves_claim [THEN relates_endures]
  and endures_acknowledge = evolves_acknowledge [THEN relates_endures]
  and endures_extend = evolves_extend [THEN relates_endures]
  and endures_retry = evolves_retry [THEN relates_endures]
  and endures_event = evolves_event [THEN relates_endures]
  and endures_create = evolves_create [THEN relates_endures]
  and endures_save = evolves_save [THEN relates_endures]
  and endures_save_result = evolves_save_result [THEN relates_endures]
  and endures_create_approval = evolves_create_approval [THEN relates_endures]
  and endures_resolve = evolves_resolve [THEN relates_endures]
  and endures_replay = evolves_replay [THEN relates_endures]

lemmas endures_operations = evolves_operations [THEN relates_endures]
lemmas endures_readers = evolves_readers [THEN relates_endures]

section \<open>Action ids\<close>

lemma split_at_last:
  assumes "c \<notin> set x" and "c \<notin> set y" and "t @ c # x = u @ c # y"
  shows "t = u \<and> x = y"
proof -
  have "rev x @ c # rev t = rev y @ c # rev u" using arg_cong [OF assms(3), of rev] by simp
  moreover have "takeWhile (\<lambda>z. z \<noteq> c) (rev x @ c # rev t) = rev x" "takeWhile (\<lambda>z. z \<noteq> c) (rev y @ c # rev u) = rev y"
    using assms(1,2) by (simp_all add: takeWhile_tail takeWhile_append)
  ultimately have "rev x = rev y" by metis
  with assms(3) show ?thesis by simp
qed

text \<open>
  Action ids do not collide by their layout: when the digest has its sixteen characters, equal ids
  mean the same workflow, the same tool and the same digest of the arguments - also for identifiers
  that contain the separator. The order of the arguments does not matter for the id.
\<close>

theorem action_ids_distinguish:
  assumes "\<And>s. 16 \<le> length (sha256_hex pf s)"
    and "action_key pf t tool a = action_key pf t' tool' a'"
  shows "t = t' \<and> tool = tool' \<and> slice_to 16 (arguments_hash pf a) = slice_to 16 (arguments_hash pf a')"
proof -
  have len: "length (slice_to 16 (arguments_hash pf x)) = 16" for x
    using assms(1) [of "canonical pf x"] by (simp add: slice_to_def arguments_hash_def)
  have "(t @ CHR '':'' # tool_value tool) @ CHR '':'' # slice_to 16 (arguments_hash pf a) =
      (t' @ CHR '':'' # tool_value tool') @ CHR '':'' # slice_to 16 (arguments_hash pf a')"
    using assms(2) by (simp add: action_key_def)
  then have "t @ CHR '':'' # tool_value tool = t' @ CHR '':'' # tool_value tool'"
    and d: "slice_to 16 (arguments_hash pf a) = slice_to 16 (arguments_hash pf a')"
    by (simp_all add: append_eq_append_conv len del: append_assoc)
  with split_at_last [OF tool_value_no_colon tool_value_no_colon] d show ?thesis by fastforce
qed

theorem action_ids_distinguish_witness:
  "action_key (sample_platform\<lparr>sha256_hex := (\<lambda>s. replicate 64 (CHR ''0''))\<rparr>) ''a:read_alert'' READ_ALERT [] \<noteq>
   action_key (sample_platform\<lparr>sha256_hex := (\<lambda>s. replicate 64 (CHR ''0''))\<rparr>) ''a'' READ_ALERT []"
  using action_ids_distinguish [of "sample_platform\<lparr>sha256_hex := (\<lambda>s. replicate 64 (CHR ''0''))\<rparr>"
      "''a:read_alert''" READ_ALERT "[]" "''a''" READ_ALERT "[]"] by auto

text \<open>The arguments hash does not depend on the order in which the arguments were given.\<close>

theorem arguments_hash_order_free:
  assumes "mset a = mset b" and "distinct (map fst a)"
  shows "arguments_hash pf a = arguments_hash pf b"
  using dumps_sorted_perm [OF assms] by (simp only: arguments_hash_def canonical_def)

theorem arguments_hash_order_free_witness:
  "arguments_hash sample_platform [(''service'', JStr ''a''), (''environment'', JStr ''test'')] =
   arguments_hash sample_platform [(''environment'', JStr ''test''), (''service'', JStr ''a'')]"
  by (rule arguments_hash_order_free) (simp_all add: add_mset_commute)

section \<open>Properties of the store operations\<close>

text \<open>
  No update is lost: after a save that succeeded, a second save with the same expected version is
  refused and changes nothing, and what the next delivery loads is the first one's checkpoint.
\<close>

theorem no_update_lost:
  assumes "world_ok w" and "save_workflow now a v w = (Inr a', w')" and "task_id b = task_id a"
  shows "save_workflow now' b v w' = (Inl (ConcurrentUpdateError (''stale checkpoint for '' @ task_id b)), w') \<and>
    get_workflow (task_id a) w' = (Inr (Some a'), w') \<and> version a' = v + 1"
proof -
  have s: "rs_save_workflow (sqlite_store undefined now) a v w = (Inr a', w')" using assms(2) by simp
  have ok: "world_ok w'" using relatesD [OF keeps_ok_save, of w now a v] assms(1,2) by simp
  have l: "get_workflow (task_id a) w' = (Inr (Some a'), w')"
    using sqlite_checkpoints.load_after_save [OF assms(1) s] by simp
  have v: "version a' = v + 1" using assms(1,2) by (auto simp: save_workflow_eq split: if_splits)
  from l have "checkpoint w' (task_id b) = Some a'" using assms(3) by (simp add: get_workflow_checkpoint)
  then have "save_workflow now' b v w' = (Inl (ConcurrentUpdateError (''stale checkpoint for '' @ task_id b)), w')"
    using v by (simp add: save_workflow_eq [OF ok])
  with l v show ?thesis by blast
qed

theorem no_update_lost_witness:
  "\<exists>st w'. save_workflow 1 (new_workflow ''t'' ''restore checkout'' ''s'' 0) 0 sample_world = (Inr st, w') \<and>
     fst (save_workflow 2 (new_workflow ''t'' ''another goal'' ''s'' 0) 0 w') \<noteq> Inr st \<and>
     get_workflow ''t'' w' = (Inr (Some st), w')"
proof -
  have "checkpoint sample_world ''t'' = Some (new_workflow ''t'' ''restore checkout'' ''s'' 0)"
    unfolding sample_world_def
    by (subst checkpoint_create) (simp_all add: empty_world_def find_workflow_def new_workflow_def)
  then obtain st w' where s: "save_workflow 1 (new_workflow ''t'' ''restore checkout'' ''s'' 0) 0 sample_world = (Inr st, w')"
    by (simp add: save_workflow_eq [OF sample_world_ok] new_workflow_def)
  from no_update_lost [OF sample_world_ok s, of "new_workflow ''t'' ''another goal'' ''s'' 0" 2] s
  show ?thesis by (auto simp: new_workflow_def)
qed

text \<open>
  The ledger of tool results is write-once: after a result was recorded under a free key, every reader
  with arguments of the same hash gets it, every other reader is told that the key was reused, and a
  second recording changes nothing.
\<close>

theorem results_write_once:
  assumes "ledger w k = None"
  shows "\<exists>w'. save_tool_result pf now k t n a r w = (Inr (), w') \<and>
    (\<forall>b. get_tool_result pf k b w' =
      (if arguments_hash pf b = arguments_hash pf a then Inr (Some r)
       else Inl (ValueError ''idempotency key reused with different arguments''), w')) \<and>
    (\<forall>now' t' n' a' r'. save_tool_result pf now' k t' n' a' r' w' = (Inr (), w'))"
proof -
  obtain w' where w': "save_tool_result pf now k t n a r w = (Inr (), w')"
    "ledger w' k = Some (arguments_hash pf a, r)"
    using sqlite_ledger.save_first [OF TrueI assms, of pf now t n a r] by auto
  then have "find_result k w' \<noteq> None" by (metis ledger_None option.distinct(1))
  then have "save_tool_result pf now' k t' n' a' r' w' = (Inr (), w')" for now' t' n' a' r'
    by (simp add: save_tool_result_def)
  moreover have "get_tool_result pf k b w' =
      (if arguments_hash pf b = arguments_hash pf a then Inr (Some r)
       else Inl (ValueError ''idempotency key reused with different arguments''), w')" for b
    using w'(2) by (auto simp: get_tool_result_def ledger_def)
  ultimately show ?thesis using w'(1) by blast
qed

theorem results_write_once_witness:
  "\<exists>w'. save_tool_result sample_platform 0 ''k'' ''t'' ''n'' [] [(''ok'', JBool True)] sample_world = (Inr (), w') \<and>
     get_tool_result sample_platform ''k'' [] w' = (Inr (Some [(''ok'', JBool True)]), w')"
proof -
  have "ledger sample_world ''k'' = None"
    by (simp add: ledger_def find_result_def sample_world_def create_workflow_frame empty_world_def)
  from results_write_once [OF this, of sample_platform 0 "''t''" "''n''" "[]" "[(''ok'', JBool True)]"]
  show ?thesis by auto
qed

text \<open>
  One human decision per action: a pending approval takes the first resolution, whatever comes later
  for the same action is refused without effect, and creating the approval again does not reopen it.
\<close>

theorem approval_resolved_once:
  assumes "world_ok w" and "approval_of w t a = Some ''PENDING''"
  shows "\<exists>w'. resolve_approval now t a yes who why w = (Inr (), w') \<and>
    approval_of w' t a = Some (if yes then ''APPROVED'' else ''REJECTED'') \<and>
    (\<forall>now' yes' who' why'.
       resolve_approval now' t a yes' who' why' w' = (Inl (ValueError ''approval is not pending''), w')) \<and>
    (\<forall>now'. approval_of (snd (create_approval now' t a w')) t a = approval_of w' t a)"
proof -
  obtain w' where w': "resolve_approval now t a yes who why w = (Inr (), w')" "world_ok w'"
    "approval_of w' t a = Some (if yes then ''APPROVED'' else ''REJECTED'')"
    using sqlite_approvals.resolve_pending [OF assms, of undefined now yes who why] by auto
  have "resolve_approval now' t a yes' who' why' w' = (Inl (ValueError ''approval is not pending''), w')"
    for now' yes' who' why'
    using w'(2,3) by (simp add: resolve_approval_eq)
  moreover have "approval_of (snd (create_approval now' t a w')) t a = approval_of w' t a" for now'
    using sqlite_approvals.final_under_create [OF w'(2,3), of undefined now' t a] w'(3) by simp
  ultimately show ?thesis using w' by blast
qed

theorem approval_resolved_once_witness:
  "approval_of (snd (resolve_approval 1 ''t'' ''a'' True ''ann'' None (snd (create_approval 0 ''t'' ''a'' sample_world)))) ''t'' ''a'' =
     Some ''APPROVED''"
proof -
  have ok: "world_ok (snd (create_approval 0 ''t'' ''a'' sample_world))"
    using relatesD [OF keeps_ok_create_approval] sample_world_ok by auto
  have "approval_of sample_world ''t'' ''a'' = None"
    by (simp add: approval_of_def find_approval_def sample_world_def create_workflow_frame empty_world_def)
  then have "approval_of (snd (create_approval 0 ''t'' ''a'' sample_world)) ''t'' ''a'' = Some ''PENDING''"
    using sqlite_approvals.create_new [OF sample_world_ok, of "''t''" "''a''" undefined 0] by auto
  from approval_resolved_once [OF ok this, of 1 True "''ann''" None] show ?thesis by auto
qed

end
