(* ===== verification/Interruption.thy ===== *)
theory Interruption
  imports Runtime_Laws Sql_Evolution
begin

text \<open>
  Processes that share the store, and their end at any point. Each store operation is one transaction or
  one statement of SQLite: it happens at once, or not at all when the process is gone. Between two
  operations anybody else may have written to the store. A program of this kind runs on a world and a
  number of operations it is still given; its surroundings say for each of them when it happens and what
  the others did just before it. The locale \<open>sql_view\<close> states for all operations that they are the plain
  ones up to this (\<open>interruptible\<close>), with the relation of what the others do as a parameter.
\<close>

type_synonym 's surroundings = "nat \<Rightarrow> int \<times> ('s \<Rightarrow> 's)"

definition quiet :: "int \<Rightarrow> 's surroundings" where
  "quiet now = (\<lambda>_. (now, \<lambda>w. w))"

definition contended :: "'s surroundings \<Rightarrow> (int \<Rightarrow> ('s, 'a) act) \<Rightarrow> ('s \<times> nat, 'a) act" where
  "contended env m = (\<lambda>(w, n). case n of
      0 \<Rightarrow> (Inl Process_Killed, (w, 0))
    | Suc k \<Rightarrow> (case env k of (now, others) \<Rightarrow> (case m now (others w) of (r, w') \<Rightarrow> (r, (w', k)))))"

definition contended_store :: "'s surroundings \<Rightarrow> (int \<Rightarrow> 's runtime_store) \<Rightarrow> ('s \<times> nat) runtime_store" where
  "contended_store env S =
     \<lparr>rs_create_workflow = (\<lambda>st m. contended env (\<lambda>now. rs_create_workflow (S now) st m)),
      rs_get_workflow = (\<lambda>t. contended env (\<lambda>now. rs_get_workflow (S now) t)),
      rs_list_workflows = (\<lambda>l x. contended env (\<lambda>now. rs_list_workflows (S now) l x)),
      rs_save_workflow = (\<lambda>st v. contended env (\<lambda>now. rs_save_workflow (S now) st v)),
      rs_enqueue = (\<lambda>t m p. contended env (\<lambda>now. rs_enqueue (S now) t m p)),
      rs_claim = (\<lambda>wk ls. contended env (\<lambda>now. rs_claim (S now) wk ls)),
      rs_extend_lease = (\<lambda>d ls. contended env (\<lambda>now. rs_extend_lease (S now) d ls)),
      rs_acknowledge = (\<lambda>did. contended env (\<lambda>now. rs_acknowledge (S now) did)),
      rs_retry_or_dead_letter = (\<lambda>d e b. contended env (\<lambda>now. rs_retry_or_dead_letter (S now) d e b)),
      rs_record_event = (\<lambda>t ty p. contended env (\<lambda>now. rs_record_event (S now) t ty p)),
      rs_list_events = (\<lambda>t. contended env (\<lambda>now. rs_list_events (S now) t)),
      rs_arguments_hash = rs_arguments_hash (S 0),
      rs_get_tool_result = (\<lambda>k a. contended env (\<lambda>now. rs_get_tool_result (S now) k a)),
      rs_save_tool_result = (\<lambda>k t n a r. contended env (\<lambda>now. rs_save_tool_result (S now) k t n a r)),
      rs_create_approval = (\<lambda>t a. contended env (\<lambda>now. rs_create_approval (S now) t a)),
      rs_resolve_approval = (\<lambda>t a yes who why. contended env (\<lambda>now. rs_resolve_approval (S now) t a yes who why)),
      rs_approval_status = (\<lambda>t a. contended env (\<lambda>now. rs_approval_status (S now) t a)),
      rs_queue_counts = contended env (\<lambda>now. rs_queue_counts (S now)),
      rs_list_dead_letters = (\<lambda>l. contended env (\<lambda>now. rs_list_dead_letters (S now) l)),
      rs_replay_dead_letter =
        (\<lambda>did t m who why. contended env (\<lambda>now. rs_replay_dead_letter (S now) did t m who why))\<rparr>"

definition surroundings_within :: "('s \<Rightarrow> 's \<Rightarrow> bool) \<Rightarrow> 's surroundings \<Rightarrow> bool" where
  "surroundings_within P env \<longleftrightarrow> (\<forall>k w. P w (snd (env k) w))"

lemma surroundings_within_mono [mono]:
  "(\<And>x y. P x y \<longrightarrow> Q x y) \<Longrightarrow> surroundings_within P env \<longrightarrow> surroundings_within Q env"
  by (auto simp: surroundings_within_def)

lemma quiet_within: "(\<And>w. P w w) \<Longrightarrow> surroundings_within P (quiet now)"
  by (simp add: surroundings_within_def quiet_def)

section \<open>Interruptible operations\<close>

definition interruptible ::
  "('s \<Rightarrow> 's \<Rightarrow> bool) \<Rightarrow> ('t \<Rightarrow> 's) \<Rightarrow> ('t, 'a) act \<Rightarrow> (int \<Rightarrow> ('s, 'a) act) \<Rightarrow> bool" where
  "interruptible E view m m0 \<longleftrightarrow>
     (\<forall>s. (fst (m s) = Inl Process_Killed \<and> view (snd (m s)) = view s) \<or>
          (\<exists>w now. E (view s) w \<and> fst (m s) = fst (m0 now w) \<and> view (snd (m s)) = snd (m0 now w)))"

lemma interruptible_self: "interruptible (=) (\<lambda>s. s) (m now) m"
  by (auto simp: interruptible_def)

lemma interruptible_contended:
  assumes "surroundings_within E env"
  shows "interruptible E fst (contended env m) m"
  unfolding interruptible_def
proof
  fix s :: "'a \<times> nat"
  obtain w n where s: "s = (w, n)" by (cases s)
  show "(fst (contended env m s) = Inl Process_Killed \<and> fst (snd (contended env m s)) = fst s) \<or>
      (\<exists>w now. E (fst s) w \<and> fst (contended env m s) = fst (m now w) \<and> fst (snd (contended env m s)) = snd (m now w))"
  proof (cases n)
    case 0
    with s show ?thesis by (simp add: contended_def)
  next
    case (Suc k)
    obtain now f where f: "env k = (now, f)" by (cases "env k")
    have "E w (f w)" using assms f unfolding surroundings_within_def by (metis snd_conv)
    with s Suc f show ?thesis
      by (intro disjI2 exI [of _ "f w"] exI [of _ now]) (simp add: contended_def split: prod.split)
  qed
qed

lemma interruptible_cases:
  assumes "interruptible E view m m0"
  obtains s' where "m s = (Inl Process_Killed, s')" "view s' = view s"
  | w now s' where "E (view s) w" "m s = (fst (m0 now w), s')" "view s' = snd (m0 now w)"
  using assms unfolding interruptible_def by (metis prod.collapse)

lemma interruptible_relates:
  assumes m: "interruptible E view m m0" and r: "\<And>now. relates G (m0 now)" and G: "guarantee G"
    and E: "\<And>w w'. E w w' \<Longrightarrow> G w w'"
  shows "relates (\<lambda>s t. G (view s) (view t)) m"
proof (rule relatesI)
  fix s
  from m show "G (view s) (view (snd (m s)))"
  proof (cases rule: interruptible_cases [where s = s])
    case (1 s')
    then show ?thesis by (simp add: guarantee.R_refl [OF G])
  next
    case (2 w now s')
    with relatesD [OF r, of w now] E [OF 2(1)] show ?thesis by (auto intro: guarantee.R_trans [OF G])
  qed
qed

lemma interruptible_ensures:
  assumes m: "interruptible E view m m0" and e: "\<And>now. ensures I (m0 now) Q"
    and E: "\<And>w w'. E w w' \<Longrightarrow> I w \<Longrightarrow> I w'"
  shows "ensures (\<lambda>s. I (view s)) m Q"
proof (rule ensuresI)
  fix s
  assume I: "I (view s)"
  from m show "wp m (\<lambda>x t. I (view t) \<and> Q x) (\<lambda>_ t. I (view t)) s"
  proof (cases rule: interruptible_cases [where s = s])
    case (1 s')
    with I show ?thesis by (simp add: wp_def)
  next
    case (2 w now s')
    with ensuresD [OF e [of now] E [OF 2(1) I]] show ?thesis
      by (auto simp: wp_def split: prod.splits sum.splits)
  qed
qed

section \<open>Stores over the SQLite world\<close>

locale sql_view =
  fixes view :: "'s \<Rightarrow> world"
    and E :: "world \<Rightarrow> world \<Rightarrow> bool"
    and S :: "'s runtime_store"
    and pf :: platform
  assumes others_endure: "E w w' \<Longrightarrow> endures w w'"
    and hash: "rs_arguments_hash S = arguments_hash pf"
    and i_create: "interruptible E view (rs_create_workflow S st m) (\<lambda>now. create_workflow now st m)"
    and i_get: "interruptible E view (rs_get_workflow S t) (\<lambda>now. get_workflow t)"
    and i_list: "interruptible E view (rs_list_workflows S l x) (\<lambda>now. list_workflows l x)"
    and i_save: "interruptible E view (rs_save_workflow S st v) (\<lambda>now. save_workflow now st v)"
    and i_enqueue: "interruptible E view (rs_enqueue S t m p) (\<lambda>now. enqueue now t m p)"
    and i_claim: "interruptible E view (rs_claim S wk ls) (\<lambda>now. claim now wk ls)"
    and i_extend: "interruptible E view (rs_extend_lease S d ls) (\<lambda>now. extend_lease pf now d ls)"
    and i_acknowledge: "interruptible E view (rs_acknowledge S did) (\<lambda>now. acknowledge pf now did)"
    and i_retry: "interruptible E view (rs_retry_or_dead_letter S d e b) (\<lambda>now. retry_or_dead_letter pf now d e b)"
    and i_event: "interruptible E view (rs_record_event S t ty p) (\<lambda>now. record_event now t ty p)"
    and i_list_events: "interruptible E view (rs_list_events S t) (\<lambda>now. list_events t)"
    and i_get_result: "interruptible E view (rs_get_tool_result S k p) (\<lambda>now. get_tool_result pf k p)"
    and i_save_result: "interruptible E view (rs_save_tool_result S k t n p r) (\<lambda>now. save_tool_result pf now k t n p r)"
    and i_create_approval: "interruptible E view (rs_create_approval S t a) (\<lambda>now. create_approval now t a)"
    and i_resolve: "interruptible E view (rs_resolve_approval S t a yes who note) (\<lambda>now. resolve_approval now t a yes who note)"
    and i_approval: "interruptible E view (rs_approval_status S t a) (\<lambda>now. approval_status t a)"
    and i_counts: "interruptible E view (rs_queue_counts S) (\<lambda>now. queue_counts)"
    and i_dead_letters: "interruptible E view (rs_list_dead_letters S l) (\<lambda>now. list_dead_letters l)"
    and i_replay: "interruptible E view (rs_replay_dead_letter S did t m who why) (\<lambda>now. replay_dead_letter pf now did t m who why)"
begin

lemmas interruptible_operations = i_create i_get i_list i_save i_enqueue i_claim i_extend i_acknowledge
  i_retry i_event i_list_events i_create_approval i_resolve i_approval i_counts
  i_dead_letters i_replay

lemma action_id_eq: "gateway_action_id S st tool args = action_key pf (task_id st) tool args"
  by (simp add: gateway_action_id_def action_key_def hash)

end


lemma contended_sql_view:
  assumes "surroundings_within E env" and "\<And>w w'. E w w' \<Longrightarrow> endures w w'"
  shows "sql_view fst E (contended_store env (sqlite_store pf)) pf"
  by unfold_locales (simp_all add: contended_store_def interruptible_contended [OF assms(1)] assms(2))

sublocale sql_view \<subseteq> enduring: store_guarantee "\<lambda>s t. endures (view s) (view t)" S
proof
  show "endures (view s) (view s)" for s by (rule endurance.R_refl)
  show "endures (view s) (view u)" if "endures (view s) (view t)" "endures (view t) (view u)" for s t u
    using that by (rule endurance.R_trans)
qed (rule interruptible_relates [OF _ _ endurance.guarantee_axioms others_endure], rule interruptible_operations,
     (rule endures_operations endures_readers | assumption)+)+

text \<open>A process that no other one interleaves with: every operation evolves the world.\<close>

locale serial_view = sql_view view "(=)" S pf for view :: "'s \<Rightarrow> world" and S pf
begin

lemma serial_relates: "interruptible (=) view m m0 \<Longrightarrow> (\<And>now. relates (evolves pf) (m0 now)) \<Longrightarrow>
    relates (\<lambda>s t. evolves pf (view s) (view t)) m"
  by (erule interruptible_relates [OF _ _ evolution.guarantee_axioms]) (auto intro: evolution.R_refl)

end

sublocale serial_view \<subseteq> evolving: store_guarantee "\<lambda>s t. evolves pf (view s) (view t)" S
proof
  show "evolves pf (view s) (view s)" for s by (rule evolution.R_refl)
  show "evolves pf (view s) (view u)" if "evolves pf (view s) (view t)" "evolves pf (view t) (view u)" for s t u
    using that by (rule evolution.R_trans)
qed (rule serial_relates, rule interruptible_operations, (rule evolves_operations evolves_readers)+)+

interpretation plain: serial_view "\<lambda>w. w" "sqlite_store pf now" pf for pf now
  by unfold_locales (auto simp: interruptible_def endurance.R_refl)

interpretation undisturbed: serial_view fst "contended_store (quiet now) (sqlite_store pf)" pf for pf now
  by (simp add: serial_view_def contended_sql_view quiet_within endurance.R_refl)

section \<open>Recorded invocations\<close>

text \<open>
  A backend whose calls leave a trace: what it answers is up to the outside world, that it was called
  is on record. This is the interface between the gateway and external systems.
\<close>

definition observed :: "(workflow_state \<Rightarrow> tool_name \<Rightarrow> dict \<Rightarrow> int \<Rightarrow> world \<Rightarrow> error + json) \<Rightarrow> world backend" where
  "observed answer st tool args n w =
     (answer st tool args n w,
      w\<lparr>invocations := invocations w @ [\<lparr>iv_task_id = task_id st, iv_tool = tool, iv_arguments = args\<rparr>]\<rparr>)"

lemma world_ok_invocations: "world_ok (w\<lparr>invocations := x\<rparr>) = world_ok w"
  by (simp add: world_ok_def find_workflow_def)

lemma evolves_observed:
  assumes "ledger w (action_key pf (task_id st) tool args) = None"
  shows "evolves pf w (snd (observed answer st tool args n w))"
proof -
  let ?w' = "snd (observed answer st tool args n w)"
  have "calls pf k ?w' = calls pf k w" if "ledger w k = Some x" for k x
    using that assms by (auto simp: calls_def observed_def)
  moreover have "ledger ?w' k = ledger w k" for k
    by (rule fun_cong [OF view_cong(3)]) (simp add: observed_def)
  moreover have "versions_grow w ?w'" "approvals_final w ?w'"
    by (rule same_tables, simp add: observed_def)+
  ultimately show ?thesis
    by (auto simp: evolves_def results_final_def logs_grow_def)
       (simp_all add: observed_def world_ok_invocations)
qed

lemma endures_observed: "endures w (snd (observed answer st tool args n w))"
proof -
  let ?w' = "snd (observed answer st tool args n w)"
  have "versions_grow w ?w'" "approvals_final w ?w'" "results_kept w ?w'"
    by (rule same_tables [folded results_kept_def], simp add: observed_def)+
  then show ?thesis
    by (auto simp: endures_def logs_grow_def) (simp_all add: observed_def world_ok_invocations)
qed

end
