(* ===== verification/Delivery.thy ===== *)
theory Delivery
  imports Interruption
begin

text \<open>
  What one delivery does, branch by branch: \<open>process\<close> over the SQLite store, with an engine that
  decides without touching the state and a backend whose calls are on record. A delivery is followed
  by \<open>tracks\<close>, which names everything it may change: the checkpoint, the events it appended, the
  approvals, the recorded results and the calls. The lemmas give the two common prefixes, up to the
  decision and up to the policy; the properties give each ending.
\<close>

section \<open>Following a delivery\<close>

definition logged :: "world \<Rightarrow> (string \<times> string \<times> dict) list" where
  "logged w = map (\<lambda>e. (ev_task_id e, ev_type e, ev_payload e)) (events w)"

definition tracks ::
  "string \<Rightarrow> world \<Rightarrow> workflow_state \<Rightarrow> (string \<times> dict) list \<Rightarrow> invocation list \<Rightarrow> world \<Rightarrow> bool" where
  \<comment> \<open>from \<open>w\<close> the delivery of task \<open>t\<close> came to \<open>w'\<close>: checkpoint, appended events, calls\<close>
  "tracks t w st es cs w' \<longleftrightarrow>
     world_ok w' \<and> checkpoint w' t = Some st \<and> logged w' = logged w @ map (Pair t) es \<and>
     invocations w' = invocations w @ cs \<and> queue w' = queue w \<and>
     (\<forall>t'. t' \<noteq> t \<longrightarrow> checkpoint w' t' = checkpoint w t')"

definition stamped :: "'s workflow_runtime \<Rightarrow> workflow_state \<Rightarrow> workflow_state" where
  \<comment> \<open>a state as the store returns it\<close>
  "stamped R st = st\<lparr>version := version st + 1, updated_at := wf_now R\<rparr>"

lemma stamped_simps [simp]:
  "task_id (stamped R st) = task_id st" "status (stamped R st) = status st"
  "pending_action (stamped R st) = pending_action st" "version (stamped R st) = version st + 1"
  "tool_calls (stamped R st) = tool_calls st" "retries (stamped R st) = retries st"
  "last_error (stamped R st) = last_error st" "evidence (stamped R st) = evidence st"
  "tool_history (stamped R st) = tool_history st" "progress_history (stamped R st) = progress_history st"
  "completed_steps (stamped R st) = completed_steps st" "final_answer (stamped R st) = final_answer st"
  "model_calls (stamped R st) = model_calls st" "current_step (stamped R st) = current_step st"
  by (simp_all add: stamped_def)

text \<open>A runtime over the plain world: nothing else happens while it awaits.\<close>

definition local_runtime ::
  "world workflow_runtime \<Rightarrow> (workflow_state \<Rightarrow> error + agent_decision) \<Rightarrow> int \<times> int \<Rightarrow>
    (workflow_state \<Rightarrow> tool_name \<Rightarrow> dict \<Rightarrow> int \<Rightarrow> world \<Rightarrow> error + json) \<Rightarrow> bool" where
  "local_runtime R f u answer \<longleftrightarrow>
     wf_store R = sqlite_store (wf_platform R) (wf_now R) \<and>
     en_decide (wf_engine R) = (\<lambda>st. lift_sum (f st)) \<and> en_take_usage (wf_engine R) = ret u \<and>
     wf_backend R = observed answer \<and> (\<forall>x. wf_sleep R x = ret ())"

lemma local_runtimeD:
  assumes "local_runtime R f u answer"
  shows "wf_store R = sqlite_store (wf_platform R) (wf_now R)"
    and "en_decide (wf_engine R) st = lift_sum (f st)" and "en_take_usage (wf_engine R) = ret u"
    and "wf_backend R = observed answer" and "wf_sleep R x = ret ()"
  using assms by (simp_all add: local_runtime_def)

lemma tracks_start: "world_ok w \<Longrightarrow> checkpoint w t = Some st \<Longrightarrow> tracks t w st [] [] w"
  by (simp add: tracks_def)

lemma tracks_task: "tracks t w st es cs w' \<Longrightarrow> task_id st = t"
  by (auto simp: tracks_def checkpoint_def dest: world_ok_row)

text \<open>One saved checkpoint, one event, one call.\<close>

lemma tracks_save:
  assumes "local_runtime R f u answer" and "tracks t w old es cs w'"
    and "task_id st = t" and "version st = version old"
  obtains w'' where "Runtime.save R st w' = (Inr (stamped R st), w'')" "tracks t w (stamped R st) es cs w''"
    "approvals w'' = approvals w'" "tool_results w'' = tool_results w'"
proof
  let ?w = "put_workflow (wf_now R) (stamped R st) w'"
  from assms(2) have ok: "world_ok w'" "checkpoint w' t = Some old" by (simp_all add: tracks_def)
  then show "Runtime.save R st w' = (Inr (stamped R st), ?w)"
    using assms(3,4) by (simp add: save_def local_runtimeD(1) [OF assms(1)] save_workflow_eq stamped_def)
  show "tracks t w (stamped R st) es cs ?w"
    using assms(2,3) ok by (simp add: tracks_def world_ok_put checkpoint_put logged_def)
qed simp_all

lemma event_eq:
  assumes "local_runtime R f u answer"
  shows "event R t ty p w = (Inr (), record_event_row (wf_now R) t ty p w)"
  by (simp add: event_def local_runtimeD(1) [OF assms] record_event_def)

lemma tracks_event:
  assumes "local_runtime R f u answer" and "tracks t w st es cs w'"
  obtains w'' where "event R t ty p w' = (Inr (), w'')" "tracks t w st (es @ [(ty, p)]) cs w''"
    "approvals w'' = approvals w'" "tool_results w'' = tool_results w'"
proof
  let ?w = "record_event_row (wf_now R) t ty p w'"
  show "event R t ty p w' = (Inr (), ?w)" by (rule event_eq [OF assms(1)])
  have "checkpoint ?w = checkpoint w'" by (rule view_cong) (simp add: record_event_row_def)
  then show "tracks t w st (es @ [(ty, p)]) cs ?w"
    using assms(2) by (simp add: tracks_def world_ok_event) (simp add: record_event_row_def logged_def)
qed (simp_all add: record_event_row_def)

definition call_of :: "string \<Rightarrow> tool_name \<Rightarrow> dict \<Rightarrow> invocation" where
  "call_of t tool args = \<lparr>iv_task_id = t, iv_tool = tool, iv_arguments = args\<rparr>"

lemma tracks_call:
  assumes "local_runtime R f u answer" and "tracks t w st es cs w'" and "task_id s = t"
  obtains w'' where "wf_backend R s tool args n w' = (answer s tool args n w', w'')"
    "tracks t w st es (cs @ [call_of t tool args]) w''"
    "approvals w'' = approvals w'" "tool_results w'' = tool_results w'"
proof
  let ?w = "w'\<lparr>invocations := invocations w' @ [call_of t tool args]\<rparr>"
  show "wf_backend R s tool args n w' = (answer s tool args n w', ?w)"
    using assms(3) by (simp add: local_runtimeD(4) [OF assms(1)] observed_def call_of_def)
  have "checkpoint ?w = checkpoint w'" by (rule view_cong) simp
  then show "tracks t w st es (cs @ [call_of t tool args]) ?w"
    using assms(2) by (simp add: tracks_def world_ok_invocations) (simp add: logged_def)
qed simp_all

lemma tracks_result:
  assumes "local_runtime R f u answer" and "tracks t w st es cs w'" and "ledger w' k = None"
  obtains w'' where "rs_save_tool_result (wf_store R) k t n a r w' = (Inr (), w'')" "tracks t w st es cs w''"
    "approvals w'' = approvals w'" "ledger w'' = (ledger w')(k \<mapsto> (arguments_hash (wf_platform R) a, r))"
proof
  let ?w = "snd (save_tool_result (wf_platform R) (wf_now R) k t n a r w')"
  show "rs_save_tool_result (wf_store R) k t n a r w' = (Inr (), ?w)"
    by (simp add: local_runtimeD(1) [OF assms(1)] save_tool_result_def)
  have "checkpoint ?w = checkpoint w'" by (rule view_cong) (simp add: save_tool_result_def)
  moreover have "world_ok ?w" using relatesD [OF keeps_ok_save_result] assms(2) by (auto simp: tracks_def)
  ultimately show "tracks t w st es cs ?w"
    using assms(2) by (simp add: tracks_def) (simp add: save_tool_result_def logged_def)
  show "approvals ?w = approvals w'" by (simp add: save_tool_result_def)
  show "ledger ?w = (ledger w')(k \<mapsto> (arguments_hash (wf_platform R) a, r))"
    using sqlite_ledger.save_first [OF TrueI assms(3), where pf = "wf_platform R" and now = "wf_now R" and t = t and n = n and a = a and r = r] by auto
qed

section \<open>Up to the decision, up to the policy\<close>

definition ready_state :: "workflow_state \<Rightarrow> bool" where
  \<comment> \<open>a delivery asks the engine\<close>
  "ready_state st \<longleftrightarrow> \<not> terminal st \<and> status st \<noteq> WAITING_FOR_APPROVAL \<and> pending_action st = None"

definition started :: "'s workflow_runtime \<Rightarrow> workflow_state \<Rightarrow> workflow_state" where
  "started R st = stamped R (st\<lparr>status := RUNNING, last_error := None\<rparr>)"

definition considered :: "'s workflow_runtime \<Rightarrow> int \<times> int \<Rightarrow> workflow_state \<Rightarrow> agent_decision \<Rightarrow> workflow_state" where
  "considered R u st d = note_findings (model_called (started R st) u) d"

definition requested ::
  "'s workflow_runtime \<Rightarrow> int \<times> int \<Rightarrow> workflow_state \<Rightarrow> agent_decision \<Rightarrow> tool_name \<Rightarrow> workflow_state" where
  "requested R u st d tool = tool_requested (wf_platform R) (considered R u st d) tool"

definition decision_events :: "workflow_state \<Rightarrow> agent_decision \<Rightarrow> (string \<times> dict) list" where
  "decision_events st d =
     [(''AGENT_DECISION_STARTED'', [(''model_call'', JInt (model_calls st + 1))]),
      (''AGENT_DECISION'', dump_decision d)]"

lemma considered_simps [simp]:
  "task_id (started R st) = task_id st" "version (started R st) = version st + 1"
  "task_id (considered R u st d) = task_id st" "version (considered R u st d) = version st + 1"
  "task_id (requested R u st d tool) = task_id st" "version (requested R u st d tool) = version st + 1"
  "pending_action (requested R u st d tool) = pending_action st"
  "tool_calls (requested R u st d tool) = tool_calls st" "retries (requested R u st d tool) = retries st"
  "evidence (requested R u st d tool) = evidence st"
  "completed_steps (requested R u st d tool) = completed_steps st"
  "tool_history (requested R u st d tool) = tool_history st @ [tool_value tool]"
  "model_calls (requested R u st d tool) = model_calls st + 1"
  by (simp_all add: started_def considered_def requested_def note_findings_def model_called_def tool_requested_def)

lemma decision_run:
  assumes run: "local_runtime R f u answer" and ok: "world_ok w" and cp: "checkpoint w t = Some st"
    and ready: "ready_state st" and d: "f (started R st) = Inr d"
  obtains w1 where "process R t w = act_on_decision R (considered R u st d) d w1"
    "tracks t w (started R st) (decision_events st d) [] w1"
    "approvals w1 = approvals w" "tool_results w1 = tool_results w"
proof -
  note local = local_runtimeD [OF run]
  have id: "task_id st = t" by (rule tracks_task [OF tracks_start [OF ok cp]])
  obtain w1 where 1: "Runtime.save R (st\<lparr>status := RUNNING, last_error := None\<rparr>) w = (Inr (started R st), w1)"
    "tracks t w (started R st) [] [] w1" "approvals w1 = approvals w" "tool_results w1 = tool_results w"
    unfolding started_def
    by (rule tracks_save [OF run tracks_start [OF ok cp], of "st\<lparr>status := RUNNING, last_error := None\<rparr>"])
       (use id in auto)
  obtain w2 where 2: "event R t ''AGENT_DECISION_STARTED'' [(''model_call'', JInt (model_calls st + 1))] w1 = (Inr (), w2)"
    "tracks t w (started R st) ([] @ [(''AGENT_DECISION_STARTED'', [(''model_call'', JInt (model_calls st + 1))])]) [] w2"
    "approvals w2 = approvals w1" "tool_results w2 = tool_results w1"
    by (rule tracks_event [OF run 1(2)])
  obtain w3 where 3: "event R t ''AGENT_DECISION'' (dump_decision d) w2 = (Inr (), w3)"
    "tracks t w (started R st) (decision_events st d) [] w3"
    "approvals w3 = approvals w2" "tool_results w3 = tool_results w2"
    by (rule tracks_event [OF run 2(2), of "''AGENT_DECISION''" "dump_decision d"]) (simp add: decision_events_def)
  have calls: "model_calls (started R st) = model_calls st" by (simp add: started_def)
  have "required_state R t w = (Inr st, w)"
    by (simp add: required_state_def local(1) bindE_def get_workflow_checkpoint cp ret_def)
  then have "process R t w = start_decision R st w"
    using ready by (simp add: process_def bindE_def ready_state_def)
  also have "\<dots> = act_on_decision R (considered R u st d) d w3"
    using 1(1) 2(1) 3(1) id d
    by (simp add: start_decision_def bindE_def decide_def try_catch_def local(2,3) lift_sum_def ret_def calls considered_def)
  finally show thesis using that 3(2-4) 1(3,4) 2(3,4) by simp
qed

lemma policy_run:
  assumes run: "local_runtime R f u answer" and ok: "world_ok w" and cp: "checkpoint w t = Some st"
    and ready: "ready_state st" and d: "f (started R st) = Inr d"
    and use: "d_action d = Use_Tool" "d_tool d = Some tool"
    and valid: "validate_and_decide (wf_platform R) tool (dump_arguments (d_arguments d)) = Inr (v, pol)"
    and fine: "reason (wf_loop_detector R) (tool_history (requested R u st d tool))
      (progress_history (requested R u st d tool)) = None"
  obtains w2 where "process R t w = follow_policy R (stamped R (requested R u st d tool)) d tool v pol w2"
    "tracks t w (stamped R (requested R u st d tool)) (decision_events st d) [] w2"
    "approvals w2 = approvals w" "tool_results w2 = tool_results w"
proof -
  obtain w1 where 1: "process R t w = act_on_decision R (considered R u st d) d w1"
    "tracks t w (started R st) (decision_events st d) [] w1"
    "approvals w1 = approvals w" "tool_results w1 = tool_results w"
    by (rule decision_run [OF run ok cp ready d])
  have id: "task_id (requested R u st d tool) = t" using tracks_task [OF 1(2)] by simp
  obtain w2 where 2: "Runtime.save R (requested R u st d tool) w1 = (Inr (stamped R (requested R u st d tool)), w2)"
    "tracks t w (stamped R (requested R u st d tool)) (decision_events st d) [] w2"
    "approvals w2 = approvals w1" "tool_results w2 = tool_results w1"
    by (rule tracks_save [OF run 1(2) id]) simp
  have "act_on_decision R (considered R u st d) d w1 =
      follow_policy R (stamped R (requested R u st d tool)) d tool v pol w2"
    using use valid fine 2(1)
    by (simp add: act_on_decision_def act_on_tool_def bindE_def lift_sum_def Let_def flip: requested_def)
  with 1(1) show thesis using that 2(2-4) 1(3,4) by simp
qed

section \<open>Executing a tool\<close>

lemma gateway_cached:
  assumes run: "local_runtime R f u answer" and tr: "tracks t w st0 es cs w'" and id: "task_id st = t"
    and valid: "validate_and_decide (wf_platform R) tool a = Inr (v, pol)" "pd_allowed pol"
    and hit: "ledger w' (action_key (wf_platform R) t tool v) = Some (arguments_hash (wf_platform R) v, r)"
  shows "gateway_execute (wf_platform R) (wf_store R) (wf_backend R) st tool a w' = (Inr (r, True), w')"
  using valid id sqlite_ledger.lookup_hit [OF TrueI, of w' "action_key (wf_platform R) t tool v" "wf_platform R" "wf_now R" v r] hit
  by (simp add: gateway_execute_def local_runtimeD(1) [OF run] bindE_def lift_sum_def Let_def
      plain.action_id_eq ret_def)

lemma gateway_answered:
  assumes run: "local_runtime R f u answer" and tr: "tracks t w st0 es cs w'" and id: "task_id st = t"
    and valid: "validate_and_decide (wf_platform R) tool a = Inr (v, pol)" "pd_allowed pol"
    and miss: "ledger w' (action_key (wf_platform R) t tool v) = None"
    and ans: "answer st tool v (attempt_number st tool) w' = Inr (JObj r)" "r \<noteq> []"
  obtains w'' where
    "gateway_execute (wf_platform R) (wf_store R) (wf_backend R) st tool a w' = (Inr (r, False), w'')"
    "tracks t w st0 es (cs @ [call_of t tool v]) w''" "approvals w'' = approvals w'"
    "ledger w'' = (ledger w')(action_key (wf_platform R) t tool v \<mapsto> (arguments_hash (wf_platform R) v, r))"
proof -
  let ?k = "action_key (wf_platform R) t tool v"
  obtain w1 where 1: "wf_backend R st tool v (attempt_number st tool) w' = (Inr (JObj r), w1)"
    "tracks t w st0 es (cs @ [call_of t tool v]) w1" "approvals w1 = approvals w'" "tool_results w1 = tool_results w'"
    using tracks_call [OF run tr id, of tool v "attempt_number st tool"] ans(1) by metis
  have led: "ledger w1 = ledger w'" by (rule view_cong(3) [OF 1(4)])
  with miss have "ledger w1 ?k = None" by simp
  from tracks_result [OF run 1(2) this, of "tool_value tool" v r] obtain w2 where
    2: "rs_save_tool_result (wf_store R) ?k t (tool_value tool) v r w1 = (Inr (), w2)"
    "tracks t w st0 es (cs @ [call_of t tool v]) w2"
    "approvals w2 = approvals w1" "ledger w2 = (ledger w1)(?k \<mapsto> (arguments_hash (wf_platform R) v, r))"
    by metis
  have "gateway_execute (wf_platform R) (wf_store R) (wf_backend R) st tool a w' = (Inr (r, False), w2)"
    using valid id 1(1) 2(1) ans(2) sqlite_ledger.lookup_miss [OF TrueI miss, of "wf_platform R" "wf_now R" v]
    by (cases r)
       (simp_all add: gateway_execute_def local_runtimeD(1) [OF run] bindE_def lift_sum_def Let_def
         plain.action_id_eq ret_def)
  with that 2(2-4) 1(3) led show thesis by simp
qed

lemma gateway_failed:
  assumes run: "local_runtime R f u answer" and tr: "tracks t w st0 es cs w'" and id: "task_id st = t"
    and valid: "validate_and_decide (wf_platform R) tool a = Inr (v, pol)" "pd_allowed pol"
    and miss: "ledger w' (action_key (wf_platform R) t tool v) = None"
    and ans: "answer st tool v (attempt_number st tool) w' = Inl e"
  obtains w'' where
    "gateway_execute (wf_platform R) (wf_store R) (wf_backend R) st tool a w' = (Inl e, w'')"
    "tracks t w st0 es (cs @ [call_of t tool v]) w''" "approvals w'' = approvals w'"
    "tool_results w'' = tool_results w'"
proof -
  obtain w1 where 1: "wf_backend R st tool v (attempt_number st tool) w' = (Inl e, w1)"
    "tracks t w st0 es (cs @ [call_of t tool v]) w1" "approvals w1 = approvals w'" "tool_results w1 = tool_results w'"
    using tracks_call [OF run tr id, of tool v "attempt_number st tool"] ans(1) by metis
  have "gateway_execute (wf_platform R) (wf_store R) (wf_backend R) st tool a w' = (Inl e, w1)"
    using valid id 1(1) sqlite_ledger.lookup_miss [OF TrueI miss, of "wf_platform R" "wf_now R" v]
    by (simp add: gateway_execute_def local_runtimeD(1) [OF run] bindE_def lift_sum_def Let_def
         plain.action_id_eq ret_def)
  with that 1(2-4) show thesis by simp
qed

definition completed_event :: "tool_name \<Rightarrow> bool \<Rightarrow> dict \<Rightarrow> string \<times> dict" where
  "completed_event tool cached r =
     (''TOOL_COMPLETED'', [(''tool'', JStr (tool_value tool)), (''cached'', JBool cached), (''result'', JObj r)])"

definition retryable_event :: "tool_name \<Rightarrow> error \<Rightarrow> string \<times> dict" where
  "retryable_event tool e =
     (''TOOL_RETRYABLE_FAILURE'', [(''tool'', JStr (tool_value tool)), (''error'', JStr (error_text e))])"

lemma tool_completed_simps [simp]:
  "task_id (tool_completed pf st tool r) = task_id st" "version (tool_completed pf st tool r) = version st"
  "status (tool_completed pf st tool r) = QUEUED" "pending_action (tool_completed pf st tool r) = None"
  "tool_calls (tool_completed pf st tool r) = tool_calls st + 1"
  "last_error (tool_completed pf st tool r) = None"
  "evidence (tool_completed pf st tool r) = AList.update (tool_value tool) (JObj r) (evidence st)"
  "tool_history (tool_completed pf st tool r) = tool_history st"
  "set (completed_steps (tool_completed pf st tool r)) = insert (tool_value tool) (set (completed_steps st))"
  by (auto simp: tool_completed_def Let_def)

lemma execute_success:
  assumes run: "local_runtime R f u answer" and tr: "tracks t w st es cs w1"
    and gw: "gateway_execute (wf_platform R) (wf_store R) (wf_backend R) st tool a w0 = (Inr (r, cached), w1)"
  obtains w2 where
    "execute_tool R st tool a w0 = (Inr (stamped R (tool_completed (wf_platform R) st tool r)), w2)"
    "tracks t w (stamped R (tool_completed (wf_platform R) st tool r)) (es @ [completed_event tool cached r]) cs w2"
    "approvals w2 = approvals w1" "tool_results w2 = tool_results w1"
proof -
  let ?st = "tool_completed (wf_platform R) st tool r"
  have id: "task_id st = t" by (rule tracks_task [OF tr])
  obtain w2 where 2: "Runtime.save R ?st w1 = (Inr (stamped R ?st), w2)" "tracks t w (stamped R ?st) es cs w2"
    "approvals w2 = approvals w1" "tool_results w2 = tool_results w1"
    by (rule tracks_save [OF run tr, of ?st]) (use id in auto)
  obtain w3 where 3: "event R t ''TOOL_COMPLETED'' (snd (completed_event tool cached r)) w2 = (Inr (), w3)"
    "tracks t w (stamped R ?st) (es @ [completed_event tool cached r]) cs w3"
    "approvals w3 = approvals w2" "tool_results w3 = tool_results w2"
    by (rule tracks_event [OF run 2(2), of "''TOOL_COMPLETED''" "snd (completed_event tool cached r)"])
       (simp add: completed_event_def)
  have "execute_tool R st tool a w0 = (Inr (stamped R ?st), w3)"
    using gw 2(1) 3(1) id by (simp add: execute_tool_def bindE_def try_catch_def ret_def completed_event_def)
  with that 3(2-4) 2(3,4) show thesis by simp
qed

lemma execute_retryable:
  assumes run: "local_runtime R f u answer" and tr: "tracks t w st es cs w1" and e: "is_retryable e"
    and gw: "gateway_execute (wf_platform R) (wf_store R) (wf_backend R) st tool a w0 = (Inl e, w1)"
    and st': "st' = stamped R (st\<lparr>retries := retries st + 1, last_error := Some (error_text e), status := QUEUED\<rparr>)"
  obtains w2 where "execute_tool R st tool a w0 = (Inl e, w2)"
    "tracks t w st' (es @ [retryable_event tool e]) cs w2"
    "approvals w2 = approvals w1" "tool_results w2 = tool_results w1"
proof -
  let ?st = "st\<lparr>retries := retries st + 1, last_error := Some (error_text e), status := QUEUED\<rparr>"
  have id: "task_id st = t" by (rule tracks_task [OF tr])
  obtain w2 where 2: "Runtime.save R ?st w1 = (Inr (stamped R ?st), w2)" "tracks t w (stamped R ?st) es cs w2"
    "approvals w2 = approvals w1" "tool_results w2 = tool_results w1"
    by (rule tracks_save [OF run tr, of ?st]) (use id in auto)
  obtain w3 where 3: "event R t ''TOOL_RETRYABLE_FAILURE'' (snd (retryable_event tool e)) w2 = (Inr (), w3)"
    "tracks t w (stamped R ?st) (es @ [retryable_event tool e]) cs w3"
    "approvals w3 = approvals w2" "tool_results w3 = tool_results w2"
    by (rule tracks_event [OF run 2(2), of "''TOOL_RETRYABLE_FAILURE''" "snd (retryable_event tool e)"])
       (simp add: retryable_event_def)
  have "execute_tool R st tool a w0 = (Inl e, w3)"
    using gw 2(1) 3(1) id e
    by (simp add: execute_tool_def bindE_def try_catch_def ret_def raise_def retryable_event_def)
  with that 3(2-4) 2(3,4) st' show thesis by simp
qed

section \<open>The endings of a delivery\<close>

lemma execute_run:
  assumes run: "local_runtime R f u answer" and tr: "tracks t w st es cs w1"
    and valid: "validate_and_decide (wf_platform R) tool a = Inr (v, pol)" "pd_allowed pol"
    and led: "ledger w1 (action_key (wf_platform R) t tool v) = None \<or>
      ledger w1 (action_key (wf_platform R) t tool v) = Some (arguments_hash (wf_platform R) v, r)"
    and ans: "\<forall>w'. ledger w1 (action_key (wf_platform R) t tool v) = None \<longrightarrow>
      answer st tool v (attempt_number st tool) w' = Inr (JObj r)" and r: "r \<noteq> []"
  obtains w2 where
    "execute_tool R st tool a w1 = (Inr (stamped R (tool_completed (wf_platform R) st tool r)), w2)"
    "tracks t w (stamped R (tool_completed (wf_platform R) st tool r))
      (es @ [completed_event tool (ledger w1 (action_key (wf_platform R) t tool v) \<noteq> None) r])
      (cs @ (if ledger w1 (action_key (wf_platform R) t tool v) = None then [call_of t tool v] else [])) w2"
    "approvals w2 = approvals w1"
    "ledger w2 = (ledger w1)(action_key (wf_platform R) t tool v \<mapsto> (arguments_hash (wf_platform R) v, r))"
proof (cases "ledger w1 (action_key (wf_platform R) t tool v)")
  case None
  have id: "task_id st = t" by (rule tracks_task [OF tr])
  obtain w2 where 2: "gateway_execute (wf_platform R) (wf_store R) (wf_backend R) st tool a w1 = (Inr (r, False), w2)"
    "tracks t w st es (cs @ [call_of t tool v]) w2" "approvals w2 = approvals w1"
    "ledger w2 = (ledger w1)(action_key (wf_platform R) t tool v \<mapsto> (arguments_hash (wf_platform R) v, r))"
    by (rule gateway_answered [where answer = answer and tool = tool and r = r, OF run tr id valid None _ r]) (use ans None in simp)
  obtain w3 where 3: "execute_tool R st tool a w1 = (Inr (stamped R (tool_completed (wf_platform R) st tool r)), w3)"
    "tracks t w (stamped R (tool_completed (wf_platform R) st tool r)) (es @ [completed_event tool False r])
      (cs @ [call_of t tool v]) w3" "approvals w3 = approvals w2" "tool_results w3 = tool_results w2"
    by (rule execute_success [OF run 2(2,1)])
  have "ledger w3 = ledger w2" by (rule view_cong(3) [OF 3(4)])
  with that [OF 3(1)] 3(2,3) 2(3,4) None show thesis by simp
next
  case (Some x)
  have id: "task_id st = t" by (rule tracks_task [OF tr])
  from Some led have hit: "ledger w1 (action_key (wf_platform R) t tool v) = Some (arguments_hash (wf_platform R) v, r)" by simp
  obtain w3 where 3: "execute_tool R st tool a w1 = (Inr (stamped R (tool_completed (wf_platform R) st tool r)), w3)"
    "tracks t w (stamped R (tool_completed (wf_platform R) st tool r)) (es @ [completed_event tool True r])
      cs w3" "approvals w3 = approvals w1" "tool_results w3 = tool_results w1"
    by (rule execute_success [OF run tr gateway_cached [OF run tr id valid hit]])
  have "ledger w3 = ledger w1" by (rule view_cong(3) [OF 3(4)])
  with that [OF 3(1)] 3(2,3) hit show thesis by (simp add: fun_upd_idem)
qed

text \<open>
  C35: A tool the policy allows without approval runs, and at most once: the delivery returns the
  workflow QUEUED with the result among its evidence and one tool call more; the tool is called, with the
  validated arguments, exactly if no result was recorded for the action, and the result is recorded;
  three events tell of it, and no other workflow changes.
\<close>

theorem allowed_tool_runs_once:
  assumes run: "local_runtime R f u answer" and ok: "world_ok w" and cp: "checkpoint w t = Some st"
    and ready: "ready_state st" and d: "f (started R st) = Inr d"
    and use: "d_action d = Use_Tool" "d_tool d = Some tool"
    and valid: "validate_and_decide (wf_platform R) tool (dump_arguments (d_arguments d)) = Inr (v, pol)"
    and policy: "pd_allowed pol" "\<not> pd_approval_required pol" and calm: "wf_chaos_pause_seconds R = 0"
    and fine: "reason (wf_loop_detector R) (tool_history (requested R u st d tool))
      (progress_history (requested R u st d tool)) = None"
    and led: "ledger w k = None \<or> ledger w k = Some (arguments_hash (wf_platform R) v, r)"
    and k: "k = action_key (wf_platform R) t tool v"
    and ans: "\<And>s n w'. answer s tool v n w' = Inr (JObj r)" and r: "r \<noteq> []"
  shows "\<exists>st' w'. process R t w = (Inr st', w') \<and> status st' = QUEUED \<and> tool_calls st' = tool_calls st + 1 \<and>
    evidence st' = AList.update (tool_value tool) (JObj r) (evidence st) \<and> pending_action st' = None \<and>
    tracks t w st' (decision_events st d @ [completed_event tool (ledger w k \<noteq> None) r])
      (if ledger w k = None then [call_of t tool v] else []) w' \<and>
    ledger w' = (ledger w)(k \<mapsto> (arguments_hash (wf_platform R) v, r)) \<and> approvals w' = approvals w"
proof -
  obtain w2 where 2: "process R t w = follow_policy R (stamped R (requested R u st d tool)) d tool v pol w2"
    "tracks t w (stamped R (requested R u st d tool)) (decision_events st d) [] w2"
    "approvals w2 = approvals w" "tool_results w2 = tool_results w"
    by (rule policy_run [OF run ok cp ready d use valid fine])
  have same: "ledger w2 = ledger w" by (rule view_cong(3) [OF 2(4)])
  have follow: "process R t w = execute_tool R (stamped R (requested R u st d tool)) tool v w2"
    using 2(1) policy calm by (simp add: follow_policy_def chaos_pause_def)
  have led2: "ledger w2 (action_key (wf_platform R) t tool v) = None \<or>
      ledger w2 (action_key (wf_platform R) t tool v) = Some (arguments_hash (wf_platform R) v, r)"
    using led by (simp add: same k)
  let ?st = "stamped R (tool_completed (wf_platform R) (stamped R (requested R u st d tool)) tool r)"
  have ans2: "\<forall>w'. ledger w2 (action_key (wf_platform R) t tool v) = None \<longrightarrow>
      answer (stamped R (requested R u st d tool)) tool v
        (attempt_number (stamped R (requested R u st d tool)) tool) w' = Inr (JObj r)" using ans by blast
  obtain w3 where 3: "execute_tool R (stamped R (requested R u st d tool)) tool v w2 = (Inr ?st, w3)"
    "tracks t w ?st
      (decision_events st d @ [completed_event tool (ledger w2 (action_key (wf_platform R) t tool v) \<noteq> None) r])
      ([] @ (if ledger w2 (action_key (wf_platform R) t tool v) = None then [call_of t tool v] else [])) w3"
    "approvals w3 = approvals w2"
    "ledger w3 = (ledger w2)(action_key (wf_platform R) t tool v \<mapsto> (arguments_hash (wf_platform R) v, r))"
    by (rule execute_run [OF run 2(2) validate_and_decide_idem [OF valid] policy(1) led2 ans2 r])
  have "process R t w = (Inr ?st, w3)" using follow 3(1) by simp
  moreover have "tracks t w ?st (decision_events st d @ [completed_event tool (ledger w k \<noteq> None) r])
      (if ledger w k = None then [call_of t tool v] else []) w3"
    using 3(2) by (simp add: same k)
  moreover have "ledger w3 = (ledger w)(k \<mapsto> (arguments_hash (wf_platform R) v, r))" using 3(4) by (simp only: same k)
  ultimately show ?thesis using 3(3) 2(3) by (intro exI [of _ ?st] exI [of _ w3]) simp
qed

lemma ask_run:
  assumes run: "local_runtime R f u answer" and tr: "tracks t w0 st es cs w"
    and k: "k = action_key (wf_platform R) t tool v"
    and p: "p = \<lparr>action_id = k, pa_tool = tool, pa_arguments = v, pa_risk = pd_risk pol,
      pa_rationale = d_rationale d, pa_created_at = wf_now R\<rparr>"
    and st': "st' = stamped R (st\<lparr>pending_action := Some p, status := WAITING_FOR_APPROVAL\<rparr>)"
  obtains w' where "request_approval R st d tool v pol w = (Inr st', w')"
    "tracks t w0 st' (es @ [(''APPROVAL_REQUIRED'', dump_pending (wf_platform R) p)]) cs w'"
    "approval_of w' t k = (if approval_of w t k = None then Some ''PENDING'' else approval_of w t k)"
    "tool_results w' = tool_results w"
proof -
  have id: "task_id st = t" by (rule tracks_task [OF tr])
  let ?st' = "st\<lparr>pending_action := Some p, status := WAITING_FOR_APPROVAL\<rparr>"
  obtain w3 where 3: "Runtime.save R ?st' w = (Inr (stamped R ?st'), w3)"
    "tracks t w0 (stamped R ?st') es cs w3" "approvals w3 = approvals w" "tool_results w3 = tool_results w"
    by (rule tracks_save [OF run tr, of ?st']) (use id in auto)
  obtain w4 where 4: "create_approval (wf_now R) t k w3 = (Inr (), w4)" by (simp add: create_approval_def)
  have rest: "workflows w4 = workflows w3" "events w4 = events w3" "invocations w4 = invocations w3"
    "queue w4 = queue w3" "tool_results w4 = tool_results w3" "world_ok w4"
    using 4 3(2) relatesD [OF keeps_ok_create_approval, of w3 "wf_now R" t k]
    by (auto simp: create_approval_def tracks_def split: if_splits)
  have a3: "approval_of w3 = approval_of w" by (rule view_cong(2)) (simp add: 3(3))
  have ok3: "world_ok w3" using 3(2) by (simp add: tracks_def)
  have a4: "approval_of w4 t k = (if approval_of w t k = None then Some ''PENDING'' else approval_of w t k)"
  proof (cases "approval_of w t k")
    case None
    with a3 4 sqlite_approvals.create_new [OF ok3, of t k undefined "wf_now R"] show ?thesis by auto
  next
    case (Some x)
    with a3 4 sqlite_approvals.create_again [OF ok3, of t k x undefined "wf_now R"] show ?thesis by auto
  qed
  have "tracks t w0 (stamped R ?st') es cs w4"
    using 3(2) rest by (simp add: tracks_def view_cong(1) [OF rest(1)] logged_def)
  then obtain w5 where 5: "event R t ''APPROVAL_REQUIRED'' (dump_pending (wf_platform R) p) w4 = (Inr (), w5)"
    "tracks t w0 (stamped R ?st') (es @ [(''APPROVAL_REQUIRED'', dump_pending (wf_platform R) p)]) cs w5"
    "approvals w5 = approvals w4" "tool_results w5 = tool_results w4"
    by (rule tracks_event [OF run])
  have aid: "gateway_action_id (wf_store R) st tool v = k"
    using id k by (simp add: local_runtimeD(1) [OF run] plain.action_id_eq)
  have "request_approval R st d tool v pol w = (Inr (stamped R ?st'), w5)"
    unfolding request_approval_def Let_def aid p [symmetric]
    by (simp add: bindE_def ret_def 3(1) 4 5(1) id local_runtimeD(1) [OF run])
  moreover have "approval_of w5 t k = approval_of w4 t k" by (simp only: view_cong(2) [OF 5(3)])
  ultimately show thesis using that [of w5] 5(2,4) a4 3(4) rest(5) st' by simp
qed

text \<open>
  C36: An action that needs a human runs nothing: the delivery returns the workflow waiting, with the
  validated action pending under its action id; the approval is created as pending, or an earlier
  decision about the same action is kept, and no tool is called.
\<close>

theorem high_risk_tool_waits:
  assumes run: "local_runtime R f u answer" and ok: "world_ok w" and cp: "checkpoint w t = Some st"
    and ready: "ready_state st" and d: "f (started R st) = Inr d"
    and use: "d_action d = Use_Tool" "d_tool d = Some tool"
    and valid: "validate_and_decide (wf_platform R) tool (dump_arguments (d_arguments d)) = Inr (v, pol)"
    and policy: "pd_allowed pol" "pd_approval_required pol"
    and fine: "reason (wf_loop_detector R) (tool_history (requested R u st d tool))
      (progress_history (requested R u st d tool)) = None"
    and k: "k = action_key (wf_platform R) t tool v"
  shows "\<exists>st' p w'. process R t w = (Inr st', w') \<and> status st' = WAITING_FOR_APPROVAL \<and>
    pending_action st' = Some p \<and> action_id p = k \<and> pa_tool p = tool \<and> pa_arguments p = v \<and>
    tracks t w st' (decision_events st d @ [(''APPROVAL_REQUIRED'', dump_pending (wf_platform R) p)]) [] w' \<and>
    approval_of w' t k = (if approval_of w t k = None then Some ''PENDING'' else approval_of w t k) \<and>
    tool_results w' = tool_results w"
proof -
  obtain w2 where 2: "process R t w = follow_policy R (stamped R (requested R u st d tool)) d tool v pol w2"
    "tracks t w (stamped R (requested R u st d tool)) (decision_events st d) [] w2"
    "approvals w2 = approvals w" "tool_results w2 = tool_results w"
    by (rule policy_run [OF run ok cp ready d use valid fine])
  have same: "approval_of w2 = approval_of w" by (rule view_cong(2) [OF 2(3)])
  let ?st = "stamped R (requested R u st d tool)"
  define p where "p = \<lparr>action_id = k, pa_tool = tool, pa_arguments = v, pa_risk = pd_risk pol,
    pa_rationale = d_rationale d, pa_created_at = wf_now R\<rparr>"
  let ?st' = "stamped R (?st\<lparr>pending_action := Some p, status := WAITING_FOR_APPROVAL\<rparr>)"
  obtain w3 where 3: "request_approval R ?st d tool v pol w2 = (Inr ?st', w3)"
    "tracks t w ?st' (decision_events st d @ [(''APPROVAL_REQUIRED'', dump_pending (wf_platform R) p)]) [] w3"
    "approval_of w3 t k = (if approval_of w2 t k = None then Some ''PENDING'' else approval_of w2 t k)"
    "tool_results w3 = tool_results w2"
    by (rule ask_run [OF run 2(2) k p_def refl])
  have "process R t w = (Inr ?st', w3)" using 2(1) 3(1) policy by (simp add: follow_policy_def)
  then show ?thesis using 3(2-4) 2(4) same by (intro exI [of _ ?st'] exI [of _ p] exI [of _ w3]) (simp add: p_def)
qed

lemma fail_run:
  assumes run: "local_runtime R f u answer" and tr: "tracks t w st es cs w1"
  obtains w2 where
    "fail_workflow R st why category w1 = (Inr (stamped R (st\<lparr>status := FAILED, last_error := Some why, current_step := None\<rparr>)), w2)"
    "tracks t w (stamped R (st\<lparr>status := FAILED, last_error := Some why, current_step := None\<rparr>))
      (es @ [(''WORKFLOW_FAILED'', [(''category'', JStr category), (''reason'', JStr why)])]) cs w2"
    "approvals w2 = approvals w1" "tool_results w2 = tool_results w1"
proof -
  let ?st = "st\<lparr>status := FAILED, last_error := Some why, current_step := None\<rparr>"
  have id: "task_id st = t" by (rule tracks_task [OF tr])
  obtain w2 where 2: "Runtime.save R ?st w1 = (Inr (stamped R ?st), w2)" "tracks t w (stamped R ?st) es cs w2"
    "approvals w2 = approvals w1" "tool_results w2 = tool_results w1"
    by (rule tracks_save [OF run tr, of ?st]) (use id in auto)
  obtain w3 where 3: "event R t ''WORKFLOW_FAILED'' [(''category'', JStr category), (''reason'', JStr why)] w2 = (Inr (), w3)"
    "tracks t w (stamped R ?st)
      (es @ [(''WORKFLOW_FAILED'', [(''category'', JStr category), (''reason'', JStr why)])]) cs w3"
    "approvals w3 = approvals w2" "tool_results w3 = tool_results w2"
    by (rule tracks_event [OF run 2(2)])
  have "fail_workflow R st why category w1 = (Inr (stamped R ?st), w3)"
    using 2(1) 3(1) id by (simp add: fail_workflow_def bindE_def ret_def)
  with that 3(2-4) 2(3,4) show thesis by simp
qed

text \<open>
  A blocked tool ends the workflow as FAILED with the reason of the policy, in the checkpoint and in
  two events; nothing is called, recorded or put up for approval.
\<close>

theorem blocked_tool_denied:
  assumes run: "local_runtime R f u answer" and ok: "world_ok w" and cp: "checkpoint w t = Some st"
    and ready: "ready_state st" and d: "f (started R st) = Inr d"
    and use: "d_action d = Use_Tool" "d_tool d = Some tool"
    and valid: "validate_and_decide (wf_platform R) tool (dump_arguments (d_arguments d)) = Inr (v, pol)"
    and policy: "\<not> pd_allowed pol"
    and fine: "reason (wf_loop_detector R) (tool_history (requested R u st d tool))
      (progress_history (requested R u st d tool)) = None"
  shows "\<exists>st' w'. process R t w = (Inr st', w') \<and> status st' = FAILED \<and> last_error st' = Some (pd_reason pol) \<and>
    tracks t w st' (decision_events st d @
      [(''POLICY_DENIED'', [(''tool'', JStr (tool_value tool)), (''reason'', JStr (pd_reason pol))]),
       (''WORKFLOW_FAILED'', [(''category'', JStr ''policy''), (''reason'', JStr (pd_reason pol))])]) [] w' \<and>
    approvals w' = approvals w \<and> tool_results w' = tool_results w"
proof -
  obtain w2 where 2: "process R t w = follow_policy R (stamped R (requested R u st d tool)) d tool v pol w2"
    "tracks t w (stamped R (requested R u st d tool)) (decision_events st d) [] w2"
    "approvals w2 = approvals w" "tool_results w2 = tool_results w"
    by (rule policy_run [OF run ok cp ready d use valid fine])
  obtain w3 where 3: "event R t ''POLICY_DENIED'' [(''tool'', JStr (tool_value tool)), (''reason'', JStr (pd_reason pol))] w2 = (Inr (), w3)"
    "tracks t w (stamped R (requested R u st d tool)) (decision_events st d @
      [(''POLICY_DENIED'', [(''tool'', JStr (tool_value tool)), (''reason'', JStr (pd_reason pol))])]) [] w3"
    "approvals w3 = approvals w2" "tool_results w3 = tool_results w2"
    by (rule tracks_event [OF run 2(2)])
  obtain w4 where 4: "fail_workflow R (stamped R (requested R u st d tool)) (pd_reason pol) ''policy'' w3 =
      (Inr (stamped R ((stamped R (requested R u st d tool))\<lparr>status := FAILED,
         last_error := Some (pd_reason pol), current_step := None\<rparr>)), w4)"
    "tracks t w (stamped R ((stamped R (requested R u st d tool))\<lparr>status := FAILED,
         last_error := Some (pd_reason pol), current_step := None\<rparr>))
      ((decision_events st d @
      [(''POLICY_DENIED'', [(''tool'', JStr (tool_value tool)), (''reason'', JStr (pd_reason pol))])]) @
       [(''WORKFLOW_FAILED'', [(''category'', JStr ''policy''), (''reason'', JStr (pd_reason pol))])]) [] w4"
    "approvals w4 = approvals w3" "tool_results w4 = tool_results w3"
    by (rule fail_run [OF run 3(2)])
  have "process R t w = (Inr (stamped R ((stamped R (requested R u st d tool))\<lparr>status := FAILED,
         last_error := Some (pd_reason pol), current_step := None\<rparr>)), w4)"
    using 2(1) policy 3(1) 4(1) tracks_task [OF tracks_start [OF ok cp]]
    by (simp add: follow_policy_def bindE_def)
  then show ?thesis using 4(2-4) 3(3,4) 2(3,4) by simp
qed

text \<open>
  A loop is stopped before it acts: when the detector objects to the request, the delivery returns
  the workflow LOOP_STOPPED with the reason, two decision events and LOOP_DETECTED; nothing is called.
\<close>

theorem loop_stopped_before_acting:
  assumes run: "local_runtime R f u answer" and ok: "world_ok w" and cp: "checkpoint w t = Some st"
    and ready: "ready_state st" and d: "f (started R st) = Inr d"
    and use: "d_action d = Use_Tool" "d_tool d = Some tool"
    and valid: "validate_and_decide (wf_platform R) tool (dump_arguments (d_arguments d)) = Inr (v, pol)"
    and loop: "reason (wf_loop_detector R) (tool_history (requested R u st d tool))
      (progress_history (requested R u st d tool)) = Some why"
  shows "\<exists>st' w'. process R t w = (Inr st', w') \<and> status st' = LOOP_STOPPED \<and> terminal st' \<and>
    last_error st' = Some why \<and> tool_calls st' = tool_calls st \<and>
    tracks t w st' (decision_events st d @
      [(''LOOP_DETECTED'', [(''reason'', JStr why),
         (''history'', JArr (map JStr (slice_from (- 12) (tool_history st @ [tool_value tool]))))])]) [] w' \<and>
    approvals w' = approvals w \<and> tool_results w' = tool_results w"
proof -
  obtain w1 where 1: "process R t w = act_on_decision R (considered R u st d) d w1"
    "tracks t w (started R st) (decision_events st d) [] w1"
    "approvals w1 = approvals w" "tool_results w1 = tool_results w"
    by (rule decision_run [OF run ok cp ready d])
  let ?st = "(requested R u st d tool)\<lparr>status := LOOP_STOPPED, last_error := Some why\<rparr>"
  have id: "task_id st = t" by (rule tracks_task [OF tracks_start [OF ok cp]])
  obtain w2 where 2: "Runtime.save R ?st w1 = (Inr (stamped R ?st), w2)"
    "tracks t w (stamped R ?st) (decision_events st d) [] w2"
    "approvals w2 = approvals w1" "tool_results w2 = tool_results w1"
    by (rule tracks_save [OF run 1(2), of ?st]) (use id in auto)
  let ?p = "[(''reason'', JStr why),
         (''history'', JArr (map JStr (slice_from (- 12) (tool_history st @ [tool_value tool]))))]"
  obtain w3 where 3: "event R t ''LOOP_DETECTED'' ?p w2 = (Inr (), w3)"
    "tracks t w (stamped R ?st) (decision_events st d @ [(''LOOP_DETECTED'', ?p)]) [] w3"
    "approvals w3 = approvals w2" "tool_results w3 = tool_results w2"
    by (rule tracks_event [OF run 2(2)])
  have "act_on_decision R (considered R u st d) d w1 = stop_loop R (requested R u st d tool) why w1"
    using use valid loop
    by (simp add: act_on_decision_def act_on_tool_def bindE_def lift_sum_def Let_def flip: requested_def)
  also have "\<dots> = (Inr (stamped R ?st), w3)"
    using 2(1) 3(1) id by (simp add: stop_loop_def bindE_def ret_def)
  finally show ?thesis using 1(1,3,4) 2(3,4) 3(2-4)
    by (intro exI [of _ "stamped R ?st"] exI [of _ w3]) (simp add: terminal_def)
qed

lemma process_pending:
  assumes run: "local_runtime R f u answer" and cp: "checkpoint w t = Some st"
    and st: "\<not> terminal st" "status st \<noteq> WAITING_FOR_APPROVAL" "pending_action st = Some p"
  shows "process R t w = resume_approved_action R st p w"
  using st cp
  by (simp add: process_def required_state_def local_runtimeD(1) [OF run] bindE_def get_workflow_checkpoint ret_def)

lemma resume_run:
  assumes run: "local_runtime R f u answer" and ok: "world_ok w" and cp: "checkpoint w t = Some st"
    and st: "\<not> terminal st" "status st \<noteq> WAITING_FOR_APPROVAL" "pending_action st = Some p"
    and yes: "approval_of w t (action_id p) = Some ''APPROVED''"
    and valid: "validate_and_decide (wf_platform R) (pa_tool p) (pa_arguments p) = Inr (v, pol)" "pd_allowed pol"
    and k: "k = action_key (wf_platform R) t (pa_tool p) v"
    and led: "ledger w k = None \<or> ledger w k = Some (arguments_hash (wf_platform R) v, r)"
    and ans: "\<And>s n w'. answer s (pa_tool p) v n w' = Inr (JObj r)" and r: "r \<noteq> []"
    and st': "st' = stamped R (tool_completed (wf_platform R) st (pa_tool p) r)"
  obtains w' where "process R t w = (Inr st', w')"
    "tracks t w st' [(''APPROVED_ACTION_RESUMED'', [(''action_id'', JStr (action_id p))]),
      completed_event (pa_tool p) (ledger w k \<noteq> None) r]
      (if ledger w k = None then [call_of t (pa_tool p) v] else []) w'"
    "ledger w' = (ledger w)(k \<mapsto> (arguments_hash (wf_platform R) v, r))" "approvals w' = approvals w"
proof -
  have id: "task_id st = t" by (rule tracks_task [OF tracks_start [OF ok cp]])
  let ?e = "(''APPROVED_ACTION_RESUMED'', [(''action_id'', JStr (action_id p))])"
  obtain w1 where 1: "event R t (fst ?e) (snd ?e) w = (Inr (), w1)" "tracks t w st ([] @ [?e]) [] w1"
    "approvals w1 = approvals w" "tool_results w1 = tool_results w"
    by (rule tracks_event [OF run tracks_start [OF ok cp], of "fst ?e" "snd ?e"]) simp
  have same: "ledger w1 = ledger w" by (rule view_cong(3) [OF 1(4)])
  have led1: "ledger w1 (action_key (wf_platform R) t (pa_tool p) v) = None \<or>
      ledger w1 (action_key (wf_platform R) t (pa_tool p) v) = Some (arguments_hash (wf_platform R) v, r)"
    using led by (simp add: same k)
  have ans1: "\<forall>w'. ledger w1 (action_key (wf_platform R) t (pa_tool p) v) = None \<longrightarrow>
      answer st (pa_tool p) v (attempt_number st (pa_tool p)) w' = Inr (JObj r)" using ans by blast
  obtain w2 where 2: "execute_tool R st (pa_tool p) (pa_arguments p) w1 =
      (Inr (stamped R (tool_completed (wf_platform R) st (pa_tool p) r)), w2)"
    "tracks t w (stamped R (tool_completed (wf_platform R) st (pa_tool p) r))
      (([] @ [?e]) @ [completed_event (pa_tool p) (ledger w1 (action_key (wf_platform R) t (pa_tool p) v) \<noteq> None) r])
      ([] @ (if ledger w1 (action_key (wf_platform R) t (pa_tool p) v) = None then [call_of t (pa_tool p) v] else [])) w2"
    "approvals w2 = approvals w1"
    "ledger w2 = (ledger w1)(action_key (wf_platform R) t (pa_tool p) v \<mapsto> (arguments_hash (wf_platform R) v, r))"
    by (rule execute_run [OF run 1(2) valid led1 ans1 r])
  have "process R t w = execute_tool R st (pa_tool p) (pa_arguments p) w1"
    unfolding process_pending [OF run cp st] using yes 1(1) id
    by (simp add: resume_approved_action_def local_runtimeD(1) [OF run] approval_status_eq bindE_def)
  with that [of w2] 2 1(3) st' show thesis by (simp add: same k)
qed

text \<open>
  C37: A pending action is executed exactly when it is approved: without the approval the delivery returns
  the workflow waiting and changes nothing; with it, the action runs with its validated arguments, at most
  once, and the workflow comes back QUEUED with the result and nothing pending.
\<close>

theorem approved_action_resumed:
  assumes run: "local_runtime R f u answer" and ok: "world_ok w" and cp: "checkpoint w t = Some st"
    and st: "\<not> terminal st" "status st \<noteq> WAITING_FOR_APPROVAL" "pending_action st = Some p"
    and valid: "validate_and_decide (wf_platform R) (pa_tool p) (pa_arguments p) = Inr (v, pol)" "pd_allowed pol"
    and k: "k = action_key (wf_platform R) t (pa_tool p) v"
    and led: "ledger w k = None \<or> ledger w k = Some (arguments_hash (wf_platform R) v, r)"
    and ans: "\<And>s n w'. answer s (pa_tool p) v n w' = Inr (JObj r)" and r: "r \<noteq> []"
  shows "if approval_of w t (action_id p) \<noteq> Some ''APPROVED''
    then process R t w = (Inr (st\<lparr>status := WAITING_FOR_APPROVAL\<rparr>), w)
    else \<exists>st' w'. process R t w = (Inr st', w') \<and> status st' = QUEUED \<and> pending_action st' = None \<and>
      evidence st' = AList.update (tool_value (pa_tool p)) (JObj r) (evidence st) \<and>
      tracks t w st' [(''APPROVED_ACTION_RESUMED'', [(''action_id'', JStr (action_id p))]),
          completed_event (pa_tool p) (ledger w k \<noteq> None) r]
        (if ledger w k = None then [call_of t (pa_tool p) v] else []) w' \<and>
      ledger w' = (ledger w)(k \<mapsto> (arguments_hash (wf_platform R) v, r)) \<and> approvals w' = approvals w"
proof (cases "approval_of w t (action_id p) = Some ''APPROVED''")
  case False
  have "resume_approved_action R st p w = (Inr (st\<lparr>status := WAITING_FOR_APPROVAL\<rparr>), w)"
    using False tracks_task [OF tracks_start [OF ok cp]]
    by (simp add: resume_approved_action_def local_runtimeD(1) [OF run] approval_status_eq bindE_def ret_def)
  then show ?thesis using False process_pending [OF run cp st] by simp
next
  case True
  obtain w' where "process R t w = (Inr (stamped R (tool_completed (wf_platform R) st (pa_tool p) r)), w')"
    "tracks t w (stamped R (tool_completed (wf_platform R) st (pa_tool p) r))
      [(''APPROVED_ACTION_RESUMED'', [(''action_id'', JStr (action_id p))]),
       completed_event (pa_tool p) (ledger w k \<noteq> None) r]
      (if ledger w k = None then [call_of t (pa_tool p) v] else []) w'"
    "ledger w' = (ledger w)(k \<mapsto> (arguments_hash (wf_platform R) v, r))" "approvals w' = approvals w"
    by (rule resume_run [OF run ok cp st True valid k led ans r refl])
  with True show ?thesis
    by (auto intro!: exI [of _ "stamped R (tool_completed (wf_platform R) st (pa_tool p) r)"] exI [of _ w'])
qed

text \<open>
  C38: A transient failure of a tool is not swallowed: the delivery raises it, so that the worker retries,
  with the checkpoint QUEUED again, the error and one retry more noted, the failed call on record and no
  result recorded.
\<close>

theorem tool_failure_raised:
  assumes run: "local_runtime R f u answer" and ok: "world_ok w" and cp: "checkpoint w t = Some st"
    and ready: "ready_state st" and d: "f (started R st) = Inr d"
    and use: "d_action d = Use_Tool" "d_tool d = Some tool"
    and valid: "validate_and_decide (wf_platform R) tool (dump_arguments (d_arguments d)) = Inr (v, pol)"
    and policy: "pd_allowed pol" "\<not> pd_approval_required pol" and calm: "wf_chaos_pause_seconds R = 0"
    and fine: "reason (wf_loop_detector R) (tool_history (requested R u st d tool))
      (progress_history (requested R u st d tool)) = None"
    and miss: "ledger w (action_key (wf_platform R) t tool v) = None"
    and ans: "\<And>s n w'. answer s tool v n w' = Inl e" and e: "is_retryable e"
  shows "\<exists>st' w'. process R t w = (Inl e, w') \<and> status st' = QUEUED \<and> retries st' = retries st + 1 \<and>
    last_error st' = Some (error_text e) \<and> tool_calls st' = tool_calls st \<and> evidence st' = evidence st \<and>
    tracks t w st' (decision_events st d @ [retryable_event tool e]) [call_of t tool v] w' \<and>
    tool_results w' = tool_results w \<and> approvals w' = approvals w"
proof -
  let ?asked = "stamped R (requested R u st d tool)"
  obtain w2 where 2: "process R t w = follow_policy R ?asked d tool v pol w2"
    "tracks t w ?asked (decision_events st d) [] w2"
    "approvals w2 = approvals w" "tool_results w2 = tool_results w"
    by (rule policy_run [OF run ok cp ready d use valid fine])
  have id: "task_id ?asked = t" by (rule tracks_task [OF 2(2)])
  have miss2: "ledger w2 (action_key (wf_platform R) t tool v) = None"
    using miss by (simp only: view_cong(3) [OF 2(4)])
  obtain w3 where 3: "gateway_execute (wf_platform R) (wf_store R) (wf_backend R) ?asked tool v w2 = (Inl e, w3)"
    "tracks t w ?asked (decision_events st d) ([] @ [call_of t tool v]) w3" "approvals w3 = approvals w2"
    "tool_results w3 = tool_results w2"
    by (rule gateway_failed [OF run 2(2) id validate_and_decide_idem [OF valid] policy(1) miss2 ans])
  let ?st = "stamped R (?asked\<lparr>retries := retries ?asked + 1, last_error := Some (error_text e), status := QUEUED\<rparr>)"
  obtain w4 where 4: "execute_tool R ?asked tool v w2 = (Inl e, w4)"
    "tracks t w ?st (decision_events st d @ [retryable_event tool e]) ([] @ [call_of t tool v]) w4"
    "approvals w4 = approvals w3" "tool_results w4 = tool_results w3"
    by (rule execute_retryable [OF run 3(2) e 3(1) refl])
  have "process R t w = (Inl e, w4)"
    using 2(1) policy calm 4(1) by (simp add: follow_policy_def chaos_pause_def)
  then show ?thesis using 2(3,4) 3(3,4) 4(2-4) by (intro exI [of _ ?st] exI [of _ w4]) simp
qed

section \<open>Samples\<close>

definition scripted ::
  "agent_decision \<Rightarrow> (workflow_state \<Rightarrow> tool_name \<Rightarrow> dict \<Rightarrow> int \<Rightarrow> world \<Rightarrow> error + json) \<Rightarrow> world workflow_runtime" where
  "scripted d answer = make_runtime sample_platform default_settings (sqlite_store sample_platform 5)
     \<lparr>en_decide = (\<lambda>st. lift_sum (Inr d)), en_take_usage = ret (0, 0)\<rparr> (observed answer) (\<lambda>_. ret ()) 5"

lemma scripted_local: "local_runtime (scripted d answer) (\<lambda>_. Inr d) (0, 0) answer"
  by (simp add: local_runtime_def scripted_def)

lemma scripted_simps [simp]:
  "wf_platform (scripted d answer) = sample_platform" "wf_chaos_pause_seconds (scripted d answer) = 0"
  "wf_loop_detector (scripted d answer) = default_loop_detector"
  by (simp_all add: scripted_def) (simp add: make_runtime_def default_settings_def)

definition sample_state :: workflow_state where
  "sample_state = new_workflow ''t'' ''restore checkout'' ''s'' 0"

lemma sample_checkpoint: "checkpoint sample_world ''t'' = Some sample_state"
  by (simp add: sample_world_def checkpoint_create sample_state_def find_workflow_def empty_world_def new_workflow_def)

lemma sample_ready: "ready_state sample_state"
  by (simp add: ready_state_def sample_state_def new_workflow_def terminal_def)

lemma sample_fine:
  "reason (wf_loop_detector (scripted d answer)) (tool_history (requested R u sample_state d' tool))
     (progress_history (requested R u sample_state d' tool)) = None"
  by (simp add: reason_def repeated_suffix_def no_progress_def default_loop_detector_def requested_def
      tool_requested_def considered_def note_findings_def model_called_def started_def sample_state_def new_workflow_def)

lemma sample_ledger: "ledger sample_world k = None"
  by (simp add: ledger_def find_result_def sample_world_def create_workflow_frame empty_world_def)

definition sample_arguments :: dict where
  "sample_arguments = [(''service'', JStr ''checkout-service''), (''environment'', JStr ''production'')]"

lemma sample_valid:
  "validate_and_decide sample_platform READ_ALERT (dump_arguments (d_arguments (use_tool READ_ALERT why diag))) =
     Inr (sample_arguments, evaluate READ_ALERT sample_arguments)"
  "validate_and_decide sample_platform RESTART_SERVICE (dump_arguments (d_arguments (use_tool RESTART_SERVICE why diag))) =
     Inr (sample_arguments, evaluate RESTART_SERVICE sample_arguments)"
  "validate_and_decide sample_platform DELETE_DATABASE (dump_arguments (d_arguments (use_tool DELETE_DATABASE why diag))) =
     Inr (sample_arguments, evaluate DELETE_DATABASE sample_arguments)"
  unfolding use_tool_def agent_decision.simps by code_simp+

lemma sample_policy:
  "pd_allowed (evaluate READ_ALERT sample_arguments)" "\<not> pd_approval_required (evaluate READ_ALERT sample_arguments)"
  "pd_allowed (evaluate RESTART_SERVICE sample_arguments)" "pd_approval_required (evaluate RESTART_SERVICE sample_arguments)"
  "\<not> pd_allowed (evaluate DELETE_DATABASE sample_arguments)"
  by code_simp+

lemma use_tool_simps [simp]: "d_action (use_tool tool why diag) = Use_Tool" "d_tool (use_tool tool why diag) = Some tool"
  by (simp_all add: use_tool_def)

definition all_good :: "workflow_state \<Rightarrow> tool_name \<Rightarrow> dict \<Rightarrow> int \<Rightarrow> world \<Rightarrow> error + json" where
  "all_good st tool args n w = Inr (JObj [(''ok'', JBool True)])"

definition timing_out :: "workflow_state \<Rightarrow> tool_name \<Rightarrow> dict \<Rightarrow> int \<Rightarrow> world \<Rightarrow> error + json" where
  "timing_out st tool args n w = Inl (RetryableWorkflowError ''timed out'')"

theorem allowed_tool_runs_once_witness:
  "\<exists>st' w'. process (scripted (use_tool READ_ALERT ''look'' None) all_good) ''t'' sample_world = (Inr st', w') \<and>
     map_of (evidence st') ''read_alert'' = Some (JObj [(''ok'', JBool True)]) \<and>
     invocations w' = [call_of ''t'' READ_ALERT sample_arguments]"
proof -
  let ?R = "scripted (use_tool READ_ALERT ''look'' None) all_good"
  have a: "all_good s READ_ALERT sample_arguments n w' = Inr (JObj [(''ok'', JBool True)])" for s n w'
    by (simp add: all_good_def)
  have v: "validate_and_decide (wf_platform ?R) READ_ALERT (dump_arguments (d_arguments (use_tool READ_ALERT ''look'' None))) =
      Inr (sample_arguments, evaluate READ_ALERT sample_arguments)" using sample_valid(1) by simp
  have i: "invocations sample_world = []" by (simp add: sample_world_def create_workflow_frame empty_world_def)
  have e: "evidence sample_state = []" by (simp add: sample_state_def new_workflow_def)
  show ?thesis
    using allowed_tool_runs_once [OF scripted_local sample_world_ok sample_checkpoint sample_ready refl
        use_tool_simps v sample_policy(1,2) scripted_simps(2) sample_fine disjI1 [OF sample_ledger] refl a] sample_ledger i e
    by (auto simp: tracks_def)
qed

theorem high_risk_tool_waits_witness:
  "\<exists>st' p w'. process (scripted (use_tool RESTART_SERVICE ''restart'' None) all_good) ''t'' sample_world = (Inr st', w') \<and>
     pending_action st' = Some p \<and> approval_of w' ''t'' (action_id p) = Some ''PENDING'' \<and> invocations w' = []"
proof -
  let ?R = "scripted (use_tool RESTART_SERVICE ''restart'' None) all_good"
  have v: "validate_and_decide (wf_platform ?R) RESTART_SERVICE (dump_arguments (d_arguments (use_tool RESTART_SERVICE ''restart'' None))) =
      Inr (sample_arguments, evaluate RESTART_SERVICE sample_arguments)" using sample_valid(2) by simp
  have i: "invocations sample_world = []" by (simp add: sample_world_def create_workflow_frame empty_world_def)
  have n: "approval_of sample_world t a = None" for t a
    by (simp add: approval_of_def find_approval_def sample_world_def create_workflow_frame empty_world_def)
  show ?thesis
    using high_risk_tool_waits [OF scripted_local sample_world_ok sample_checkpoint sample_ready refl
        use_tool_simps v sample_policy(3,4) sample_fine refl] i n
    by (auto simp: tracks_def)
qed

theorem blocked_tool_denied_witness:
  "\<exists>st' w'. process (scripted (use_tool DELETE_DATABASE ''drop'' None) all_good) ''t'' sample_world = (Inr st', w') \<and>
     status st' = FAILED \<and> invocations w' = []"
proof -
  let ?R = "scripted (use_tool DELETE_DATABASE ''drop'' None) all_good"
  have v: "validate_and_decide (wf_platform ?R) DELETE_DATABASE (dump_arguments (d_arguments (use_tool DELETE_DATABASE ''drop'' None))) =
      Inr (sample_arguments, evaluate DELETE_DATABASE sample_arguments)" using sample_valid(3) by simp
  have i: "invocations sample_world = []" by (simp add: sample_world_def create_workflow_frame empty_world_def)
  show ?thesis
    using blocked_tool_denied [OF scripted_local sample_world_ok sample_checkpoint sample_ready refl
        use_tool_simps v sample_policy(5) sample_fine] i
    by (auto simp: tracks_def)
qed

theorem tool_failure_raised_witness:
  "\<exists>w' st'. process (scripted (use_tool READ_ALERT ''look'' None) timing_out) ''t'' sample_world =
       (Inl (RetryableWorkflowError ''timed out''), w') \<and> checkpoint w' ''t'' = Some st' \<and> retries st' = 1"
proof -
  let ?R = "scripted (use_tool READ_ALERT ''look'' None) timing_out"
  have a: "timing_out s READ_ALERT sample_arguments n w' = Inl (RetryableWorkflowError ''timed out'')" for s n w'
    by (simp add: timing_out_def)
  have v: "validate_and_decide (wf_platform ?R) READ_ALERT (dump_arguments (d_arguments (use_tool READ_ALERT ''look'' None))) =
      Inr (sample_arguments, evaluate READ_ALERT sample_arguments)" using sample_valid(1) by simp
  have e: "retries sample_state = 0" by (simp add: sample_state_def new_workflow_def)
  show ?thesis
    using tool_failure_raised [OF scripted_local sample_world_ok sample_checkpoint sample_ready refl
        use_tool_simps v sample_policy(1,2) scripted_simps(2) sample_fine sample_ledger a] e
    by (auto simp: tracks_def)
qed

text \<open>A workflow one request below its budget, and one with an approved action.\<close>

definition busy_state :: workflow_state where
  "busy_state = sample_state\<lparr>tool_history := replicate 19 ''read_alert''\<rparr>"

definition resumable_state :: workflow_state where
  "resumable_state = sample_state\<lparr>pending_action := Some \<lparr>action_id = ''a'', pa_tool = RESTART_SERVICE,
     pa_arguments = sample_arguments, pa_risk = HIGH, pa_rationale = ''restart'', pa_created_at = 0\<rparr>\<rparr>"

definition approved_sample :: world where
  "approved_sample = snd (resolve_approval 2 ''t'' ''a'' True ''ann'' None (snd (create_approval 1 ''t'' ''a''
     (snd (create_workflow 0 resumable_state 5 empty_world)))))"

lemma created_world:
  assumes "task_id st = ''t''"
  shows "world_ok (snd (create_workflow 0 st 5 empty_world))"
    and "checkpoint (snd (create_workflow 0 st 5 empty_world)) ''t'' = Some st"
  using relatesD [OF keeps_ok_create, of empty_world 0 st 5] world_ok_empty assms
  by (auto simp: checkpoint_create find_workflow_def empty_world_def)

theorem loop_stopped_before_acting_witness:
  "\<exists>st' w'. process (scripted (use_tool READ_ALERT ''look'' None) all_good) ''t''
       (snd (create_workflow 0 busy_state 5 empty_world)) = (Inr st', w') \<and> status st' = LOOP_STOPPED"
proof -
  let ?d = "use_tool READ_ALERT ''look'' None"
  let ?R = "scripted ?d all_good"
  have t: "task_id busy_state = ''t''" by (simp add: busy_state_def sample_state_def new_workflow_def)
  have ready: "ready_state busy_state"
    using sample_ready by (simp add: ready_state_def busy_state_def terminal_def)
  have v: "validate_and_decide (wf_platform ?R) READ_ALERT (dump_arguments (d_arguments ?d)) =
      Inr (sample_arguments, evaluate READ_ALERT sample_arguments)" using sample_valid(1) by simp
  have "tool_history (requested ?R (0, 0) busy_state ?d READ_ALERT) = replicate 19 ''read_alert'' @ [''read_alert'']"
    by (simp add: busy_state_def)
  then have loop: "reason (wf_loop_detector ?R) (tool_history (requested ?R (0, 0) busy_state ?d READ_ALERT))
      (progress_history (requested ?R (0, 0) busy_state ?d READ_ALERT)) =
      Some (''tool-call budget exceeded ('' @ str_int 20 @ '')'')"
    by (simp add: reason_def default_loop_detector_def)
  from loop_stopped_before_acting [OF scripted_local created_world [OF t] ready refl use_tool_simps v loop]
  show ?thesis by blast
qed

lemma approved_sample:
  "world_ok approved_sample" "checkpoint approved_sample ''t'' = Some resumable_state"
  "approval_of approved_sample ''t'' ''a'' = Some ''APPROVED''" "ledger approved_sample k = None"
  "invocations approved_sample = []"
proof -
  have t: "task_id resumable_state = ''t''" by (simp add: resumable_state_def sample_state_def new_workflow_def)
  let ?w = "snd (create_workflow 0 resumable_state 5 empty_world)"
  show "world_ok approved_sample"
    using created_world(1) [OF t] relatesD [OF keeps_ok_create_approval] relatesD [OF keeps_ok_resolve]
    by (auto simp: approved_sample_def)
  have "checkpoint approved_sample = checkpoint ?w"
    by (rule view_cong) (simp add: approved_sample_def create_approval_def resolve_approval_def Let_def)
  then show "checkpoint approved_sample ''t'' = Some resumable_state" using created_world(2) [OF t] by simp
  show "approval_of approved_sample ''t'' ''a'' = Some ''APPROVED''" by code_simp
  show "ledger approved_sample k = None" "invocations approved_sample = []"
    by (simp_all add: ledger_def find_result_def approved_sample_def create_approval_def resolve_approval_def Let_def
        create_workflow_frame empty_world_def)
qed

theorem approved_action_resumed_witness:
  "\<exists>st' w'. process (scripted (use_tool READ_ALERT ''look'' None) all_good) ''t'' approved_sample = (Inr st', w') \<and>
     pending_action st' = None \<and> invocations w' = [call_of ''t'' RESTART_SERVICE sample_arguments]"
proof -
  let ?R = "scripted (use_tool READ_ALERT ''look'' None) all_good"
  let ?p = "\<lparr>action_id = ''a'', pa_tool = RESTART_SERVICE, pa_arguments = sample_arguments, pa_risk = HIGH,
    pa_rationale = ''restart'', pa_created_at = 0\<rparr>"
  have a: "all_good s (pa_tool ?p) sample_arguments n w' = Inr (JObj [(''ok'', JBool True)])" for s n w'
    by (simp add: all_good_def)
  have st: "\<not> terminal resumable_state" "status resumable_state \<noteq> WAITING_FOR_APPROVAL"
    "pending_action resumable_state = Some ?p"
    using sample_ready by (simp_all add: resumable_state_def ready_state_def terminal_def)
  have v: "validate_and_decide (wf_platform ?R) (pa_tool ?p) (pa_arguments ?p) =
      Inr (sample_arguments, evaluate RESTART_SERVICE sample_arguments)"
    using validate_and_decide_idem [OF sample_valid(2) [of "''restart''" None]] by simp
  from approved_action_resumed [OF scripted_local approved_sample(1,2) st v sample_policy(3) refl _ a] approved_sample(3-5)
  show ?thesis by (auto simp: tracks_def)
qed

end
