(* ===== verification/Guarded_Runs.thy ===== *)
theory Guarded_Runs
  imports Sql_Evolution Runtime_Laws
begin

text \<open>
  What a delivery and a request keep over any store. \<open>good\<close>: a checkpoint is typed, within its budget, and
  when it waits it names a validated production restart under its action id. The locale
  \<open>guarded_runtime\<close> states what a store and a tool backend have to keep - an invariant of their state, and
  the approvals that were granted - and shows that every run of the runtime, the worker and the API keeps
  the invariant, because it saves good checkpoints only and calls a tool only as the policy permits.
\<close>

section \<open>Good checkpoints\<close>

definition validated :: "tool_name \<Rightarrow> dict \<Rightarrow> bool" where
  "validated tool args \<longleftrightarrow> validate_arguments (argument_model_of tool) args = Some args"

text \<open>
  The loop detector refuses the request that would be the twentieth in the history, so a workflow
  completes at most nineteen tool calls; an action that waits for approval has its call reserved.
\<close>

definition reserved_calls :: "workflow_state \<Rightarrow> int" where
  "reserved_calls st = tool_calls st + (if pending_action st = None then 0 else 1)"

definition within_budget :: "workflow_state \<Rightarrow> bool" where
  "within_budget st \<longleftrightarrow>
     reserved_calls st < max_tool_calls default_loop_detector \<and>
     reserved_calls st \<le> int (length (tool_history st))"

text \<open>
  The types of a checkpoint: its history names tools, each completed step was requested and has exactly one
  piece of evidence, an object; the counters count, and the fingerprints are one per request and one per
  completed call.
\<close>

definition is_object :: "json \<Rightarrow> bool" where
  "is_object j = (case j of JObj d \<Rightarrow> True | _ \<Rightarrow> False)"

definition typed_state :: "workflow_state \<Rightarrow> bool" where
  "typed_state st \<longleftrightarrow>
     set (tool_history st) \<subseteq> set (map tool_value tool_names) \<and>
     distinct (completed_steps st) \<and> set (completed_steps st) \<subseteq> set (tool_history st) \<and>
     distinct (map fst (evidence st)) \<and> fst ` set (evidence st) = set (completed_steps st) \<and>
     (\<forall>kv \<in> set (evidence st). is_object (snd kv)) \<and>
     0 \<le> retries st \<and> 0 \<le> model_calls st \<and> int (length (completed_steps st)) \<le> tool_calls st \<and>
     int (length (progress_history st)) = int (length (tool_history st)) + tool_calls st"

definition room :: "tool_name \<Rightarrow> workflow_state \<Rightarrow> bool" where
  \<comment> \<open>the tool was requested, and its call is within the budget\<close>
  "room tool st \<longleftrightarrow>
     tool_calls st + 1 < max_tool_calls default_loop_detector \<and>
     tool_calls st + 1 \<le> int (length (tool_history st)) \<and> tool_value tool \<in> set (tool_history st)"

definition good :: "platform \<Rightarrow> workflow_state \<Rightarrow> bool" where
  "good pf st \<longleftrightarrow>
     typed_state st \<and> within_budget st \<and>
     (case pending_action st of
        None \<Rightarrow> status st \<noteq> WAITING_FOR_APPROVAL
      | Some p \<Rightarrow>
          action_id p = action_key pf (task_id st) (pa_tool p) (pa_arguments p) \<and>
          validated (pa_tool p) (pa_arguments p) \<and>
          production_restart (pa_tool p) (pa_arguments p) \<and> tool_value (pa_tool p) \<in> set (tool_history st))"

lemma typed_cong:
  "typed_state st \<Longrightarrow> tool_history st' = tool_history st \<Longrightarrow> completed_steps st' = completed_steps st \<Longrightarrow>
    evidence st' = evidence st \<Longrightarrow> progress_history st' = progress_history st \<Longrightarrow> tool_calls st' = tool_calls st \<Longrightarrow>
    retries st \<le> retries st' \<Longrightarrow> model_calls st \<le> model_calls st' \<Longrightarrow> typed_state st'"
  by (auto simp: typed_state_def)

lemma typed_new: "typed_state (new_workflow t g sc now)"
  by (simp add: typed_state_def new_workflow_def)

lemma tool_named [simp]: "tool_value tool \<in> set (map tool_value tool_names)"
  by (cases tool) (simp_all add: tool_names_def)

lemma typed_requested: "typed_state st \<Longrightarrow> typed_state (tool_requested p st tool)"
  using tool_named [of tool] by (auto simp: typed_state_def tool_requested_def)

lemma typed_completed:
  assumes "typed_state st" and "tool_value tool \<in> set (tool_history st)"
  shows "typed_state (tool_completed p st tool result)"
proof -
  let ?e = "AList.update (tool_value tool) (JObj result) (evidence st)"
  have one: "distinct (map fst ?e)" using assms(1) by (simp add: typed_state_def distinct_update)
  have "is_object (snd kv)" if "kv \<in> set ?e" for kv
  proof -
    have "map_of ?e (fst kv) = Some (snd kv)" using that by (intro map_of_is_SomeI one) simp
    then have "snd kv = JObj result \<or> kv \<in> set (evidence st)"
      by (cases "fst kv = tool_value tool") (auto simp: update_conv' dest: map_of_SomeD)
    with assms(1) show ?thesis by (auto simp: typed_state_def is_object_def)
  qed
  moreover have "fst ` set ?e = insert (tool_value tool) (fst ` set (evidence st))"
    by (simp add: dom_update)
  ultimately show ?thesis
    using assms by (auto simp: typed_state_def tool_completed_def Let_def distinct_update)
qed

lemma good_stamp [simp]: "good pf (st\<lparr>version := v, updated_at := u\<rparr>) = good pf st"
  by (simp add: good_def typed_state_def within_budget_def reserved_calls_def split: option.split)

lemma good_cong:
  "good pf st \<Longrightarrow> pending_action st' = pending_action st \<Longrightarrow> task_id st' = task_id st \<Longrightarrow>
    tool_calls st' = tool_calls st \<Longrightarrow> tool_history st' = tool_history st \<Longrightarrow>
    completed_steps st' = completed_steps st \<Longrightarrow> evidence st' = evidence st \<Longrightarrow>
    progress_history st' = progress_history st \<Longrightarrow> retries st \<le> retries st' \<Longrightarrow> model_calls st \<le> model_calls st' \<Longrightarrow>
    status st' \<noteq> WAITING_FOR_APPROVAL \<Longrightarrow> good pf st'"
  using typed_cong [of st st'] by (simp add: good_def within_budget_def reserved_calls_def split: option.splits)

lemma good_idle:
  "typed_state st \<Longrightarrow> within_budget st \<Longrightarrow> pending_action st = None \<Longrightarrow> status st \<noteq> WAITING_FOR_APPROVAL \<Longrightarrow>
    good pf st"
  by (simp add: good_def)

lemma good_dropped:
  "good pf st \<Longrightarrow> pending_action st' = None \<Longrightarrow> tool_calls st' = tool_calls st \<Longrightarrow>
    tool_history st' = tool_history st \<Longrightarrow> typed_state st' \<Longrightarrow> status st' \<noteq> WAITING_FOR_APPROVAL \<Longrightarrow> good pf st'"
  by (rule good_idle) (auto simp: good_def within_budget_def reserved_calls_def split: if_splits)

lemma good_typed: "good pf st \<Longrightarrow> typed_state st"
  by (simp add: good_def)

lemma good_pending_room: "good pf st \<Longrightarrow> pending_action st = Some p \<Longrightarrow> room (pa_tool p) st"
  by (simp add: good_def within_budget_def reserved_calls_def room_def)

lemma room_stamp [simp]: "room tool (st\<lparr>version := v, updated_at := u\<rparr>) = room tool st"
  by (simp add: room_def)

definition permitted_by ::
  "(string \<Rightarrow> string \<Rightarrow> 's \<Rightarrow> bool) \<Rightarrow> platform \<Rightarrow> string \<Rightarrow> tool_name \<Rightarrow> dict \<Rightarrow> 's \<Rightarrow> bool" where
  \<comment> \<open>what may be called, given the approvals that are granted\<close>
  "permitted_by granted pf t tool args s \<longleftrightarrow>
     tool \<noteq> DELETE_DATABASE \<and> validated tool args \<and>
     (production_restart tool args \<longrightarrow> granted t (action_key pf t tool args) s)"

lemma validate_and_decide_validated:
  "validate_and_decide q tool a = Inr vd \<Longrightarrow> validated tool (fst vd) \<and> snd vd = evaluate tool (fst vd)"
  by (cases vd) (auto simp: validate_and_decide_Inr validated_def intro: validate_idem)

section \<open>Stores and backends\<close>

locale guarded_runtime = runtime_guarantee G R
  for G :: "'s \<Rightarrow> 's \<Rightarrow> bool" and R :: "'s workflow_runtime" +
  fixes I :: "'s \<Rightarrow> bool"
    and granted :: "string \<Rightarrow> string \<Rightarrow> 's \<Rightarrow> bool"
  assumes granted_stays: "G s t \<Longrightarrow> I s \<Longrightarrow> granted w a s \<Longrightarrow> granted w a t"
    and detector: "max_tool_calls (wf_loop_detector R) = max_tool_calls default_loop_detector"
    and action_id_eq: "gateway_action_id (wf_store R) st tool args = action_key (wf_platform R) (task_id st) tool args"
    and k_create: "good (wf_platform R) st \<Longrightarrow> ensures I (rs_create_workflow (wf_store R) st m) (\<lambda>_. True)"
    and k_save: "good (wf_platform R) st \<Longrightarrow>
      ensures I (rs_save_workflow (wf_store R) st v) (\<lambda>st'. \<exists>v u. st' = st\<lparr>version := v, updated_at := u\<rparr>)"
    and k_get: "ensures I (rs_get_workflow (wf_store R) w)
      (\<lambda>found. \<forall>st. found = Some st \<longrightarrow> good (wf_platform R) st \<and> task_id st = w)"
    and k_approval: "I s \<Longrightarrow> wp (rs_approval_status (wf_store R) w a)
      (\<lambda>x u. I u \<and> (x = Some ''APPROVED'' \<longrightarrow> granted w a u)) (\<lambda>_. I) s"
    and k_call: "I s \<Longrightarrow> permitted_by granted (wf_platform R) (task_id st) tool args s \<Longrightarrow>
      wp (wf_backend R st tool args n) (\<lambda>_. I) (\<lambda>_. I) s"
    and get_result: "relates G (rs_get_tool_result (wf_store R) k p)"
    and k_results: "ensures I (rs_get_tool_result (wf_store R) k p) (\<lambda>_. True)"
      "ensures I (rs_save_tool_result (wf_store R) k w name p r) (\<lambda>_. True)"
    and k_queue: "ensures I (rs_enqueue (wf_store R) w m p) (\<lambda>_. True)"
      "ensures I (rs_claim (wf_store R) wk ls) (\<lambda>_. True)"
      "ensures I (rs_acknowledge (wf_store R) did) (\<lambda>_. True)"
      "ensures I (rs_extend_lease (wf_store R) d ls) (\<lambda>_. True)"
      "ensures I (rs_retry_or_dead_letter (wf_store R) d e b) (\<lambda>_. True)"
      "ensures I (rs_queue_counts (wf_store R)) (\<lambda>_. True)"
      "ensures I (rs_list_dead_letters (wf_store R) l) (\<lambda>_. True)"
      "ensures I (rs_replay_dead_letter (wf_store R) did w m who why) (\<lambda>_. True)"
    and k_records: "ensures I (rs_record_event (wf_store R) w ty p) (\<lambda>_. True)"
      "ensures I (rs_list_events (wf_store R) w) (\<lambda>_. True)"
      "ensures I (rs_list_workflows (wf_store R) l x) (\<lambda>_. True)"
      "ensures I (rs_create_approval (wf_store R) w a) (\<lambda>_. True)"
      "ensures I (rs_resolve_approval (wf_store R) w a yes who remark) (\<lambda>_. True)"
    and k_awaits: "ensures I (en_decide (wf_engine R) st) (\<lambda>_. True)"
      "ensures I (en_take_usage (wf_engine R)) (\<lambda>_. True)" "ensures I (wf_sleep R duration) (\<lambda>_. True)"
begin

abbreviation "pf \<equiv> wf_platform R"

definition under :: "('s \<Rightarrow> bool) \<Rightarrow> 's \<Rightarrow> bool" where
  "under A s \<longleftrightarrow> I s \<and> A s"

definition persists :: "('s \<Rightarrow> bool) \<Rightarrow> bool" where
  \<comment> \<open>what a guarantee keeps under the invariant\<close>
  "persists A \<longleftrightarrow> (\<forall>s t. G s t \<longrightarrow> I s \<longrightarrow> A s \<longrightarrow> A t)"

lemma persists_True: "persists (\<lambda>_. True)"
  by (simp add: persists_def)

lemma persists_granted: "persists (granted w a)"
  by (auto simp: persists_def intro: granted_stays)

lemma under_True: "under (\<lambda>_. True) = I"
  by (simp add: under_def [abs_def])

lemma ensures_under:
  assumes e: "ensures I m Q" and r: "relates G m" and A: "persists A"
  shows "ensures (under A) m Q"
proof (rule ensuresI)
  fix s
  assume "under A s"
  then have s: "I s" "A s" by (simp_all add: under_def)
  have "wp m (\<lambda>x t. (I t \<and> Q x) \<and> G s t) (\<lambda>e t. I t \<and> G s t) s"
    by (rule wp_conj [OF ensuresD [OF e s(1)] relates_wpD [OF r]])
  then show "wp m (\<lambda>x t. under A t \<and> Q x) (\<lambda>_ t. under A t) s"
    by (rule wp_mono) (use A s in \<open>auto simp: under_def persists_def\<close>)
qed

lemma ensures_stamped:
  assumes "good pf st" and "persists A"
  shows "ensures (under A) (Runtime.save R st) (\<lambda>st'. \<exists>v u. st' = st\<lparr>version := v, updated_at := u\<rparr>)"
  unfolding save_def by (rule ensures_under [OF k_save [OF assms(1)] save assms(2)])

lemma ensures_event: "persists A \<Longrightarrow> ensures (under A) (Runtime.event R t ty p) (\<lambda>_. True)"
  unfolding event_def by (rule ensures_under [OF k_records(1) event])

lemma ensures_found:
  "persists A \<Longrightarrow> ensures (under A) (rs_get_workflow (wf_store R) t)
     (\<lambda>found. \<forall>st. found = Some st \<longrightarrow> good pf st \<and> task_id st = t)"
  by (rule ensures_under [OF k_get get])

lemmas ensures_awaits =
  ensures_under [OF k_awaits(1) engine] ensures_under [OF k_awaits(2) usage] ensures_under [OF k_awaits(3) sleep]

lemmas ensures_operations =
  ensures_under [OF k_records(4) create_approval]
  ensures_under [OF k_queue(3) acknowledge]
  ensures_under [OF k_queue(1) enqueue]
  ensures_under [OF k_queue(5) retry]
  ensures_under [OF k_queue(2) claim]
  ensures_under [OF k_queue(4) extend]
  ensures_under [OF k_queue(6) counts]
  ensures_under [OF k_records(5) resolve]
  ensures_under [OF k_records(3) list]
  ensures_under [OF k_records(2) list_events]
  ensures_under [OF k_queue(7) dead_letters]
  ensures_under [OF k_queue(8) replay]
  ensures_event

section \<open>One delivery\<close>

text \<open>The gateway asks the backend only for what is permitted.\<close>

definition cleared :: "('s \<Rightarrow> bool) \<Rightarrow> string \<Rightarrow> tool_name \<Rightarrow> dict \<Rightarrow> bool" where
  \<comment> \<open>under \<open>A\<close>, what the validation of these arguments yields is permitted unless it is blocked\<close>
  "cleared A t tool args \<longleftrightarrow>
     (\<forall>v s. validate_arguments (argument_model_of tool) args = Some v \<longrightarrow> tool \<noteq> DELETE_DATABASE \<longrightarrow> A s \<longrightarrow>
        permitted_by granted pf t tool v s)"

lemma guarded_call:
  assumes u: "under A s" and A: "persists A"
    and p: "\<And>s. A s \<Longrightarrow> permitted_by granted pf (task_id st) tool v s"
    and f: "\<And>x. ensures I (f x) (\<lambda>_. True)"
  shows "wp (bindE (rs_get_tool_result (wf_store R) k v) (\<lambda>cached.
      case cached of Some r \<Rightarrow> ret (r, True) | None \<Rightarrow> bindE (wf_backend R st tool v n) f))
    (\<lambda>_. I) (\<lambda>_. I) s"
  unfolding wp_bindE
proof (rule wp_mono)
  from ensuresD [OF ensures_under [OF k_results(1) get_result A] u]
  show "wp (rs_get_tool_result (wf_store R) k v) (\<lambda>_. under A) (\<lambda>_. under A) s" by simp
next
  fix cached s1
  assume s1: "under A s1"
  show "wp (case cached of Some r \<Rightarrow> ret (r, True) | None \<Rightarrow> bindE (wf_backend R st tool v n) f) (\<lambda>_. I) (\<lambda>_. I) s1"
  proof (cases cached)
    case (Some r)
    with s1 show ?thesis by (simp add: wp_ret under_def)
  next
    case None
    have "wp (wf_backend R st tool v n) (\<lambda>x. wp (f x) (\<lambda>_. I) (\<lambda>_. I)) (\<lambda>_. I) s1"
    proof (rule wp_mono [OF k_call])
      show "I s1" "permitted_by granted pf (task_id st) tool v s1" using s1 p by (simp_all add: under_def)
      show "wp (f x) (\<lambda>_. I) (\<lambda>_. I) s'" if "I s'" for x s' using ensuresD [OF f that] by simp
    qed
    with None show ?thesis by (simp add: wp_bindE)
  qed
qed (simp add: under_def)

lemma ensures_gateway:
  assumes A: "persists A" and c: "cleared A (task_id st) tool args"
  shows "ensures (under A) (gateway_execute pf (wf_store R) (wf_backend R) st tool args) (\<lambda>_. True)"
proof (rule ensuresI)
  fix s
  let ?gw = "gateway_execute pf (wf_store R) (wf_backend R) st tool args"
  assume u: "under A s"
  have "wp ?gw (\<lambda>_. I) (\<lambda>_. I) s"
  proof (cases "validate_arguments (argument_model_of tool) args")
    case None
    with u show ?thesis
      by (simp add: gateway_execute_def validate_and_decide_def wp_bindE wp_lift_sum under_def)
  next
    case (Some v)
    show ?thesis
    proof (cases "tool = DELETE_DATABASE")
      case True
      with Some u show ?thesis
        by (simp add: gateway_execute_def validate_and_decide_def wp_bindE wp_lift_sum wp_raise Let_def under_def)
    next
      case False
      with c Some have p: "permitted_by granted pf (task_id st) tool v s" if "A s" for s
        using that by (auto simp: cleared_def)
      show ?thesis
        unfolding gateway_execute_def wp_bindE [of "lift_sum _"] wp_lift_sum validate_and_decide_def Some Let_def
        using False
        by (auto intro!: guarded_call [OF u A p] ensures_rules k_results(2) split: json.split list.split)
    qed
  qed
  from wp_conj [OF this relates_wpD [OF gateway [of st tool args], of s]]
  show "wp ?gw (\<lambda>x t. under A t \<and> True) (\<lambda>_ t. under A t) s"
    by (rule wp_mono) (use u A in \<open>auto simp: under_def persists_def\<close>)
qed

lemma ensures_fail: "good pf st \<Longrightarrow> persists A \<Longrightarrow> ensures (under A) (fail_workflow R st why category) (\<lambda>_. True)"
  unfolding fail_workflow_def
  by (rule ensures_bindE [OF ensures_stamped])
     (auto intro: good_cong intro!: ensures_rules ensures_event)

lemma good_tool_completed: "good pf st \<Longrightarrow> room tool st \<Longrightarrow> good pf (tool_completed p st tool result)"
  by (rule good_idle [OF typed_completed [OF good_typed]])
     (simp_all add: tool_completed_def Let_def room_def within_budget_def reserved_calls_def)

lemma ensures_execute_tool:
  assumes g: "good pf st" and room: "room tool st" and A: "persists A"
    and c: "cleared A (task_id st) tool args"
  shows "ensures (under A) (execute_tool R st tool args) (\<lambda>_. True)"
proof -
  have retry: "good pf (st\<lparr>retries := retries st + 1, last_error := x, status := QUEUED\<rparr>)" for x
    by (rule good_cong [OF g]) simp_all
  have "ensures (under A) (Runtime.save R st') (\<lambda>_. True)" if "good pf st'" for st'
    by (rule ensures_weaken [OF ensures_stamped [OF that A]]) simp
  note saves = this [OF retry] this [OF good_tool_completed [OF g room]]
  show ?thesis
    unfolding execute_tool_def
    by (intro ensures_seq ensures_try_catch ensures_if ensures_case_sum ensures_case_prod ensures_ret
        ensures_raise ensures_gateway [OF A c] saves ensures_event A ensures_fail g TrueI)
qed

lemma cleared_validated:
  assumes "validated tool args"
    and "production_restart tool args \<Longrightarrow> \<forall>s. A s \<longrightarrow> granted t (action_key pf t tool args) s"
  shows "cleared A t tool args"
  using assms by (auto simp: cleared_def permitted_by_def validated_def)

lemma ensures_resume:
  assumes g: "good pf st" and p: "pending_action st = Some p"
  shows "ensures (under (\<lambda>_. True)) (resume_approved_action R st p) (\<lambda>_. True)"
proof (rule ensuresI)
  fix s
  assume "under (\<lambda>_. True) s"
  then have s: "I s" by (simp add: under_def)
  let ?A = "granted (task_id st) (action_id p)"
  have act: "action_id p = action_key pf (task_id st) (pa_tool p) (pa_arguments p)"
    "validated (pa_tool p) (pa_arguments p)" using g p by (simp_all add: good_def)
  have run: "ensures (under ?A) (bindE (Runtime.event R (task_id st) ''APPROVED_ACTION_RESUMED''
      [(''action_id'', JStr (action_id p))]) (\<lambda>_. execute_tool R st (pa_tool p) (pa_arguments p))) (\<lambda>_. True)"
    by (intro ensures_bindE [OF ensures_event] ensures_execute_tool g good_pending_room [OF g p] persists_granted
        cleared_validated act(2)) (simp add: act(1))
  have "wp (resume_approved_action R st p) (\<lambda>_. I) (\<lambda>_. I) s"
    unfolding resume_approved_action_def wp_bindE [of "rs_approval_status _ _ _"]
  proof (rule wp_mono [OF k_approval [OF s]])
    fix x t
    assume x: "I t \<and> (x = Some ''APPROVED'' \<longrightarrow> ?A t)"
    show "wp (if x \<noteq> Some ''APPROVED'' then ret (st\<lparr>status := WAITING_FOR_APPROVAL\<rparr>)
        else bindE (Runtime.event R (task_id st) ''APPROVED_ACTION_RESUMED'' [(''action_id'', JStr (action_id p))])
          (\<lambda>_. execute_tool R st (pa_tool p) (pa_arguments p))) (\<lambda>_. I) (\<lambda>_. I) t"
    proof (cases "x = Some ''APPROVED''")
      case True
      with x have "under ?A t" by (simp add: under_def)
      from ensuresD [OF run this] True show ?thesis
        by (simp del: action_key_def) (erule wp_mono; simp add: under_def)
    next
      case False
      with x show ?thesis by (simp add: wp_ret)
    qed
  qed simp
  then show "wp (resume_approved_action R st p) (\<lambda>x t. under (\<lambda>_. True) t \<and> True) (\<lambda>_. under (\<lambda>_. True)) s"
    by (simp add: under_True)
qed

lemma ensures_chaos_pause: "persists A \<Longrightarrow> ensures (under A) (chaos_pause R st tool) (\<lambda>_. True)"
  unfolding chaos_pause_def
  by (intro ensures_if ensures_seq ensures_event ensures_awaits ensures_ret TrueI)

lemma ensures_request_approval:
  assumes g: "good pf st" and v: "validated tool v" and prod: "production_restart tool v" and room: "room tool st"
  shows "ensures (under (\<lambda>_. True)) (request_approval R st d tool v policy) (\<lambda>_. True)"
proof -
  let ?p = "\<lparr>action_id = gateway_action_id (wf_store R) st tool v, pa_tool = tool, pa_arguments = v,
     pa_risk = pd_risk policy, pa_rationale = d_rationale d, pa_created_at = wf_now R\<rparr>"
  have "good pf (st\<lparr>pending_action := Some ?p, status := WAITING_FOR_APPROVAL\<rparr>)"
    using v prod room typed_cong [OF good_typed [OF g]]
    by (simp add: good_def action_id_eq within_budget_def reserved_calls_def room_def)
  from ensures_stamped [OF this persists_True] show ?thesis
    unfolding request_approval_def Let_def
    by (rule ensures_bindE) (intro ensures_seq ensures_operations persists_True ensures_ret TrueI)
qed

lemma ensures_stop_loop:
  assumes "good pf st"
  shows "ensures (under (\<lambda>_. True)) (stop_loop R st why) (\<lambda>_. True)"
  unfolding stop_loop_def
proof (rule ensures_bindE [OF ensures_stamped])
  show "good pf (st\<lparr>status := LOOP_STOPPED, last_error := Some why\<rparr>)"
    by (rule good_cong [OF assms]) simp_all
qed (intro ensures_seq ensures_event persists_True ensures_ret TrueI)+

lemma ensures_follow_policy:
  assumes g: "good pf st" and room: "room tool st" and v: "validated tool args" and p: "policy = evaluate tool args"
  shows "ensures (under (\<lambda>_. True)) (follow_policy R st d tool args policy) (\<lambda>_. True)"
proof -
  have clear: "cleared (\<lambda>_. True) (task_id st) tool args" if "\<not> pd_approval_required policy"
    by (rule cleared_validated) (use v p that in auto)
  show ?thesis
    unfolding follow_policy_def
    by (intro ensures_if ensures_seq ensures_event ensures_fail g persists_True ensures_chaos_pause
        ensures_execute_tool clear ensures_request_approval [OF g] v room) (simp_all add: p)
qed

lemma good_tool_requested:
  "good pf st \<Longrightarrow> pending_action st = None \<Longrightarrow> status st \<noteq> WAITING_FOR_APPROVAL \<Longrightarrow> good pf (tool_requested q st tool)"
  by (rule good_idle [OF typed_requested [OF good_typed]])
     (simp_all add: tool_requested_def good_def within_budget_def reserved_calls_def)

lemma room_tool_requested:
  assumes "good pf st" and "pending_action st = None"
    and "reason (wf_loop_detector R) (tool_history (tool_requested q st tool)) progress = None"
  shows "room tool (tool_requested q st tool)"
  using assms detector
  by (simp add: tool_requested_def good_def within_budget_def reserved_calls_def room_def reason_None)

lemma ensures_act_on_tool:
  assumes g: "good pf st" and idle: "pending_action st = None" "status st \<noteq> WAITING_FOR_APPROVAL"
  shows "ensures (under (\<lambda>_. True)) (act_on_tool R st d tool) (\<lambda>_. True)"
  unfolding act_on_tool_def Let_def
proof (rule ensures_bindE, rule ensures_lift_sum, assumption)
  fix vd
  assume "validate_and_decide pf tool (dump_arguments (d_arguments d)) = Inr vd"
  note v = validate_and_decide_validated [OF this]
  let ?st = "tool_requested pf st tool"
  have g': "good pf ?st" by (rule good_tool_requested [OF g idle])
  show "ensures (under (\<lambda>_. True)) (case reason (wf_loop_detector R) (tool_history ?st) (progress_history ?st) of
      None \<Rightarrow> bindE (Runtime.save R ?st) (\<lambda>st'. follow_policy R st' d tool (fst vd) (snd vd))
    | Some why \<Rightarrow> stop_loop R ?st why) (\<lambda>_. True)"
  proof (intro ensures_case_option ensures_stop_loop g' ensures_bindE [OF ensures_stamped [OF g' persists_True]])
    fix st'
    assume "reason (wf_loop_detector R) (tool_history ?st) (progress_history ?st) = None"
    then have "room tool ?st" by (rule room_tool_requested [OF g idle(1)])
    moreover assume "\<exists>n u. st' = ?st\<lparr>version := n, updated_at := u\<rparr>"
    ultimately have "good pf st'" "room tool st'" using g' by auto
    then show "ensures (under (\<lambda>_. True)) (follow_policy R st' d tool (fst vd) (snd vd)) (\<lambda>_. True)"
      by (rule ensures_follow_policy) (use v in simp_all)
  qed
qed

lemma ensures_saved: "good pf st \<Longrightarrow> persists A \<Longrightarrow> ensures (under A) (Runtime.save R st) (\<lambda>_. True)"
  by (rule ensures_weaken [OF ensures_stamped]) simp_all

lemma ensures_act_on_decision:
  assumes g: "good pf st" and idle: "pending_action st = None" "status st \<noteq> WAITING_FOR_APPROVAL"
  shows "ensures (under (\<lambda>_. True)) (act_on_decision R st d) (\<lambda>_. True)"
proof (cases "d_action d")
  case Use_Tool
  then show ?thesis unfolding act_on_decision_def
    by (simp, intro ensures_case_option ensures_raise ensures_act_on_tool g idle)
next
  case Complete
  have "good pf (st\<lparr>status := COMPLETED, final_answer := d_final_answer d, current_step := None\<rparr>)"
    by (rule good_cong [OF g]) simp_all
  with Complete show ?thesis unfolding act_on_decision_def complete_workflow_def
    by (simp, intro ensures_seq [OF ensures_saved] ensures_seq ensures_event persists_True ensures_ret TrueI)
next
  case Fail
  then show ?thesis unfolding act_on_decision_def
    by (simp, intro ensures_fail g persists_True)
qed

lemma ensures_decide:
  assumes g: "good pf st"
  shows "ensures (under (\<lambda>_. True)) (decide R st) (\<lambda>_. True)"
proof -
  have "good pf (st\<lparr>retries := retries st + 1, status := QUEUED, last_error := x\<rparr>)" for x
    by (rule good_cong [OF g]) simp_all
  then show ?thesis unfolding decide_def
    by (intro ensures_try_catch ensures_if ensures_raise ensures_seq [OF ensures_saved]
        ensures_seq [OF ensures_event] persists_True ensures_awaits)
qed

lemma ensures_start_decision:
  assumes g: "good pf st" and idle: "pending_action st = None"
  shows "ensures (under (\<lambda>_. True)) (start_decision R st) (\<lambda>_. True)"
  unfolding start_decision_def
proof (rule ensures_bindE [OF ensures_stamped])
  show "good pf (st\<lparr>status := RUNNING, last_error := None\<rparr>)"
    by (rule good_cong [OF g]) simp_all
next
  fix st'
  assume "\<exists>n u. st' = st\<lparr>status := RUNNING, last_error := None, version := n, updated_at := u\<rparr>"
  then have idle': "pending_action st' = None" "status st' = RUNNING" and g': "good pf st'"
    using idle good_cong [OF g, of "st\<lparr>status := RUNNING, last_error := None\<rparr>"] by auto
  have "pending_action (note_findings (model_called st' u) d) = None"
    "status (note_findings (model_called st' u) d) = RUNNING"
    "good pf (note_findings (model_called st' u) d)" for u d
    using idle' good_cong [OF g', of "note_findings (model_called st' u) d"]
    by (simp_all add: note_findings_def model_called_def)
  then show "ensures (under (\<lambda>_. True))
      (bindE (Runtime.event R (task_id st') ''AGENT_DECISION_STARTED'' [(''model_call'', JInt (model_calls st' + 1))]) (\<lambda>_.
       bindE (decide R st') (\<lambda>d.
       bindE (en_take_usage (wf_engine R)) (\<lambda>usage.
       bindE (Runtime.event R (task_id st') ''AGENT_DECISION'' (dump_decision d)) (\<lambda>_.
       act_on_decision R (note_findings (model_called st' usage) d) d))))) (\<lambda>_. True)"
    by (intro ensures_seq [OF ensures_event] ensures_seq [OF ensures_decide]
        ensures_seq [OF ensures_awaits(2)] ensures_act_on_decision persists_True g') simp_all
qed (rule persists_True)

lemma ensures_process: "ensures (under (\<lambda>_. True)) (process R t) (\<lambda>_. True)"
  unfolding process_def
proof (rule ensures_bindE)
  show "ensures (under (\<lambda>_. True)) (required_state R t) (good pf)"
    unfolding required_state_def
    by (rule ensures_bindE [OF ensures_found [OF persists_True]])
       (auto intro!: ensures_case_option ensures_raise ensures_ret)
next
  fix st
  assume "good pf st"
  then show "ensures (under (\<lambda>_. True))
      (if terminal st \<or> status st = WAITING_FOR_APPROVAL then ret st
       else (case pending_action st of None \<Rightarrow> start_decision R st | Some p \<Rightarrow> resume_approved_action R st p))
      (\<lambda>_. True)"
    by (intro ensures_if ensures_ret TrueI ensures_case_option ensures_start_decision
        ensures_resume persists_True)
qed


section \<open>The worker and the requests\<close>

lemma ensures_deliver: "ensures (under (\<lambda>_. True)) (deliver R c d) (\<lambda>_. True)"
proof -
  have save: "ensures (under (\<lambda>_. True)) (Runtime.save R (st\<lparr>status := s, last_error := e\<rparr>)) (\<lambda>_. True)"
    if "good pf st" "terminal_status s" for st s e
  proof (rule ensures_saved [OF _ persists_True])
    show "good pf (st\<lparr>status := s, last_error := e\<rparr>)"
      by (rule good_cong [OF that(1)]) (use that(2) in auto)
  qed
  have found: "ensures (under (\<lambda>_. True)) (bindE (rs_get_workflow (wf_store R) t) f) (\<lambda>_. True)"
    if "\<And>x. (\<And>st. x = Some st \<Longrightarrow> good pf st) \<Longrightarrow> ensures (under (\<lambda>_. True)) (f x) (\<lambda>_. True)" for t f
    by (rule ensures_bindE [OF ensures_found [OF persists_True]]) (use that in blast)
  show ?thesis
    unfolding deliver_def acknowledge_and_requeue_def on_retryable_def on_permanent_def
    by (intro ensures_try_catch ensures_if ensures_raise ensures_seq [OF ensures_process]
        ensures_seq [OF save] ensures_seq [OF ensures_operations(2)] ensures_seq [OF ensures_operations(3)]
        ensures_seq [OF ensures_operations(4)] ensures_seq [OF ensures_event] found ensures_case_option
        ensures_ret ensures_event TrueI persists_True) simp_all
qed

lemma ensures_await_heartbeat:
  "ensures J m (\<lambda>_. True) \<Longrightarrow> ensures J (await_heartbeat failed m) (\<lambda>_. True)"
  unfolding await_heartbeat_def
  by (intro ensures_case_option ensures_seq ensures_try_catch ensures_ret ensures_raise TrueI)

lemma ensures_run_once: "ensures (under (\<lambda>_. True)) (run_once R c wk) (\<lambda>_. True)"
  unfolding run_once_def
  by (intro ensures_seq [OF ensures_operations(5)] ensures_case_option ensures_seq [OF ensures_await_heartbeat [OF ensures_deliver]]
      ensures_seq [OF ensures_operations(7)] persists_True ensures_ret TrueI)

lemma ensures_heartbeat: "ensures (under (\<lambda>_. True)) (heartbeat R c wk d) (\<lambda>_. True)"
  unfolding heartbeat_def
  by (intro ensures_seq [OF ensures_operations(6)] ensures_event persists_True)

lemma ensures_required: "ensures (under (\<lambda>_. True)) (required (wf_store R) t) (\<lambda>st. good pf st \<and> task_id st = t)"
  unfolding required_def
  by (rule ensures_bindE [OF ensures_found [OF persists_True]])
     (auto intro!: ensures_case_option ensures_raise ensures_ret)

lemma ensures_create_incident:
  "ensures (under (\<lambda>_. True)) (create_incident (wf_store R) c now suffix request) (\<lambda>_. True)"
proof -
  have "good pf (new_workflow t g sc now)" for t g sc
    by (rule good_idle [OF typed_new])
       (simp_all add: new_workflow_def within_budget_def reserved_calls_def default_loop_detector_def)
  then have "ensures (under (\<lambda>_. True)) (rs_create_workflow (wf_store R) (new_workflow t g sc now) m) (\<lambda>_. True)"
    for t g sc m
    by (intro ensures_under [OF k_create create] persists_True)
  then show ?thesis unfolding create_incident_def Let_def
    by (intro ensures_if ensures_raise ensures_seq ensures_ret TrueI)
qed

lemma ensures_store_save:
  assumes "good pf st"
  shows "ensures (under (\<lambda>_. True)) (rs_save_workflow (wf_store R) st (version st)) (\<lambda>_. True)"
  using ensures_saved [OF assms persists_True] by (simp add: save_def)

lemma ensures_store_event: "ensures (under (\<lambda>_. True)) (rs_record_event (wf_store R) t ty p) (\<lambda>_. True)"
  using ensures_event [OF persists_True] by (simp add: event_def)

lemma ensures_approve: "ensures (under (\<lambda>_. True)) (approve (wf_store R) c t request) (\<lambda>_. True)"
  unfolding approve_def
proof (rule ensures_if [OF ensures_raise], rule ensures_bindE [OF ensures_required])
  fix st
  assume "good pf st \<and> task_id st = t"
  then have "good pf (st\<lparr>status := QUEUED\<rparr>)" by (auto intro: good_cong)
  from ensures_store_save [OF this]
  have "ensures (under (\<lambda>_. True))
      (bindE (rs_resolve_approval (wf_store R) t (action_id p) True (ap_actor request) (ap_reason request)) (\<lambda>_.
       bindE (rs_save_workflow (wf_store R) (st\<lparr>status := QUEUED\<rparr>) (version st)) (\<lambda>st.
       bindE (rs_record_event (wf_store R) t ''APPROVAL_GRANTED'' (actor_payload request)) (\<lambda>_.
       bindE (rs_enqueue (wf_store R) t (max_queue_attempts c) []) (\<lambda>_. ret st))))) (\<lambda>_. True)" for p
    by (intro ensures_seq [OF ensures_operations(8)] ensures_seq [OF ensures_store_event]
        ensures_seq [OF ensures_operations(3)] ensures_seq persists_True ensures_ret TrueI) simp
  then show "ensures (under (\<lambda>_. True))
      (case (status st = WAITING_FOR_APPROVAL, pending_action st) of
          (True, Some p) \<Rightarrow>
            bindE (rs_resolve_approval (wf_store R) t (action_id p) True (ap_actor request) (ap_reason request)) (\<lambda>_.
            bindE (rs_save_workflow (wf_store R) (st\<lparr>status := QUEUED\<rparr>) (version st)) (\<lambda>st.
            bindE (rs_record_event (wf_store R) t ''APPROVAL_GRANTED'' (actor_payload request)) (\<lambda>_.
            bindE (rs_enqueue (wf_store R) t (max_queue_attempts c) []) (\<lambda>_. ret st))))
        | _ \<Rightarrow> raise (HTTPException 409 ''workflow is not waiting for approval'')) (\<lambda>_. True)"
    by (auto intro!: ensures_raise split: bool.split option.split)
qed

lemma ensures_reject: "ensures (under (\<lambda>_. True)) (reject (wf_store R) t request) (\<lambda>_. True)"
  unfolding reject_def
proof (rule ensures_if [OF ensures_raise], rule ensures_bindE [OF ensures_required])
  fix st
  assume "good pf st \<and> task_id st = t"
  then have g: "good pf st" by simp
  let ?st = "st\<lparr>status := HUMAN_REJECTED, last_error := Some (rejection_text (ap_reason request)), pending_action := None\<rparr>"
  have "good pf ?st" by (rule good_dropped [OF g]) (simp_all add: typed_cong [OF good_typed [OF g]])
  from ensures_store_save [OF this]
  have "ensures (under (\<lambda>_. True))
      (bindE (rs_resolve_approval (wf_store R) t (action_id p) False (ap_actor request) (ap_reason request)) (\<lambda>_.
       bindE (rs_save_workflow (wf_store R) ?st (version st)) (\<lambda>st.
       bindE (rs_record_event (wf_store R) t ''APPROVAL_REJECTED'' (actor_payload request)) (\<lambda>_. ret st)))) (\<lambda>_. True)" for p
    by (intro ensures_seq [OF ensures_operations(8)] ensures_seq [OF ensures_store_event]
        ensures_seq persists_True ensures_ret TrueI) simp
  then show "ensures (under (\<lambda>_. True))
      (case (status st = WAITING_FOR_APPROVAL, pending_action st) of
          (True, Some p) \<Rightarrow>
            bindE (rs_resolve_approval (wf_store R) t (action_id p) False (ap_actor request) (ap_reason request)) (\<lambda>_.
            bindE (rs_save_workflow (wf_store R) ?st (version st)) (\<lambda>st.
            bindE (rs_record_event (wf_store R) t ''APPROVAL_REJECTED'' (actor_payload request)) (\<lambda>_. ret st)))
        | _ \<Rightarrow> raise (HTTPException 409 ''workflow is not waiting for approval'')) (\<lambda>_. True)"
    by (auto intro!: ensures_raise split: bool.split option.split)
qed

lemma ensures_queries:
  "ensures (under (\<lambda>_. True)) (get_events (wf_store R) t) (\<lambda>_. True)"
  "ensures (under (\<lambda>_. True)) (list_incidents (wf_store R) l x) (\<lambda>_. True)"
  "ensures (under (\<lambda>_. True)) (Api.dead_letters (wf_store R) l) (\<lambda>_. True)"
  "ensures (under (\<lambda>_. True)) (Api.replay (wf_store R) c request) (\<lambda>_. True)"
  unfolding get_events_def list_incidents_def dead_letters_def replay_def
  by (intro ensures_if ensures_raise ensures_case_option ensures_ret TrueI ensures_seq [OF ensures_operations(12)]
      ensures_seq [OF ensures_weaken [OF ensures_required]] ensures_operations persists_True)+

lemma ensures_events_of: "ensures (under (\<lambda>_. True)) (events_of (wf_store R) ts) (\<lambda>_. True)"
  by (induction ts) (auto intro!: ensures_ret ensures_seq ensures_operations(10) persists_True)

lemma ensures_summary: "ensures (under (\<lambda>_. True)) (dashboard_summary (wf_store R)) (\<lambda>_. True)"
  unfolding dashboard_summary_def
  by (intro ensures_seq [OF ensures_operations(9)] ensures_seq [OF ensures_events_of]
      ensures_seq [OF ensures_operations(7)] persists_True ensures_ret TrueI)

lemma ensures_wrapped:
  "ensures J m (\<lambda>_. True) \<Longrightarrow> ensures J (and_reply m f) (\<lambda>_. True)"
  "ensures J m (\<lambda>_. True) \<Longrightarrow> ensures J (as_admin c auth m) (\<lambda>_. True)"
  "ensures J m (\<lambda>_. True) \<Longrightarrow> ensures J (as_viewer c auth m) (\<lambda>_. True)"
  unfolding and_reply_def as_admin_def as_viewer_def
  by (auto intro!: ensures_seq ensures_ret ensures_lift_sum)

lemma ensures_handle: "ensures (under (\<lambda>_. True)) (handle R c wk suffix auth call) (\<lambda>_. True)"
  by (cases call)
     (simp_all add: ensures_wrapped ensures_create_incident ensures_weaken [OF ensures_required] ensures_approve
        ensures_reject ensures_queries ensures_summary ensures_run_once ensures_operations(7) persists_True
        ensures_lift_sum)

text \<open>Every run keeps the invariant.\<close>

lemmas keeps_process = ensures_process [unfolded under_True]
lemmas keeps_handle = ensures_handle [unfolded under_True]
lemmas keeps_run_once = ensures_run_once [unfolded under_True]
lemmas keeps_heartbeat = ensures_heartbeat [unfolded under_True]

end

end
