(* ===== verification/Safety.thy ===== *)
theory Safety
  imports Interruption Guarded_Runs
begin

text \<open>
  The safety invariant of the whole system over SQLite. \<open>authorised\<close>: whatever an external system was asked
  to do was validated, is no blocked tool and, when it restarts a production service, had an approved
  approval under its action id. It rests on \<open>pending_ok\<close>: every checkpoint is \<open>good\<close>. Every run over such a
  store is guarded (\<open>Guarded_Runs\<close>).
\<close>

definition pending_ok :: "platform \<Rightarrow> world \<Rightarrow> bool" where
  "pending_ok pf w \<longleftrightarrow> (\<forall>t st. checkpoint w t = Some st \<longrightarrow> good pf st)"

definition approved :: "string \<Rightarrow> string \<Rightarrow> world \<Rightarrow> bool" where
  "approved t a w \<longleftrightarrow> approval_of w t a = Some ''APPROVED''"

definition permitted :: "platform \<Rightarrow> string \<Rightarrow> tool_name \<Rightarrow> dict \<Rightarrow> world \<Rightarrow> bool" where
  "permitted pf t tool args w \<longleftrightarrow>
     tool \<noteq> DELETE_DATABASE \<and> validated tool args \<and>
     (production_restart tool args \<longrightarrow> approved t (action_key pf t tool args) w)"

lemma permitted_by_approved: "permitted_by (\<lambda>t a s. approved t a (view s)) pf t tool args s = permitted pf t tool args (view s)"
  by (simp add: permitted_by_def permitted_def)

definition authorised :: "platform \<Rightarrow> world \<Rightarrow> bool" where
  "authorised pf w \<longleftrightarrow>
     (\<forall>iv \<in> set (invocations w). permitted pf (iv_task_id iv) (iv_tool iv) (iv_arguments iv) w)"

definition safe :: "platform \<Rightarrow> world \<Rightarrow> bool" where
  "safe pf w \<longleftrightarrow> world_ok w \<and> pending_ok pf w \<and> authorised pf w"

definition progresses :: "platform \<Rightarrow> world \<Rightarrow> world \<Rightarrow> bool" where
  "progresses pf w w' \<longleftrightarrow> endures w w' \<and> (safe pf w \<longrightarrow> safe pf w')"

lemma safe_empty: "safe pf empty_world"
  by (simp add: safe_def world_ok_empty pending_ok_def authorised_def)
     (simp add: empty_world_def checkpoint_def find_workflow_def)

interpretation progress: guarantee "progresses pf" for pf
  by unfold_locales (auto simp: progresses_def endurance.R_refl intro: endurance.R_trans)

lemma progresses_relates:
  "relates (endures) m \<Longrightarrow> keeps (safe pf) m \<Longrightarrow> relates (progresses pf) m"
  by (simp add: relates_def progresses_def)

section \<open>The operations\<close>

lemma approved_persists: "endures w w' \<Longrightarrow> world_ok w \<Longrightarrow> approved t a w \<Longrightarrow> approved t a w'"
  by (auto simp: endures_def approvals_final_def approved_def)

lemma permitted_persists: "endures w w' \<Longrightarrow> world_ok w \<Longrightarrow> permitted pf t tool args w \<Longrightarrow> permitted pf t tool args w'"
  by (auto simp: permitted_def intro: approved_persists)

lemma safe_step:
  assumes "endures w w'" and "safe pf w" and "pending_ok pf w'" and "invocations w' = invocations w"
  shows "safe pf w'"
  using assms permitted_persists [OF assms(1)]
  by (auto simp: safe_def authorised_def endures_def)

lemma safe_frame:
  assumes "relates (endures) m"
    and "\<And>w. workflows (snd (m w)) = workflows w" and "\<And>w. invocations (snd (m w)) = invocations w"
  shows "keeps (safe pf) m"
proof (rule relatesI, rule impI)
  fix w
  assume s: "safe pf w"
  then have "pending_ok pf (snd (m w))"
    by (simp add: safe_def pending_ok_def view_cong(1) [OF assms(2)])
  then show "safe pf (snd (m w))"
    by (rule safe_step [OF relatesD [OF assms(1)] s]) (rule assms(3))
qed

lemma safe_enqueue: "keeps (safe pf) (enqueue now t m p)"
  by (rule safe_frame [OF endures_enqueue]) (simp_all add: enqueue_def insert_queue_row_def split: option.split)

lemma safe_claim: "keeps (safe pf) (claim now wk ls)"
  by (rule safe_frame [OF endures_claim]) (simp_all add: claim_def Let_def split: option.split)

lemma safe_acknowledge: "keeps (safe pf) (acknowledge pf now d)"
  by (rule safe_frame [OF endures_acknowledge]) (simp_all add: acknowledge_def)

lemma safe_extend: "keeps (safe pf) (extend_lease pf now d ls)"
  by (rule safe_frame [OF endures_extend]) (simp_all add: extend_lease_def)

lemma safe_retry: "keeps (safe pf) (retry_or_dead_letter pf now d e b)"
  by (rule safe_frame [OF endures_retry]) (simp_all add: retry_or_dead_letter_def Let_def)

lemma safe_event: "keeps (safe pf) (record_event now t ty p)"
  by (rule safe_frame [OF endures_event]) (simp_all add: record_event_def record_event_row_def)

lemma safe_save_result: "keeps (safe pf) (save_tool_result pf now k t n a r)"
  by (rule safe_frame [OF endures_save_result]) (simp_all add: save_tool_result_def)

lemma safe_create_approval: "keeps (safe pf) (create_approval now t a)"
  by (rule safe_frame [OF endures_create_approval]) (simp_all add: create_approval_def)

lemma safe_resolve: "keeps (safe pf) (resolve_approval now t a yes who why)"
  by (rule safe_frame [OF endures_resolve]) (simp_all add: resolve_approval_def Let_def)

lemma safe_readonly: "(\<And>w. snd (m w) = w) \<Longrightarrow> keeps (safe pf) m"
  by (simp add: relates_def)

lemmas safe_readers = readers [THEN safe_readonly]

lemmas safe_operations = safe_enqueue safe_claim safe_acknowledge safe_extend safe_retry safe_event
  safe_save_result safe_create_approval safe_resolve safe_readers

lemma safe_create:
  assumes "good pf st"
  shows "keeps (safe pf) (create_workflow now st m)"
proof (rule relatesI, rule impI)
  fix w
  assume s: "safe pf w"
  show "safe pf (snd (create_workflow now st m w))"
  proof (rule safe_step [OF relatesD [OF endures_create] s])
    show "pending_ok pf (snd (create_workflow now st m w))"
    proof (cases "find_workflow (task_id st) w")
      case None
      with s assms show ?thesis by (auto simp: pending_ok_def checkpoint_create safe_def)
    next
      case (Some r)
      with s show ?thesis by (simp add: create_workflow_def safe_def)
    qed
  qed (rule create_workflow_frame(3))
qed

lemma pending_ok_put:
  "pending_ok pf w \<Longrightarrow> good pf st \<Longrightarrow> pending_ok pf (put_workflow now st w)"
  by (auto simp: pending_ok_def checkpoint_put)

lemma ensures_save:
  assumes "good pf st"
  shows "ensures (safe pf) (save_workflow now st v) (\<lambda>st'. st' = st\<lparr>version := v + 1, updated_at := now\<rparr>)"
proof (rule ensuresI)
  fix w
  assume s: "safe pf w"
  then have ok: "world_ok w" by (simp add: safe_def)
  have "safe pf (snd (save_workflow now st v w))"
  proof (rule safe_step [OF relatesD [OF endures_save] s])
    show "pending_ok pf (snd (save_workflow now st v w))"
      using s assms by (auto simp: save_workflow_eq [OF ok] safe_def intro!: pending_ok_put)
  qed (simp add: save_workflow_eq [OF ok])
  with s show "wp (save_workflow now st v) (\<lambda>x t. safe pf t \<and> x = st\<lparr>version := v + 1, updated_at := now\<rparr>)
      (\<lambda>_ t. safe pf t) w"
    by (cases "\<exists>old. checkpoint w (task_id st) = Some old \<and> version old = v")
       (auto simp: wp_def save_workflow_eq [OF ok])
qed

lemma ensures_get:
  "ensures (safe pf) (get_workflow t) (\<lambda>found. \<forall>st. found = Some st \<longrightarrow> good pf st \<and> task_id st = t)"
proof (rule ensuresI)
  fix w
  assume s: "safe pf w"
  have "good pf st \<and> task_id st = t" if "checkpoint w t = Some st" for st
    using s that by (auto simp: safe_def pending_ok_def checkpoint_def dest: world_ok_row)
  with s show "wp (get_workflow t) (\<lambda>x u. safe pf u \<and> (\<forall>st. x = Some st \<longrightarrow> good pf st \<and> task_id st = t))
      (\<lambda>_ u. safe pf u) w"
    by (simp add: wp_def get_workflow_checkpoint)
qed

lemma safe_replay: "keeps (safe pf) (replay_dead_letter pf now did t m who why)"
proof (rule relatesI, rule impI)
  fix w
  let ?w' = "snd (replay_dead_letter pf now did t m who why w)"
  assume s: "safe pf w"
  then have ok: "world_ok w" by (simp add: safe_def)
  have *: "pending_ok pf ?w' \<and> invocations ?w' = invocations w"
  proof (cases "find (dead_row pf did t) (queue w) = None \<or> checkpoint w t = None")
    case True
    then have "?w' = w" by (auto simp: replay_eq [OF ok] split: option.split)
    with s show ?thesis by (simp add: safe_def)
  next
    case False
    then obtain row st where f: "find (dead_row pf did t) (queue w) = Some row" "checkpoint w t = Some st" by auto
    have "good pf st" using s f(2) by (auto simp: safe_def pending_ok_def)
    then have "good pf (replayed_state now st)"
      by (auto simp: good_def replayed_state_def typed_state_def within_budget_def reserved_calls_def split: option.splits)
    then have "pending_ok pf (put_workflow now (replayed_state now st) w)"
      using s by (auto simp: safe_def intro: pending_ok_put)
    moreover have "checkpoint ?w' = checkpoint (put_workflow now (replayed_state now st) w)"
      by (rule view_cong) (simp add: replay_eq [OF ok] f Let_def record_event_row_def)
    moreover have "invocations ?w' = invocations w"
      by (simp add: replay_eq [OF ok] f Let_def record_event_row_def)
    ultimately show ?thesis by (simp add: pending_ok_def)
  qed
  show "safe pf ?w'"
    by (rule safe_step [OF relatesD [OF endures_replay] s]) (use * in simp_all)
qed

lemma safe_observed:
  assumes "safe pf w" and "permitted pf (task_id st) tool args w"
  shows "safe pf (snd (observed answer st tool args n w))"
proof -
  let ?w' = "snd (observed answer st tool args n w)"
  have v: "checkpoint ?w' = checkpoint w" "approval_of ?w' = approval_of w" "world_ok ?w' = world_ok w"
    by (rule view_cong, simp add: observed_def)+ (simp add: observed_def world_ok_invocations)
  have p: "permitted pf t' tool' args' ?w' = permitted pf t' tool' args' w" for t' tool' args'
    by (simp add: permitted_def approved_def v)
  have "invocations ?w' = invocations w @ [\<lparr>iv_task_id = task_id st, iv_tool = tool, iv_arguments = args\<rparr>]"
    by (simp add: observed_def)
  then have "authorised pf ?w'" unfolding authorised_def p using assms by (auto simp: safe_def authorised_def)
  then show ?thesis using assms by (simp add: safe_def v pending_ok_def)
qed

section \<open>One delivery\<close>

text \<open>
  A runtime over the world: its store is one of those of \<open>sql_view\<close>, its backend leaves a record of
  every call. What others do between its operations keeps the records and the safety invariant, and so
  does the rest of the system while it awaits the model or the chaos pause.
\<close>

locale sql_runtime = sql_view view E "wf_store R" "wf_platform R"
  for view :: "'s \<Rightarrow> world" and E and R :: "'s workflow_runtime" +
  fixes answer :: "workflow_state \<Rightarrow> tool_name \<Rightarrow> dict \<Rightarrow> int \<Rightarrow> world \<Rightarrow> error + json"
  assumes others_safe: "E w w' \<Longrightarrow> safe (wf_platform R) w \<Longrightarrow> safe (wf_platform R) w'"
    and backend: "interruptible E view (wf_backend R st tool args n) (\<lambda>now. observed answer st tool args n)"
    and engine_awaits: "relates (\<lambda>s t. progresses (wf_platform R) (view s) (view t)) (en_decide (wf_engine R) st)"
    and usage_awaits: "relates (\<lambda>s t. progresses (wf_platform R) (view s) (view t)) (en_take_usage (wf_engine R))"
    and detector: "max_tool_calls (wf_loop_detector R) = max_tool_calls default_loop_detector"
    and sleep_awaits: "relates (\<lambda>s t. progresses (wf_platform R) (view s) (view t)) (wf_sleep R x)"
begin

abbreviation "pf \<equiv> wf_platform R"

lemma endures_of_progress:
  "relates (\<lambda>s t. progresses pf (view s) (view t)) m \<Longrightarrow> relates (\<lambda>s t. endures (view s) (view t)) m"
  by (simp add: relates_def progresses_def)

lemma safe_of_progress:
  "relates (\<lambda>s t. progresses pf (view s) (view t)) m \<Longrightarrow> keeps (\<lambda>s. safe pf (view s)) m"
  by (simp add: relates_def progresses_def)

text \<open>Operations of the store are interruptible up to what the others do.\<close>

lemma disturbed_endures:
  "interruptible E view m m0 \<Longrightarrow> (\<And>now. relates endures (m0 now)) \<Longrightarrow>
    relates (\<lambda>s t. endures (view s) (view t)) m"
  by (rule interruptible_relates [OF _ _ endurance.guarantee_axioms others_endure])

lemma disturbed_ensures:
  "interruptible E view m m0 \<Longrightarrow> (\<And>now. ensures (safe pf) (m0 now) Q) \<Longrightarrow> ensures (\<lambda>s. safe pf (view s)) m Q"
  by (rule interruptible_ensures [OF _ _ others_safe])

lemma endures_gateway:
  "relates (\<lambda>s t. endures (view s) (view t)) (gateway_execute pf (wf_store R) (wf_backend R) st tool args)"
proof -
  have "relates (\<lambda>s t. endures (view s) (view t)) (wf_backend R st tool v n)" for v n
    by (rule disturbed_endures [OF backend]) (simp add: relates_def endures_observed)
  then show ?thesis
    unfolding gateway_execute_def Let_def
    by (intro enduring.relates_rules disturbed_endures [OF i_get_result] disturbed_endures [OF i_save_result]
          endures_readers endures_save_result)
       (auto intro!: enduring.relates_rules disturbed_endures [OF i_save_result] endures_save_result
          split: json.split list.split)
qed

end

sublocale sql_runtime \<subseteq> enduring: runtime_guarantee "\<lambda>s t. endures (view s) (view t)" R
  by unfold_locales
     (rule endures_gateway endures_of_progress engine_awaits usage_awaits sleep_awaits
       | (rule endures_of_progress, rule engine_awaits usage_awaits sleep_awaits))+

section \<open>A run over the world is guarded\<close>

context sql_runtime
begin

lemma safe_operation:
  "interruptible E view m m0 \<Longrightarrow> (\<And>now. keeps (safe pf) (m0 now)) \<Longrightarrow> ensures (\<lambda>s. safe pf (view s)) m (\<lambda>_. True)"
  by (rule disturbed_ensures [OF _ keeps_ensures])

lemma safe_await:
  "relates (\<lambda>s t. progresses pf (view s) (view t)) m \<Longrightarrow> ensures (\<lambda>s. safe pf (view s)) m (\<lambda>_. True)"
  by (rule keeps_ensures [OF safe_of_progress])

lemma safe_created:
  "good pf st \<Longrightarrow> ensures (\<lambda>s. safe pf (view s)) (rs_create_workflow (wf_store R) st m) (\<lambda>_. True)"
  by (rule safe_operation [OF i_create safe_create])

lemma safe_saved:
  assumes "good pf st"
  shows "ensures (\<lambda>s. safe pf (view s)) (rs_save_workflow (wf_store R) st v)
    (\<lambda>st'. \<exists>v u. st' = st\<lparr>version := v, updated_at := u\<rparr>)"
proof -
  have "ensures (safe pf) (save_workflow now st v) (\<lambda>st'. \<exists>v u. st' = st\<lparr>version := v, updated_at := u\<rparr>)" for now v
    by (rule ensures_weaken [OF ensures_save [OF assms]]) blast
  then show ?thesis by (rule disturbed_ensures [OF i_save])
qed

lemma safe_found:
  "ensures (\<lambda>s. safe pf (view s)) (rs_get_workflow (wf_store R) t)
     (\<lambda>found. \<forall>st. found = Some st \<longrightarrow> good pf st \<and> task_id st = t)"
  by (rule disturbed_ensures [OF i_get ensures_get])

lemma safe_status:
  assumes "safe pf (view s)"
  shows "wp (rs_approval_status (wf_store R) t a)
    (\<lambda>x u. safe pf (view u) \<and> (x = Some ''APPROVED'' \<longrightarrow> approved t a (view u))) (\<lambda>_ u. safe pf (view u)) s"
  using i_approval [of t a]
proof (cases rule: interruptible_cases [where s = s])
  case (1 s')
  with assms show ?thesis by (simp add: wp_def)
next
  case (2 w now s')
  with assms others_safe [OF 2(1)] show ?thesis by (simp add: wp_def approval_status_eq approved_def)
qed

lemma safe_backend:
  assumes "safe pf (view s)" and "permitted pf (task_id st) tool args (view s)"
  shows "wp (wf_backend R st tool args n) (\<lambda>_ t. safe pf (view t)) (\<lambda>_ t. safe pf (view t)) s"
  using backend [of st tool args n]
proof (cases rule: interruptible_cases [where s = s])
  case (1 s')
  with assms show ?thesis by (simp add: wp_def)
next
  case (2 w now s')
  have ok: "world_ok (view s)" using assms(1) by (simp add: safe_def)
  from safe_observed [OF others_safe [OF 2(1) assms(1)] permitted_persists [OF others_endure [OF 2(1)] ok assms(2)],
      of answer n] 2(2,3)
  show ?thesis by (simp add: wp_def split: sum.split)
qed

end

sublocale sql_runtime \<subseteq> guarded: guarded_runtime "\<lambda>s t. endures (view s) (view t)" R "\<lambda>s. safe (wf_platform R) (view s)"
    "\<lambda>t a s. approved t a (view s)"
proof (unfold_locales, goal_cases)
  case (1 s t w a)
  then show ?case by (auto simp: safe_def intro: approved_persists)
next
  case (8 s st tool args n)
  then show ?case by (simp add: permitted_by_approved safe_backend)
next
  case (9 k p)
  show ?case by (rule disturbed_endures [OF i_get_result endures_readers(4)])
qed (rule detector action_id_eq safe_created safe_saved safe_found safe_status; assumption
     | rule safe_operation [OF i_get_result safe_readers(4)] safe_operation [OF i_save_result safe_save_result]
        safe_operation [OF i_enqueue safe_enqueue] safe_operation [OF i_claim safe_claim]
        safe_operation [OF i_acknowledge safe_acknowledge] safe_operation [OF i_extend safe_extend]
        safe_operation [OF i_retry safe_retry] safe_operation [OF i_counts safe_readers(6)]
        safe_operation [OF i_dead_letters safe_readers(7)] safe_operation [OF i_replay safe_replay]
        safe_operation [OF i_event safe_event] safe_operation [OF i_list_events safe_readers(3)]
        safe_operation [OF i_list safe_readers(2)] safe_operation [OF i_create_approval safe_create_approval]
        safe_operation [OF i_resolve safe_resolve] detector action_id_eq safe_found
     | (rule safe_await, rule engine_awaits usage_awaits sleep_awaits))+

end
