(* ===== verification/Serial_Runs.thy ===== *)
theory Serial_Runs
  imports Safety
begin

text \<open>
  Runs that no other delivery or request interleaves with (\<open>serial_runtime\<close>): between the gateway's look
  at the ledger and its call nobody records a result, so the external system is called only under a key
  that has none. This is what at-most-once after success rests on.
\<close>

locale serial_runtime = sql_runtime view "(=)" R answer
  for view :: "'s \<Rightarrow> world" and R :: "'s workflow_runtime" and answer +
  assumes engine_alone: "relates (\<lambda>s t. evolves (wf_platform R) (view s) (view t)) (en_decide (wf_engine R) st)"
    and usage_alone: "relates (\<lambda>s t. evolves (wf_platform R) (view s) (view t)) (en_take_usage (wf_engine R))"
    and sleep_alone: "relates (\<lambda>s t. evolves (wf_platform R) (view s) (view t)) (wf_sleep R x)"

sublocale serial_runtime \<subseteq> serial_view view "wf_store R" "wf_platform R"
  by (simp add: serial_view_def sql_view_axioms)

context serial_runtime
begin

text \<open>The gateway calls a backend only under a key that has no result.\<close>

lemma backend_step:
  assumes "ledger (view s) (action_key pf (task_id st) tool args) = None"
  shows "evolves pf (view s) (view (snd (wf_backend R st tool args n s)))"
  using backend [of st tool args n]
proof (cases rule: interruptible_cases [where s = s])
  case (1 s')
  then show ?thesis by (simp add: evolution.R_refl)
next
  case (2 s')
  with evolves_observed [OF assms, where answer = answer and n = n] show ?thesis by simp
qed

lemma cached_None:
  assumes "rs_get_tool_result (wf_store R) k args s = (Inr None, s')"
  shows "ledger (view s') k = None"
  using i_get_result [of k args]
proof (cases rule: interruptible_cases [where s = s])
  case (1 s'')
  with assms show ?thesis by simp
next
  case (2 s'')
  with assms have "fst (get_tool_result pf k args (view s)) = Inr None" "view s' = view s" by auto
  then show ?thesis by (auto simp: get_tool_result_def ledger_None split: option.splits if_splits)
qed

lemma evolves_gateway:
  "relates (\<lambda>s t. evolves pf (view s) (view t)) (gateway_execute pf (wf_store R) (wf_backend R) st tool args)"
proof -
  have call: "relates (\<lambda>s t. evolves pf (view s) (view t))
      (bindE (rs_get_tool_result (wf_store R) (gateway_action_id (wf_store R) st tool v) v) (\<lambda>cached.
         case cached of Some r \<Rightarrow> ret (r, True)
         | None \<Rightarrow> bindE (wf_backend R st tool v n) f))" (is "relates ?G (bindE ?get ?next)")
    if f: "\<And>x. relates (\<lambda>s t. evolves pf (view s) (view t)) (f x)" for v n f
  proof (rule relatesI)
    fix s
    obtain res s1 where get: "?get s = (res, s1)" by (cases "?get s")
    have 1: "evolves pf (view s) (view s1)"
      using relatesD [OF serial_relates [OF i_get_result evolves_readers(4)],
          of s "gateway_action_id (wf_store R) st tool v" v] get by simp
    show "evolves pf (view s) (view (snd (bindE ?get ?next s)))"
    proof (cases "res = Inr None")
      case True
      have led: "ledger (view s1) (action_key pf (task_id st) tool v) = None"
        using cached_None get True action_id_eq by metis
      have "evolves pf (view s1) (view (snd (bindE (wf_backend R st tool v n) f s1)))"
      proof (cases "wf_backend R st tool v n s1")
        case (Pair r s2)
        with backend_step [OF led, of n] have 2: "evolves pf (view s1) (view s2)" by simp
        show ?thesis
        proof (cases r)
          case (Inl e)
          with Pair 2 show ?thesis by (simp add: bindE_def)
        next
          case (Inr x)
          with Pair 2 relatesD [OF f, where s = s2] show ?thesis
            by (auto simp: bindE_def intro: evolution.R_trans)
        qed
      qed
      with 1 get True show ?thesis by (auto simp: bindE_def intro: evolution.R_trans)
    next
      case False
      with 1 get show ?thesis by (auto simp: bindE_def ret_def split: sum.split option.split)
    qed
  qed
  have save: "relates (\<lambda>s t. evolves pf (view s) (view t)) (rs_save_tool_result (wf_store R) k t n p r)" for k t n p r
    by (rule serial_relates [OF i_save_result evolves_save_result])
  show ?thesis
    unfolding gateway_execute_def Let_def
    by (intro evolving.relates_rules call)
       (auto intro!: evolving.relates_rules save split: json.split list.split)
qed

end

sublocale serial_runtime \<subseteq> evolving: runtime_guarantee "\<lambda>s t. evolves (wf_platform R) (view s) (view t)" R
  by unfold_locales (rule evolves_gateway engine_alone usage_alone sleep_alone)+

context serial_runtime
begin

lemmas evolves_handle = evolving.relates_handle
lemmas evolves_run_once = evolving.relates_run_once
lemmas evolves_heartbeat = evolving.relates_heartbeat

end

end
