(* ===== verification/System.thy ===== *)
theory System
  imports Serial_Runs
begin

text \<open>
  The whole system: requests to the control plane, deliveries by any number of workers, heartbeats,
  all of them killed at any point, in any order, at any times, and interleaved between any two
  operations on the store. Every step keeps the safety invariant and the durable records; so does every
  reachable world. Steps that interleave only where a delivery awaits (\<open>serial_step\<close>) moreover call no tool
  again whose result is recorded.
\<close>

section \<open>Runs progress\<close>

context sql_runtime
begin

lemma progress_of:
  assumes "ensures (\<lambda>s. safe pf (view s)) m (\<lambda>_. True)" and "relates (\<lambda>s t. endures (view s) (view t)) m"
  shows "relates (\<lambda>s t. progresses pf (view s) (view t)) m"
  using ensures_keeps [OF assms(1)] assms(2) by (simp add: relates_def progresses_def)

lemmas progress_handle = progress_of [OF guarded.keeps_handle enduring.relates_handle]
lemmas progress_run_once = progress_of [OF guarded.keeps_run_once enduring.relates_run_once]
lemmas progress_heartbeat = progress_of [OF guarded.keeps_heartbeat enduring.relates_heartbeat]

end

section \<open>Steps of the system\<close>

type_synonym run_state = "world \<times> nat"

definition awaits_within ::
  "(world \<Rightarrow> world \<Rightarrow> bool) \<Rightarrow> run_state engine \<Rightarrow> (rat \<Rightarrow> (run_state, unit) act) \<Rightarrow> bool" where
  \<comment> \<open>what the engine and the pause do to the world stays within \<open>P\<close>\<close>
  "awaits_within P E sleep \<longleftrightarrow>
     (\<forall>st s. P (fst s) (fst (snd (en_decide E st s)))) \<and>
     (\<forall>s. P (fst s) (fst (snd (en_take_usage E s)))) \<and>
     (\<forall>x s. P (fst s) (fst (snd (sleep x s))))"

lemma awaits_within_mono [mono]:
  "(\<And>x y. P x y \<longrightarrow> Q x y) \<Longrightarrow> awaits_within P E sleep \<longrightarrow> awaits_within Q E sleep"
  by (auto simp: awaits_within_def)

definition system_runtime ::
  "platform \<Rightarrow> settings \<Rightarrow> run_state engine \<Rightarrow>
    (workflow_state \<Rightarrow> tool_name \<Rightarrow> dict \<Rightarrow> int \<Rightarrow> world \<Rightarrow> error + json) \<Rightarrow>
    (rat \<Rightarrow> (run_state, unit) act) \<Rightarrow> int \<Rightarrow> world surroundings \<Rightarrow> run_state workflow_runtime" where
  "system_runtime pf c E answer sleep now env =
     make_runtime pf c (contended_store env (sqlite_store pf)) E
       (\<lambda>st tool args n. contended env (\<lambda>_. observed answer st tool args n)) sleep now"

text \<open>
  One step: a request, a delivery or a heartbeat of some process, cut off after \<open>n\<close> operations. The
  answers of the tools are arbitrary, the engine may decide anything. Before each operation of the store
  and each call of a tool, and while the engine and the pause wait, the other processes take any number
  of steps of their own; in a serial step they do so only during the waits.
\<close>

definition others_within :: "bool \<Rightarrow> (world \<Rightarrow> world \<Rightarrow> bool) \<Rightarrow> world \<Rightarrow> world \<Rightarrow> bool" where
  "others_within serial P w w' \<longleftrightarrow> (if serial then w = w' else P w w')"

lemma others_within_mono [mono]:
  "P w w' \<longrightarrow> Q w w' \<Longrightarrow> others_within serial P w w' \<longrightarrow> others_within serial Q w w'"
  by (simp add: others_within_def)

inductive step_of :: "bool \<Rightarrow> platform \<Rightarrow> settings \<Rightarrow> world \<Rightarrow> world \<Rightarrow> bool" for serial pf c where
  request: "awaits_within (step_of serial pf c)\<^sup>*\<^sup>* E sleep \<Longrightarrow>
    surroundings_within (others_within serial (step_of serial pf c)\<^sup>*\<^sup>*) env \<Longrightarrow>
    step_of serial pf c w (fst (snd (handle ((system_runtime pf c E answer sleep now env)\<lparr>wf_heartbeat := hb\<rparr>) c wk suffix auth call (w, n))))"
| delivery: "awaits_within (step_of serial pf c)\<^sup>*\<^sup>* E sleep \<Longrightarrow>
    surroundings_within (others_within serial (step_of serial pf c)\<^sup>*\<^sup>*) env \<Longrightarrow>
    step_of serial pf c w (fst (snd (run_once ((system_runtime pf c E answer sleep now env)\<lparr>wf_heartbeat := hb\<rparr>) c wk (w, n))))"
| beat: "awaits_within (step_of serial pf c)\<^sup>*\<^sup>* E sleep \<Longrightarrow>
    surroundings_within (others_within serial (step_of serial pf c)\<^sup>*\<^sup>*) env \<Longrightarrow>
    step_of serial pf c w (fst (snd (heartbeat (system_runtime pf c E answer sleep now env) c wk d (w, n))))"

abbreviation system_step :: "platform \<Rightarrow> settings \<Rightarrow> world \<Rightarrow> world \<Rightarrow> bool" where
  "system_step \<equiv> step_of False"

abbreviation serial_step :: "platform \<Rightarrow> settings \<Rightarrow> world \<Rightarrow> world \<Rightarrow> bool" where
  "serial_step \<equiv> step_of True"

definition reachable :: "platform \<Rightarrow> settings \<Rightarrow> world \<Rightarrow> bool" where
  "reachable pf c w \<longleftrightarrow> (system_step pf c)\<^sup>*\<^sup>* empty_world w"

lemma others_within_serial [simp]: "others_within True P = (=)" "others_within False P = P"
  by (auto simp: others_within_def fun_eq_iff)

lemma quiet_others: "(\<And>w. P w w) \<Longrightarrow> surroundings_within (others_within serial P) (quiet now)"
  by (rule quiet_within) (simp add: others_within_def)

lemma deterministic_awaits: "(\<And>w. P w w) \<Longrightarrow> awaits_within P (deterministic_engine pf) (\<lambda>_. ret ())"
  by (simp add: awaits_within_def deterministic_engine_def ret_def lift_sum_def)

lemma system_platform [simp]: "wf_platform (system_runtime pf c E answer sleep now env) = pf"
  by (simp add: system_runtime_def)

lemma steady [simp]:
  "(system_runtime pf c E answer sleep now env)\<lparr>wf_heartbeat := None\<rparr> = system_runtime pf c E answer sleep now env"
  by (simp add: system_runtime_def)

text \<open>What the steps within a step keep, when each of them keeps a relation that composes.\<close>

lemma star_within:
  assumes "guarantee P" and "(\<lambda>x y. X x y \<and> P x y)\<^sup>*\<^sup>* x y"
  shows "P x y"
  using assms(2)
  by (induction rule: rtranclp_induct)
     (auto intro: guarantee.R_refl [OF assms(1)] guarantee.R_trans [OF assms(1)])

lemma awaits_star_within:
  "guarantee P \<Longrightarrow> awaits_within (\<lambda>x y. X x y \<and> P x y)\<^sup>*\<^sup>* E sleep \<Longrightarrow> awaits_within P E sleep"
  using star_within [of P X] by (simp add: awaits_within_def)

lemma others_star_within:
  "guarantee P \<Longrightarrow> surroundings_within (others_within serial (\<lambda>x y. X x y \<and> P x y)\<^sup>*\<^sup>*) env \<Longrightarrow>
    surroundings_within (others_within serial P) env"
  using star_within [of P X] by (auto simp: surroundings_within_def others_within_def)

lemma step_of_rule:
  assumes "step_of serial pf c w w'" and "guarantee P"
    and "\<And>E sleep env w answer now hb wk suffix auth call n.
      awaits_within P E sleep \<Longrightarrow> surroundings_within (others_within serial P) env \<Longrightarrow>
      P w (fst (snd (handle ((system_runtime pf c E answer sleep now env)\<lparr>wf_heartbeat := hb\<rparr>) c wk suffix auth call (w, n))))"
    and "\<And>E sleep env w answer now hb wk n.
      awaits_within P E sleep \<Longrightarrow> surroundings_within (others_within serial P) env \<Longrightarrow>
      P w (fst (snd (run_once ((system_runtime pf c E answer sleep now env)\<lparr>wf_heartbeat := hb\<rparr>) c wk (w, n))))"
    and "\<And>E sleep env w answer now wk d n.
      awaits_within P E sleep \<Longrightarrow> surroundings_within (others_within serial P) env \<Longrightarrow>
      P w (fst (snd (heartbeat (system_runtime pf c E answer sleep now env) c wk d (w, n))))"
  shows "P w w'"
  using assms(1)
proof (induction rule: step_of.induct)
  case (request E sleep env w answer now hb wk suffix auth call n)
  then show ?case
    by (intro assms(3) awaits_star_within [OF assms(2)] others_star_within [OF assms(2)])
next
  case (delivery E sleep env w answer now hb wk n)
  then show ?case
    by (intro assms(4) awaits_star_within [OF assms(2)] others_star_within [OF assms(2)])
next
  case (beat E sleep env w answer now wk d n)
  then show ?case
    by (intro assms(5) awaits_star_within [OF assms(2)] others_star_within [OF assms(2)])
qed

lemma star_of_induct:
  assumes "(step_of serial pf c)\<^sup>*\<^sup>* w w'" and "guarantee P" and "\<And>w w'. step_of serial pf c w w' \<Longrightarrow> P w w'"
  shows "P w w'"
  using assms(1)
  by (induction rule: rtranclp_induct)
     (auto intro: guarantee.R_refl [OF assms(2)] guarantee.R_trans [OF assms(2)] assms(3))

text \<open>The serial steps are steps of the system.\<close>

interpretation stars: guarantee "r\<^sup>*\<^sup>*" for r :: "'a \<Rightarrow> 'a \<Rightarrow> bool"
  by unfold_locales auto

lemma serial_is_system: "serial_step pf c w w' \<Longrightarrow> (system_step pf c)\<^sup>*\<^sup>* w w'"
proof (erule step_of_rule [OF _ stars.guarantee_axioms])
  have others: "surroundings_within (others_within False P) env" if "surroundings_within (others_within True P) env"
      and "\<And>w. P w w" for P env
    using that by (auto simp: surroundings_within_def)
  fix E sleep env and w :: world
  assume E: "awaits_within (system_step pf c)\<^sup>*\<^sup>* E sleep"
    and "surroundings_within (others_within True (system_step pf c)\<^sup>*\<^sup>*) env"
  then have env: "surroundings_within (others_within False (system_step pf c)\<^sup>*\<^sup>*) env" by (intro others) simp_all
  show "(system_step pf c)\<^sup>*\<^sup>* w (fst (snd (handle ((system_runtime pf c E answer sleep now env)\<lparr>wf_heartbeat := hb\<rparr>) c wk suffix auth call (w, n))))"
    for answer now hb wk suffix auth call n
    by (rule r_into_rtranclp, rule step_of.request [OF E env])
  show "(system_step pf c)\<^sup>*\<^sup>* w (fst (snd (run_once ((system_runtime pf c E answer sleep now env)\<lparr>wf_heartbeat := hb\<rparr>) c wk (w, n))))"
    for answer now hb wk n
    by (rule r_into_rtranclp, rule step_of.delivery [OF E env])
  show "(system_step pf c)\<^sup>*\<^sup>* w (fst (snd (heartbeat (system_runtime pf c E answer sleep now env) c wk d (w, n))))"
    for answer now wk d n
    by (rule r_into_rtranclp, rule step_of.beat [OF E env])
qed

section \<open>What every step keeps\<close>

lemma system_sql_runtime:
  assumes "awaits_within (progresses pf) E sleep" and "surroundings_within (others_within serial (progresses pf)) env"
  shows "sql_runtime fst (others_within serial (progresses pf)) ((system_runtime pf c E answer sleep now env)\<lparr>wf_heartbeat := hb\<rparr>) answer"
proof -
  have others: "endures w w' \<and> (safe pf w \<longrightarrow> safe pf w')" if "others_within serial (progresses pf) w w'" for w w'
    using that by (auto simp: others_within_def progresses_def endurance.R_refl split: if_splits)
  have "sql_view fst (others_within serial (progresses pf)) (contended_store env (sqlite_store pf)) pf"
    by (rule contended_sql_view [OF assms(2)]) (simp add: others)
  moreover have "sql_runtime_axioms fst (others_within serial (progresses pf))
      ((system_runtime pf c E answer sleep now env)\<lparr>wf_heartbeat := hb\<rparr>) answer"
    using assms(1) others
    by unfold_locales
       (simp_all add: system_runtime_def interruptible_contended [OF assms(2)] awaits_within_def relates_def)
  ultimately show ?thesis by (simp add: sql_runtime_def system_runtime_def)
qed

lemma system_run_progresses:
  assumes "awaits_within (progresses pf) E sleep" and "surroundings_within (others_within serial (progresses pf)) env"
  shows "progresses pf w (fst (snd (handle ((system_runtime pf c E answer sleep now env)\<lparr>wf_heartbeat := hb\<rparr>) c wk suffix auth call (w, n))))"
    and "progresses pf w (fst (snd (run_once ((system_runtime pf c E answer sleep now env)\<lparr>wf_heartbeat := hb\<rparr>) c wk (w, n))))"
    and "progresses pf w (fst (snd (heartbeat (system_runtime pf c E answer sleep now env) c wk d (w, n))))"
proof -
  note S = system_sql_runtime [OF assms, where c = c and answer = answer and now = now]
  note steady_S = S [where hb = None, unfolded steady]
  show "progresses pf w (fst (snd (handle ((system_runtime pf c E answer sleep now env)\<lparr>wf_heartbeat := hb\<rparr>) c wk suffix auth call (w, n))))"
    using relatesD [OF sql_runtime.progress_handle [OF S [where hb = hb]], of "(w, n)"] by simp
  show "progresses pf w (fst (snd (run_once ((system_runtime pf c E answer sleep now env)\<lparr>wf_heartbeat := hb\<rparr>) c wk (w, n))))"
    using relatesD [OF sql_runtime.progress_run_once [OF S [where hb = hb]], of "(w, n)"] by simp
  show "progresses pf w (fst (snd (heartbeat (system_runtime pf c E answer sleep now env) c wk d (w, n))))"
    using relatesD [OF sql_runtime.progress_heartbeat [OF steady_S], of "(w, n)"] by simp
qed

lemma step_progresses: "step_of serial pf c w w' \<Longrightarrow> progresses pf w w'"
  by (erule step_of_rule [OF _ progress.guarantee_axioms]) (rule system_run_progresses; assumption)+

lemma system_progresses: "(step_of serial pf c)\<^sup>*\<^sup>* w w' \<Longrightarrow> progresses pf w w'"
  by (rule star_of_induct) (auto intro: progress.guarantee_axioms step_progresses)

lemma reachable_safe: "reachable pf c w \<Longrightarrow> safe pf w"
  using system_progresses safe_empty by (auto simp: reachable_def progresses_def)

lemma system_endures:
  assumes "reachable pf c w" and "(system_step pf c)\<^sup>*\<^sup>* w w'"
  shows "versions_grow w w'" and "approvals_final w w'" and "results_kept w w'" and "logs_grow w w'"
  using system_progresses [OF assms(2)] reachable_safe [OF assms(1)]
  by (simp_all add: progresses_def endures_def safe_def)

lemma reachable_good: "reachable pf c w \<Longrightarrow> checkpoint w t = Some st \<Longrightarrow> good pf st"
  using reachable_safe by (auto simp: safe_def pending_ok_def)

section \<open>What serial steps keep\<close>

definition settles :: "platform \<Rightarrow> world \<Rightarrow> world \<Rightarrow> bool" where
  "settles pf w w' \<longleftrightarrow> progresses pf w w' \<and> evolves pf w w'"

interpretation settling: guarantee "settles pf" for pf
  by unfold_locales
     (auto simp: settles_def progress.R_refl evolution.R_refl intro: progress.R_trans evolution.R_trans)

lemma system_serial_runtime:
  assumes "awaits_within (settles pf) E sleep" and "surroundings_within (others_within True (settles pf)) env"
  shows "serial_runtime fst ((system_runtime pf c E answer sleep now env)\<lparr>wf_heartbeat := hb\<rparr>) answer"
proof -
  have "awaits_within (progresses pf) E sleep" using assms(1) by (simp add: awaits_within_def settles_def)
  from system_sql_runtime [OF this, where serial = True and env = env and c = c and answer = answer and now = now and hb = hb] assms(2)
  have "sql_runtime fst (=) ((system_runtime pf c E answer sleep now env)\<lparr>wf_heartbeat := hb\<rparr>) answer" by simp
  moreover have "serial_runtime_axioms fst ((system_runtime pf c E answer sleep now env)\<lparr>wf_heartbeat := hb\<rparr>)"
    using assms(1)
    by unfold_locales (simp_all add: system_runtime_def awaits_within_def settles_def relates_def)
  ultimately show ?thesis by (simp add: serial_runtime_def)
qed

lemma serial_run_settles:
  assumes "awaits_within (settles pf) E sleep" and "surroundings_within (others_within True (settles pf)) env"
  shows "settles pf w (fst (snd (handle ((system_runtime pf c E answer sleep now env)\<lparr>wf_heartbeat := hb\<rparr>) c wk suffix auth call (w, n))))"
    and "settles pf w (fst (snd (run_once ((system_runtime pf c E answer sleep now env)\<lparr>wf_heartbeat := hb\<rparr>) c wk (w, n))))"
    and "settles pf w (fst (snd (heartbeat (system_runtime pf c E answer sleep now env) c wk d (w, n))))"
proof -
  note S = system_serial_runtime [OF assms, where c = c and answer = answer and now = now]
  note steady_S = S [where hb = None, unfolded steady]
  have "awaits_within (progresses pf) E sleep" "surroundings_within (others_within True (progresses pf)) env"
    using assms by (simp_all add: awaits_within_def settles_def)
  note progress = system_run_progresses [OF this]
  show "settles pf w (fst (snd (handle ((system_runtime pf c E answer sleep now env)\<lparr>wf_heartbeat := hb\<rparr>) c wk suffix auth call (w, n))))"
    using relatesD [OF serial_runtime.evolves_handle [OF S [where hb = hb]], of "(w, n)"] progress(1) by (simp add: settles_def)
  show "settles pf w (fst (snd (run_once ((system_runtime pf c E answer sleep now env)\<lparr>wf_heartbeat := hb\<rparr>) c wk (w, n))))"
    using relatesD [OF serial_runtime.evolves_run_once [OF S [where hb = hb]], of "(w, n)"] progress(2) by (simp add: settles_def)
  show "settles pf w (fst (snd (heartbeat (system_runtime pf c E answer sleep now env) c wk d (w, n))))"
    using relatesD [OF serial_runtime.evolves_heartbeat [OF steady_S], of "(w, n)"] progress(3) by (simp add: settles_def)
qed

lemma serial_step_settles: "serial_step pf c w w' \<Longrightarrow> settles pf w w'"
  by (erule step_of_rule [OF _ settling.guarantee_axioms]) (rule serial_run_settles; assumption)+

lemma serial_evolves:
  assumes "reachable pf c w" and "(serial_step pf c)\<^sup>*\<^sup>* w w'"
  shows "results_final pf w w'"
  using star_of_induct [OF assms(2) settling.guarantee_axioms serial_step_settles] reachable_safe [OF assms(1)]
  by (simp add: settles_def evolves_def safe_def)

text \<open>The deterministic engine on the shared and on the plain store.\<close>

interpretation deterministic: serial_runtime fst
    "system_runtime pf c (deterministic_engine pf) answer (\<lambda>_. ret ()) now (quiet clock)" answer
  for pf c answer now clock
  by (rule system_serial_runtime [where hb = None, unfolded steady], rule deterministic_awaits, rule settling.R_refl,
      rule quiet_others, rule settling.R_refl)

interpretation plain_run: serial_runtime "\<lambda>w. w"
    "make_runtime pf c (sqlite_store pf now) (deterministic_engine pf) (observed answer) (\<lambda>_. ret ()) now" answer
  for pf c answer now
  unfolding serial_runtime_def sql_runtime_def
  by (intro conjI, simp, rule plain.sql_view_axioms, unfold_locales)
     (auto simp: interruptible_def relates_def deterministic_engine_def lift_sum_def ret_def progress.R_refl
        evolution.R_refl)

end
