(* ===== verification/Examples.thy ===== *)
theory Examples
  imports System
begin

text \<open>
  A concrete history, on which the properties are shown to apply: an incident is created, an engine
  that at once asks for a production restart makes the workflow wait, a human approves, the restart
  runs, and a further delivery asks again.
\<close>

definition eager_engine :: "run_state engine" where
  "eager_engine =
     \<lparr>en_decide = (\<lambda>st. ret (use_tool RESTART_SERVICE ''restart'' None)), en_take_usage = ret (0, 0)\<rparr>"

definition all_well :: "workflow_state \<Rightarrow> tool_name \<Rightarrow> dict \<Rightarrow> int \<Rightarrow> world \<Rightarrow> error + json" where
  "all_well st tool args n w = Inr (JObj [(''ok'', JBool True)])"

definition eager_runtime :: "run_state workflow_runtime" where
  "eager_runtime = system_runtime sample_platform default_settings eager_engine all_well (\<lambda>_. ret ()) 0 (quiet 0)"

definition eager_request :: "call \<Rightarrow> world \<Rightarrow> world" where
  "eager_request call w = fst (snd (handle eager_runtime default_settings ''w'' ''1'' None call (w, 40)))"

definition new_incident :: call where
  "new_incident = Post_Incident \<lparr>ci_goal = ''restore checkout'', ci_scenario_id = ''s''\<rparr>"

definition incident_world :: world where
  "incident_world = eager_request new_incident empty_world"

definition waiting_world :: world where
  "waiting_world = eager_request Post_Run_Once incident_world"

definition approved_world :: world where
  "approved_world = eager_request (Post_Approve ''incident-1'' \<lparr>ap_actor = ''ann'', ap_reason = None\<rparr>) waiting_world"

definition restarted_world :: world where
  "restarted_world = eager_request Post_Run_Once approved_world"

definition later_world :: world where
  "later_world = eager_request Post_Run_Once restarted_world"

lemma eager_step: "step_of serial sample_platform default_settings w (eager_request call w)"
  unfolding eager_request_def eager_runtime_def
  by (intro step_of.request [where hb = None, unfolded steady] quiet_others) (simp_all add: awaits_within_def eager_engine_def ret_def)

lemma eager_steps:
  "(step_of serial sample_platform default_settings)\<^sup>*\<^sup>* empty_world incident_world"
  "(step_of serial sample_platform default_settings)\<^sup>*\<^sup>* incident_world waiting_world"
  "(step_of serial sample_platform default_settings)\<^sup>*\<^sup>* waiting_world approved_world"
  "(step_of serial sample_platform default_settings)\<^sup>*\<^sup>* approved_world restarted_world"
  "(step_of serial sample_platform default_settings)\<^sup>*\<^sup>* restarted_world later_world"
  unfolding incident_world_def waiting_world_def approved_world_def restarted_world_def later_world_def
  by (rule r_into_rtranclp, rule eager_step)+

lemma eager_reachable:
  "reachable sample_platform default_settings incident_world"
  "reachable sample_platform default_settings waiting_world"
  "reachable sample_platform default_settings approved_world"
  "reachable sample_platform default_settings restarted_world"
  unfolding reachable_def using eager_steps by (blast intro: rtranclp_trans)+

definition checkout_arguments :: dict where
  "checkout_arguments = [(''service'', JStr ''checkout-service''), (''environment'', JStr ''production'')]"

definition restart_key :: string where
  "restart_key = action_key sample_platform ''incident-1'' RESTART_SERVICE checkout_arguments"

definition glance :: "world \<Rightarrow> (workflow_status \<times> int \<times> int) option \<times> (tool_name \<times> dict) list \<times> dict option \<times> string option" where
  \<comment> \<open>status, version and tool calls; invocations; recorded result; approval\<close>
  "glance w =
     (map_option (\<lambda>st. (status st, version st, tool_calls st)) (checkpoint w ''incident-1''),
      map (\<lambda>iv. (iv_tool iv, iv_arguments iv)) (invocations w),
      map_option snd (ledger w restart_key),
      approval_of w ''incident-1'' restart_key)"

lemma glance_waiting:
  "glance waiting_world = (Some (WAITING_FOR_APPROVAL, 3, 0), [], None, Some ''PENDING'')"
  by code_simp

lemma glance_restarted:
  "glance restarted_world =
     (Some (QUEUED, 5, 1), [(RESTART_SERVICE, checkout_arguments)], Some [(''ok'', JBool True)],
      Some ''APPROVED'')"
  by code_simp

end
