(* ===== verification/Crash_Points.thy ===== *)
theory Crash_Points
  imports Examples Delivery
begin

text \<open>
  What modelling showed, as concrete runs: the points where a process that ends between two writes
  leaves a workflow stuck or repeats a side effect, and the outage that ends in a loop stop instead of
  the dead-letter queue.
\<close>

section \<open>The process ends between two writes\<close>

definition eager_cut :: "nat \<Rightarrow> call \<Rightarrow> world \<Rightarrow> world" where
  \<comment> \<open>like \<open>eager_request\<close>, but the process is killed after \<open>n\<close> store and tool operations\<close>
  "eager_cut n call w = fst (snd (handle eager_runtime default_settings ''w'' ''1'' None call (w, n)))"

definition stuck_waiting :: world where
  "stuck_waiting = eager_cut 7 Post_Run_Once incident_world"

lemma crash_before_approval_strands:
  "map_option status (checkpoint stuck_waiting ''incident-1'') = Some WAITING_FOR_APPROVAL \<and>
   approval_of stuck_waiting ''incident-1'' restart_key = None \<and>
   fst (approve (sqlite_store sample_platform 0) default_settings ''incident-1'' \<lparr>ap_actor = ''ann'', ap_reason = None\<rparr>
     stuck_waiting) = Inl (ValueError ''approval is not pending'')"
  by code_simp

definition stuck_queued :: world where
  "stuck_queued = eager_cut 10 Post_Run_Once approved_world"

lemma crash_before_requeue_strands:
  "map_option status (checkpoint stuck_queued ''incident-1'') = Some QUEUED \<and>
   list_all (\<lambda>r. q_status r = Q_COMPLETED) (queue stuck_queued)"
  by code_simp

lemma stranded_never_claimed:
  assumes "list_all (\<lambda>r. q_status r = Q_COMPLETED) (queue w)"
  shows "claim now wk ls w = (Inr None, w)"
proof -
  have "update_where (lease_expired now) f rows = rows"
    if "list_all (\<lambda>r. q_status r = Q_COMPLETED) rows" for f and rows :: "queue_row list"
    using that by (induction rows) (auto simp: lease_expired_def)
  with assms have "release_expired now (queue w) = queue w" by (simp add: release_expired_def)
  moreover have "find (claimable now) (queue w) = None"
    using assms by (auto simp: find_None_iff list_all_iff claimable_def)
  ultimately show ?thesis by (simp add: claim_def)
qed

text \<open>The restart ran, its result was not recorded; the lease expires and the restart runs again.\<close>

definition retried_restart :: world where
  "retried_restart =
     fst (snd (run_once (system_runtime sample_platform default_settings eager_engine all_well (\<lambda>_. ret ()) (61 * second) (quiet (61 * second)))
       default_settings ''w2'' (eager_cut 6 Post_Run_Once approved_world, 40)))"

lemma crash_before_record_repeats:
  "map (\<lambda>iv. (iv_tool iv, iv_arguments iv)) (invocations retried_restart) =
     [(RESTART_SERVICE, checkout_arguments), (RESTART_SERVICE, checkout_arguments)]"
  by code_simp

section \<open>An outage\<close>

text \<open>Five deliveries, ten minutes apart, of a workflow whose first tool is down.\<close>

definition outage_runtime :: "int \<Rightarrow> world workflow_runtime" where
  "outage_runtime now = make_runtime sample_platform default_settings (sqlite_store sample_platform now)
     \<lparr>en_decide = (\<lambda>st. lift_sum (Inr (use_tool READ_ALERT ''look'' None))), en_take_usage = ret (0, 0)\<rparr>
     (observed timing_out) (\<lambda>_. ret ()) now"

definition outage_world :: "nat \<Rightarrow> world" where
  "outage_world n =
     fold (\<lambda>i w. snd (run_once (outage_runtime (int i * 600 * second)) default_settings ''w'' w)) [0..<n] sample_world"

lemma outage_ends_in_loop_stop:
  "map_option (\<lambda>st. (status st, retries st)) (checkpoint (outage_world 4) ''t'') = Some (LOOP_STOPPED, 3) \<and>
   map (\<lambda>r. (q_status r, q_attempts r, q_max_attempts r)) (queue (outage_world 4)) = [(Q_COMPLETED, 4, 5)]"
  by code_simp

end
