(* ===== verification/Races.thy ===== *)
theory Races
  imports Crash_Points
begin

text \<open>
  Runs in which two processes meet between two operations on the store. A human approves while the
  worker that asked still holds its delivery: the wake-up is lost. A lease ends between the look at the
  ledger and the call of the tool: the tool is called twice, although the first call's result was
  recorded before the second call.
\<close>

definition meeting :: "nat \<Rightarrow> (world \<Rightarrow> world) \<Rightarrow> world surroundings" where
  \<comment> \<open>the others act once, before the operation that is followed by \<open>m\<close> more\<close>
  "meeting m others = (\<lambda>k. (0, if k = m then others else (\<lambda>w. w)))"

definition met_delivery :: "nat \<Rightarrow> (world \<Rightarrow> world) \<Rightarrow> world \<Rightarrow> world" where
  "met_delivery m others w =
     fst (snd (run_once (system_runtime sample_platform default_settings eager_engine all_well (\<lambda>_. ret ()) 0
       (meeting m others)) default_settings ''w'' (w, 40)))"

lemma met_delivery_step:
  assumes "\<And>w. system_step sample_platform default_settings w (others w)"
  shows "system_step sample_platform default_settings w (met_delivery m others w)"
  unfolding met_delivery_def
proof (rule step_of.delivery [where hb = None, unfolded steady])
  show "awaits_within (system_step sample_platform default_settings)\<^sup>*\<^sup>* eager_engine (\<lambda>_. ret ())"
    by (simp add: awaits_within_def eager_engine_def ret_def)
  show "surroundings_within (others_within False (system_step sample_platform default_settings)\<^sup>*\<^sup>*) (meeting m others)"
    using assms by (auto simp: surroundings_within_def meeting_def)
qed

section \<open>A lost wake-up\<close>

text \<open>The approval arrives after \<open>APPROVAL_REQUIRED\<close> was logged and before the delivery is acknowledged.\<close>

definition approval_raced :: world where
  "approval_raced =
     met_delivery 30 (eager_request (Post_Approve ''incident-1'' \<lparr>ap_actor = ''ann'', ap_reason = None\<rparr>)) incident_world"

lemma approval_raced_glance:
  "map_option status (checkpoint approval_raced ''incident-1'') = Some QUEUED \<and>
   approval_of approval_raced ''incident-1'' restart_key = Some ''APPROVED'' \<and>
   list_all (\<lambda>r. q_status r = Q_COMPLETED) (queue approval_raced)"
  by code_simp

lemma approval_race_strands:
  "reachable sample_platform default_settings approval_raced \<and>
   map_option status (checkpoint approval_raced ''incident-1'') = Some QUEUED \<and>
   (\<forall>now wk ls. claim now wk ls approval_raced = (Inr None, approval_raced))"
proof -
  have "system_step sample_platform default_settings incident_world approval_raced"
    unfolding approval_raced_def by (rule met_delivery_step) (rule eager_step)
  with eager_reachable(1) have "reachable sample_platform default_settings approval_raced"
    unfolding reachable_def by (rule rtranclp.rtrancl_into_rtrancl)
  then show ?thesis using approval_raced_glance by (simp add: stranded_never_claimed)
qed

section \<open>Two deliveries of one action\<close>

definition late_delivery :: "world \<Rightarrow> world" where
  \<comment> \<open>another worker, after the lease of the first one ended\<close>
  "late_delivery w =
     fst (snd (run_once (system_runtime sample_platform default_settings eager_engine all_well (\<lambda>_. ret ()) (61 * second)
       (quiet (61 * second))) default_settings ''w2'' (w, 40)))"

definition overlapped :: world where
  "overlapped = met_delivery 34 late_delivery approved_world"

lemma overlap_repeats:
  "map (\<lambda>iv. (iv_tool iv, iv_arguments iv)) (invocations overlapped) =
     [(RESTART_SERVICE, checkout_arguments), (RESTART_SERVICE, checkout_arguments)]"
  by code_simp

end
