(* ===== verification/Liveness.thy ===== *)
theory Liveness
  imports Delivery Races
begin

text \<open>
  Workflows come to rest. A delivery that puts a workflow back in the queue has used up some of its
  effort: another request in the tool history, which the loop detector bounds, or the approved action.
  So no engine, however it decides, keeps a workflow going for more than a fixed number of deliveries;
  and when the engine decides and the tools answer, none of these deliveries raises, and the workflow
  ends or waits for a human.
\<close>

section \<open>The effort left\<close>

definition effort :: "int \<Rightarrow> workflow_state \<Rightarrow> nat" where
  \<comment> \<open>under a budget of \<open>m\<close> requests\<close>
  "effort m st = 2 * (nat m - length (tool_history st)) + (if pending_action st = None then 0 else 1)"

definition keys_fit :: "platform \<Rightarrow> string \<Rightarrow> world \<Rightarrow> bool" where
  \<comment> \<open>the results recorded for a workflow are those of the arguments their keys stand for\<close>
  "keys_fit pf t w \<longleftrightarrow>
     (\<forall>tool v h r. validated tool v \<longrightarrow> ledger w (action_key pf t tool v) = Some (h, r) \<longrightarrow> h = arguments_hash pf v)"

definition digests_fit :: "platform \<Rightarrow> bool" where
  \<comment> \<open>among validated arguments, the part of the digest in the action id determines the digest\<close>
  "digests_fit pf \<longleftrightarrow>
     (\<forall>tool v v'. validated tool v \<longrightarrow> validated tool v' \<longrightarrow>
        slice_to 16 (arguments_hash pf v) = slice_to 16 (arguments_hash pf v') \<longrightarrow>
        arguments_hash pf v = arguments_hash pf v')"

lemma effort_stamped [simp]: "effort m (stamped R st) = effort m st"
  by (simp add: effort_def)

lemma terminal_stamped [simp]: "terminal (stamped R st) = terminal st"
  by (simp add: terminal_def)

lemma wp_returnsD: "wp m Q E s \<Longrightarrow> m s = (Inr x, s') \<Longrightarrow> Q x s'"
  by (simp add: wp_def)

lemma split_at_first: "c \<notin> set x \<Longrightarrow> c \<notin> set y \<Longrightarrow> x @ c # s = y @ c # t \<Longrightarrow> x = y \<and> s = t"
proof (induction x arbitrary: y)
  case Nil
  then show ?case by (cases y) auto
next
  case (Cons a x)
  then show ?case by (cases y) auto
qed

lemma keys_fit_record:
  assumes "keys_fit pf t w" and "digests_fit pf" and "validated tool v"
    and "ledger w' = (ledger w)(action_key pf t tool v \<mapsto> (arguments_hash pf v, r))"
  shows "keys_fit pf t w'"
  unfolding keys_fit_def
proof (intro allI impI)
  fix tool' v' h r'
  assume v': "validated tool' v'" and l: "ledger w' (action_key pf t tool' v') = Some (h, r')"
  show "h = arguments_hash pf v'"
  proof (cases "action_key pf t tool' v' = action_key pf t tool v")
    case True
    then have "tool_value tool' @ CHR '':'' # slice_to 16 (arguments_hash pf v') =
        tool_value tool @ CHR '':'' # slice_to 16 (arguments_hash pf v)"
      by (simp add: action_key_def)
    from split_at_first [OF tool_value_no_colon tool_value_no_colon this]
    have "tool' = tool" "slice_to 16 (arguments_hash pf v') = slice_to 16 (arguments_hash pf v)" by simp_all
    then have "tool' = tool" "arguments_hash pf v' = arguments_hash pf v"
      using assms(2,3) v' by (auto simp: digests_fit_def)
    with l True assms(4) show ?thesis by simp
  next
    case False
    with l assms(1,4) v' show ?thesis by (auto simp: keys_fit_def)
  qed
qed

section \<open>What a delivery does to it\<close>

text \<open>
  A workflow under delivery, in two modes. With \<open>failing\<close> anything may raise; without, the engine decides on
  every state, with arguments that validate, the tools answer with an object or fail permanently, and
  digests do not collide: then nothing raises but what \<open>process\<close> handles.
\<close>

definition decides :: "platform \<Rightarrow> (workflow_state \<Rightarrow> error + agent_decision) \<Rightarrow> bool" where
  "decides pf f \<longleftrightarrow>
     (\<forall>st. \<exists>d. f st = Inr d \<and>
        (d_action d = Use_Tool \<longrightarrow>
           (\<exists>tool vd. d_tool d = Some tool \<and> validate_and_decide pf tool (dump_arguments (d_arguments d)) = Inr vd)))"

definition answers :: "(workflow_state \<Rightarrow> tool_name \<Rightarrow> dict \<Rightarrow> int \<Rightarrow> world \<Rightarrow> error + json) \<Rightarrow> bool" where
  "answers answer \<longleftrightarrow>
     (\<forall>st tool v n w. (\<exists>kv kvs. answer st tool v n w = Inr (JObj (kv # kvs))) \<or>
        (\<exists>why. answer st tool v n w = Inl (PermanentWorkflowError why)))"

locale under_delivery =
  fixes failing :: bool and t :: string and R :: "world workflow_runtime" and f u answer
  assumes run: "local_runtime R f u answer"
    and deciding: "failing \<or> decides (wf_platform R) f"
    and answering: "failing \<or> answers answer"
    and fitting: "failing \<or> digests_fit (wf_platform R)"
begin

abbreviation "pf \<equiv> wf_platform R"
abbreviation "budget \<equiv> max_tool_calls (wf_loop_detector R)"

definition holding :: "workflow_state \<Rightarrow> world \<Rightarrow> bool" where
  "holding st w \<longleftrightarrow> world_ok w \<and> checkpoint w t = Some st \<and> (failing \<or> keys_fit pf t w)"

definition requeued :: "nat \<Rightarrow> workflow_state \<Rightarrow> world \<Rightarrow> bool" where
  "requeued n st w \<longleftrightarrow> (if status st = QUEUED then holding st w \<and> effort budget st < n
     else terminal st \<or> status st = WAITING_FOR_APPROVAL)"

abbreviation "failed \<equiv> (\<lambda>(e :: error) (w :: world). failing)"

lemma holding_task: "holding st w \<Longrightarrow> task_id st = t"
  unfolding holding_def using tracks_task [OF tracks_start] by blast

lemma holding_save:
  assumes "holding old w" and "task_id st = t" and "version st = version old"
  shows "wp (Runtime.save R st) (\<lambda>st' w'. st' = stamped R st \<and> holding (stamped R st) w') failed w"
proof -
  have "tracks t w old [] [] w" using assms(1) by (auto simp: holding_def intro: tracks_start)
  then obtain w'' where "Runtime.save R st w = (Inr (stamped R st), w'')" "tracks t w (stamped R st) [] [] w''"
    "tool_results w'' = tool_results w"
    by (rule tracks_save [OF run _ assms(2,3)])
  then show ?thesis using assms(1) view_cong(3) [of w'' w]
    by (simp add: wp_def holding_def tracks_def keys_fit_def)
qed

lemma holding_event: "holding st w \<Longrightarrow> wp (event R t' ty p) (\<lambda>_. holding st) failed w"
proof -
  assume h: "holding st w"
  then have "tracks t w st [] [] w" by (auto simp: holding_def intro: tracks_start)
  let ?w = "record_event_row (wf_now R) t' ty p w"
  have "checkpoint ?w = checkpoint w" "ledger ?w = ledger w"
    by (rule view_cong, simp add: record_event_row_def)+
  then show ?thesis using h
    by (simp add: event_eq [OF run] wp_def holding_def keys_fit_def world_ok_event)
qed

lemma holding_read:
  assumes h: "holding st w" and "task_id s = t" and v: "validated tool v"
  shows "wp (rs_get_tool_result (wf_store R) (gateway_action_id (wf_store R) s tool v) v)
    (\<lambda>c w'. w' = w \<and> (c = None \<longrightarrow> ledger w (action_key pf t tool v) = None))
    (\<lambda>e w'. w' = w \<and> failing) w"
proof -
  have "failing \<or> (\<forall>x r. ledger w (action_key pf t tool v) = Some (x, r) \<longrightarrow> x = arguments_hash pf v)"
    using h v unfolding holding_def keys_fit_def by blast
  then show ?thesis
    by (cases "ledger w (action_key pf t tool v)")
       (auto simp: wp_def local_runtimeD(1) [OF run] plain.action_id_eq assms(2) get_tool_result_def ledger_def
          split: option.splits)
qed

lemma holding_call:
  assumes h: "holding st w" and s: "task_id s = t" and v: "validated tool v"
    and new: "ledger w (action_key pf t tool v) = None"
  shows "wp (bindE (wf_backend R s tool v n) (\<lambda>result.
      case result of
        JObj (kv # kvs) \<Rightarrow>
          bindE (rs_save_tool_result (wf_store R) (gateway_action_id (wf_store R) s tool v) (task_id s) (tool_value tool) v
            (kv # kvs)) (\<lambda>_. ret (kv # kvs, False))
      | _ \<Rightarrow> raise (RetryableWorkflowError (tool_value tool @ '' returned invalid structured output''))))
    (\<lambda>_. holding st) (\<lambda>e w'. holding st w' \<and> (failing \<or> is_permanent e)) w"
proof -
  have tr: "tracks t w st [] [] w" using h by (auto simp: holding_def intro: tracks_start)
  obtain w1 where 1: "wf_backend R s tool v n w = (answer s tool v n w, w1)" "tracks t w st [] ([] @ [call_of t tool v]) w1"
    "tool_results w1 = tool_results w"
    by (rule tracks_call [OF run tr s])
  have led: "ledger w1 = ledger w" by (rule view_cong(3) [OF 1(3)])
  have h1: "holding st w1" using h 1(2) led by (simp add: holding_def tracks_def keys_fit_def)
  have save: "wp (rs_save_tool_result (wf_store R) (action_key pf t tool v) t (tool_value tool) v r)
      (\<lambda>_. holding st) (\<lambda>e w'. False) w1" for r
  proof -
    have "ledger w1 (action_key pf t tool v) = None" using led new by simp
    then obtain w2 where 2: "rs_save_tool_result (wf_store R) (action_key pf t tool v) t (tool_value tool) v r w1 = (Inr (), w2)"
      "tracks t w st [] ([] @ [call_of t tool v]) w2"
      "ledger w2 = (ledger w1)(action_key pf t tool v \<mapsto> (arguments_hash pf v, r))"
      by (rule tracks_result [OF run 1(2)])
    have "failing \<or> keys_fit pf t w2"
      using h1 fitting keys_fit_record [OF _ _ v 2(3)] by (auto simp: holding_def)
    with 2(1,2) show ?thesis by (simp add: wp_def holding_def tracks_def)
  qed
  have key: "gateway_action_id (wf_store R) s tool v = action_key pf t tool v"
    by (simp add: local_runtimeD(1) [OF run] plain.action_id_eq s)
  have "wp (bindE (rs_save_tool_result (wf_store R) (action_key pf t tool v) t (tool_value tool) v r) (\<lambda>_. ret (r, False)))
      (\<lambda>_. holding st) (\<lambda>e w'. holding st w' \<and> (failing \<or> is_permanent e)) w1" for r
    unfolding wp_bindE by (rule wp_mono [OF save]) (simp_all add: wp_ret)
  moreover have "failing \<or> (\<exists>kv kvs. answer s tool v n w = Inr (JObj (kv # kvs))) \<or>
      (\<exists>why. answer s tool v n w = Inl (PermanentWorkflowError why))"
    using answering unfolding answers_def by blast
  ultimately show ?thesis
    unfolding wp_bindE [of "wf_backend _ _ _ _ _"] key s
    using h1 by (auto simp: wp_def [of "wf_backend _ _ _ _ _"] 1(1) wp_raise split: sum.split json.split list.split)
qed

lemma holding_gateway:
  assumes h: "holding st w" and s: "task_id s = t"
  shows "wp (gateway_execute pf (wf_store R) (wf_backend R) s tool args)
    (\<lambda>_. holding st) (\<lambda>e w'. holding st w' \<and> (failing \<or> is_permanent e)) w"
proof (cases "validate_and_decide pf tool args")
  case (Inl e)
  then have "is_permanent e" by (auto simp: validate_and_decide_def split: option.splits)
  with Inl h show ?thesis by (simp add: gateway_execute_def wp_bindE wp_lift_sum)
next
  case (Inr vd)
  then have v: "validated tool (fst vd)" by (simp add: validate_and_decide_validated)
  show ?thesis
  proof (cases "pd_allowed (snd vd)")
    case False
    with Inr h show ?thesis by (simp add: gateway_execute_def wp_bindE wp_lift_sum Let_def wp_raise)
  next
    case True
    show ?thesis
      unfolding gateway_execute_def wp_bindE [of "lift_sum _"] wp_lift_sum Inr Let_def
      using True
      by (simp add: wp_bindE [of "rs_get_tool_result _ _ _"])
         (rule wp_mono [OF holding_read [OF h s v]],
          use h in \<open>simp_all add: wp_ret holding_call [OF h s v] split: option.split\<close>)
  qed
qed

section \<open>The branches of a delivery\<close>

lemma requeued_save:
  assumes h: "holding old w" and "task_id st = t" and "version st = version old"
    and "\<And>st' w'. st' = stamped R st \<Longrightarrow> holding st' w' \<Longrightarrow> wp (F st') (requeued n) failed w'"
  shows "wp (bindE (Runtime.save R st) F) (requeued n) failed w"
  unfolding wp_bindE by (rule wp_mono [OF holding_save [OF assms(1-3)]]) (use assms(4) in auto)

lemma requeued_event_then:
  assumes "holding st w" and "\<And>w'. holding st w' \<Longrightarrow> wp F (requeued n) failed w'"
  shows "wp (bindE (event R t' ty p) (\<lambda>_. F)) (requeued n) failed w"
  unfolding wp_bindE by (rule wp_mono [OF holding_event [OF assms(1)]]) (use assms(2) in auto)

lemma requeued_event:
  assumes "holding st w" and "if status st = QUEUED then effort budget st < n else terminal st \<or> status st = WAITING_FOR_APPROVAL"
  shows "wp (bindE (event R t' ty p) (\<lambda>_. ret st)) (requeued n) failed w"
  by (rule requeued_event_then [OF assms(1)]) (use assms(2) in \<open>simp add: wp_ret requeued_def split: if_splits\<close>)

lemma requeued_rest:
  assumes "holding old w" and "task_id st = t" and "version st = version old"
    and "terminal st" and "status st \<noteq> QUEUED"
  shows "wp (bindE (Runtime.save R st) (\<lambda>st'. bindE (event R (task_id st') ty (p st')) (\<lambda>_. ret st')))
    (requeued n) failed w"
  by (rule requeued_save [OF assms(1-3)]) (use assms(4,5) in \<open>auto intro!: requeued_event\<close>)

lemma requeued_fail: "holding st w \<Longrightarrow> wp (fail_workflow R st why category) (requeued n) failed w"
  unfolding fail_workflow_def by (rule requeued_rest) (simp_all add: holding_task terminal_def)

lemma requeued_execute:
  assumes h: "holding st w" and e: "2 * (nat budget - length (tool_history st)) < n"
  shows "wp (execute_tool R st tool args) (requeued n) failed w"
proof -
  let ?gw = "gateway_execute pf (wf_store R) (wf_backend R) st tool args"
  note id = holding_task [OF h]
  have finish: "wp (bindE (Runtime.save R (tool_completed pf st tool r)) (\<lambda>st'.
      bindE (event R (task_id st') ''TOOL_COMPLETED'' (p st')) (\<lambda>_. ret st'))) (requeued n) failed w'"
    if "holding st w'" for r p w'
    by (rule requeued_save [OF that]) (use e in \<open>auto simp: id effort_def intro!: requeued_event\<close>)
  have permanent: "wp (bindE (fail_workflow R st why category) (\<lambda>st. ret (Inl st)))
      (\<lambda>x. wp (case x of Inl st \<Rightarrow> ret st | Inr rc \<Rightarrow> K rc) (requeued n) failed) failed w'"
    if "holding st w'" for why category K w'
    unfolding wp_bindE by (rule wp_mono [OF requeued_fail [OF that]]) (simp_all add: wp_ret)
  have raising: "wp m (\<lambda>x. wp (K x) (requeued n) failed) failed w'"
    if "failing" "\<And>x s'. m w' \<noteq> (Inr x, s')" for m :: "(world, workflow_state + dict \<times> bool) act" and K w'
    using that by (auto simp: wp_def split: prod.split sum.split)
  show ?thesis
    unfolding execute_tool_def wp_bindE [of "try_catch _ _"] wp_try_catch wp_bindE [of ?gw]
    apply (rule wp_mono [OF holding_gateway [OF h id]])
    subgoal for rc w' by (cases rc) (simp add: wp_ret finish)
    subgoal for e w'
    proof (cases "is_permanent e")
      case True
      then have "\<not> is_retryable e" using retryable_not_permanent by blast
      moreover assume "holding st w' \<and> (failing \<or> is_permanent e)"
      ultimately show ?thesis using True by (simp add: permanent)
    next
      case False
      moreover assume "holding st w' \<and> (failing \<or> is_permanent e)"
      ultimately have "failing" by simp
      with False show ?thesis
        by (intro raising) (auto simp: bindE_eq_Inr raise_def split: if_splits)
    qed
    done
qed

lemma requeued_resume:
  assumes h: "holding st w" and p: "pending_action st = Some p"
  shows "wp (resume_approved_action R st p) (requeued (effort budget st)) failed w"
proof (cases "approval_of w (task_id st) (action_id p) = Some ''APPROVED''")
  case True
  have less: "2 * (nat budget - length (tool_history st)) < effort budget st" by (simp add: effort_def p)
  have "wp (bindE (event R (task_id st) ''APPROVED_ACTION_RESUMED'' [(''action_id'', JStr (action_id p))])
      (\<lambda>_. execute_tool R st (pa_tool p) (pa_arguments p))) (requeued (effort budget st)) failed w"
    by (rule requeued_event_then [OF h], rule requeued_execute [OF _ less])
  with True show ?thesis
    unfolding resume_approved_action_def wp_bindE [of "rs_approval_status _ _ _"]
    by (simp add: local_runtimeD(1) [OF run] wp_def [of "approval_status _ _"] approval_status_eq)
next
  case False
  then show ?thesis
    by (simp add: resume_approved_action_def local_runtimeD(1) [OF run] wp_bindE wp_def [of "approval_status _ _"]
        approval_status_eq wp_ret requeued_def)
qed

lemma holding_approval:
  assumes h: "holding st w"
  shows "wp (rs_create_approval (wf_store R) t' a) (\<lambda>_. holding st) failed w"
proof -
  let ?w = "snd (create_approval (wf_now R) t' a w)"
  have "checkpoint ?w = checkpoint w" "ledger ?w = ledger w"
    by (rule view_cong, simp add: create_approval_def)+
  moreover have "world_ok ?w" using relatesD [OF keeps_ok_create_approval] h by (auto simp: holding_def)
  ultimately show ?thesis using h
    by (simp add: wp_def local_runtimeD(1) [OF run] holding_def keys_fit_def create_approval_def split: if_splits)
qed

lemma requeued_ask:
  assumes h: "holding st w"
  shows "wp (request_approval R st d tool args policy) (requeued n) failed w"
  unfolding request_approval_def Let_def
  by (rule requeued_save [OF h])
     (auto simp: holding_task [OF h] wp_bindE [of "rs_create_approval _ _ _"] intro!: wp_mono [OF holding_approval]
       requeued_event)

lemma requeued_follow:
  assumes h: "holding st w" and e: "2 * (nat budget - length (tool_history st)) < n"
  shows "wp (follow_policy R st d tool args policy) (requeued n) failed w"
proof -
  have pause: "wp (bindE (chaos_pause R st tool) (\<lambda>_. execute_tool R st tool args)) (requeued n) failed w"
    unfolding chaos_pause_def
    using requeued_execute [OF _ e] h
    by (auto simp: bindE_assoc local_runtimeD(5) [OF run] intro!: requeued_event_then [OF h])
  show ?thesis
    unfolding follow_policy_def
    using pause requeued_ask [OF h] by (auto intro!: requeued_event_then [OF h] requeued_fail)
qed

lemma requeued_act_on_tool:
  assumes h: "holding old w" and st: "task_id st = t" "version st = version old" and e: "effort budget st \<le> n"
    and vd: "failing \<or> (\<exists>vd. validate_and_decide pf tool (dump_arguments (d_arguments d)) = Inr vd)"
  shows "wp (act_on_tool R st d tool) (requeued n) failed w"
proof -
  let ?st = "tool_requested pf st tool"
  have same: "task_id ?st = t" "version ?st = version old" using st by (simp_all add: tool_requested_def)
  have stop: "wp (stop_loop R ?st why) (requeued n) failed w" for why
    unfolding stop_loop_def by (rule requeued_rest [OF h]) (simp_all add: same terminal_def)
  have go: "wp (bindE (Runtime.save R ?st) (\<lambda>st. follow_policy R st d tool args policy)) (requeued n) failed w"
    if "reason (wf_loop_detector R) (tool_history ?st) (progress_history ?st) = None" for args policy
  proof -
    have "int (length (tool_history ?st)) < budget" using that by (simp add: reason_None)
    then have less: "2 * (nat budget - length (tool_history ?st)) < n"
      using e by (simp add: effort_def tool_requested_def)
    show ?thesis
      unfolding wp_bindE
      by (rule wp_mono [OF holding_save [OF h same]]) (use less in \<open>auto intro!: requeued_follow\<close>)
  qed
  show ?thesis
    unfolding act_on_tool_def Let_def wp_bindE [of "lift_sum _"] wp_lift_sum
    using stop go vd by (cases "validate_and_decide pf tool (dump_arguments (d_arguments d))") (auto split: option.split)
qed

lemma requeued_act:
  assumes h: "holding old w" and st: "task_id st = t" "version st = version old" and e: "effort budget st \<le> n"
    and d: "failing \<or> (d_action d = Use_Tool \<longrightarrow>
      (\<exists>tool vd. d_tool d = Some tool \<and> validate_and_decide pf tool (dump_arguments (d_arguments d)) = Inr vd))"
  shows "wp (act_on_decision R st d) (requeued n) failed w"
proof (cases "d_action d")
  case Use_Tool
  show ?thesis
  proof (cases "d_tool d")
    case None
    with Use_Tool d show ?thesis by (simp add: act_on_decision_def wp_raise)
  next
    case (Some tool)
    with Use_Tool d show ?thesis by (simp add: act_on_decision_def) (rule requeued_act_on_tool [OF h st e], auto)
  qed
next
  case Complete
  then show ?thesis unfolding act_on_decision_def complete_workflow_def
    by simp (rule requeued_rest [OF h], simp_all add: st terminal_def)
next
  case Fail
  then show ?thesis unfolding act_on_decision_def fail_workflow_def
    by simp (rule requeued_rest [OF h], simp_all add: st terminal_def)
qed

lemma requeued_start:
  assumes h: "holding st w"
  shows "wp (start_decision R st) (requeued (effort budget st)) failed w"
proof -
  note id = holding_task [OF h]
  have decide: "wp (decide R st1) (\<lambda>d w2. f st1 = Inr d \<and> holding st1 w2) failed w1" if "holding st1 w1" for st1 w1
  proof (cases "f st1")
    case (Inl e)
    then have "failing" using deciding unfolding decides_def by (metis sum.distinct(1))
    moreover have "fst (decide R st1 w1) \<noteq> Inr d" for d
      using Inl by (auto simp: decide_def try_catch_def local_runtimeD(2) [OF run] lift_sum_def bindE_def raise_def
          split: prod.splits sum.splits if_splits)
    ultimately show ?thesis by (cases "decide R st1 w1") (auto simp: wp_def split: sum.split)
  next
    case (Inr d)
    with that show ?thesis
      by (simp add: decide_def wp_try_catch local_runtimeD(2) [OF run] wp_lift_sum)
  qed
  have act: "wp (act_on_decision R (note_findings (model_called st1 usage) d) d) (requeued (effort budget st)) failed w1"
    if "holding st1 w1" "f st1 = Inr d" "effort budget st1 = effort budget st" for st1 usage d w1
  proof (rule requeued_act [OF that(1)])
    show "failing \<or> (d_action d = Use_Tool \<longrightarrow>
      (\<exists>tool vd. d_tool d = Some tool \<and> validate_and_decide pf tool (dump_arguments (d_arguments d)) = Inr vd))"
      using deciding that(2) unfolding decides_def by (metis sum.inject(2))
  qed (use that holding_task [OF that(1)] in \<open>simp_all add: note_findings_def model_called_def effort_def\<close>)
  show ?thesis
    unfolding start_decision_def
  proof (rule requeued_save [OF h])
    fix st1 w1
    assume st1: "st1 = stamped R (st\<lparr>status := RUNNING, last_error := None\<rparr>)" and h1: "holding st1 w1"
    then have same: "effort budget st1 = effort budget st" by (simp add: effort_def)
    show "wp (bindE (event R (task_id st1) ''AGENT_DECISION_STARTED'' [(''model_call'', JInt (model_calls st1 + 1))]) (\<lambda>_.
       bindE (decide R st1) (\<lambda>d.
       bindE (en_take_usage (wf_engine R)) (\<lambda>usage.
       bindE (event R (task_id st1) ''AGENT_DECISION'' (dump_decision d)) (\<lambda>_.
       act_on_decision R (note_findings (model_called st1 usage) d) d))))) (requeued (effort budget st)) failed w1"
    proof (rule requeued_event_then [OF h1], unfold wp_bindE [of "decide _ _"], rule wp_mono [OF decide])
      fix d w3
      assume "f st1 = Inr d \<and> holding st1 w3"
      then show "wp (bindE (en_take_usage (wf_engine R)) (\<lambda>usage.
          bindE (event R (task_id st1) ''AGENT_DECISION'' (dump_decision d)) (\<lambda>_.
          act_on_decision R (note_findings (model_called st1 usage) d) d))) (requeued (effort budget st)) failed w3"
        by (simp add: local_runtimeD(3) [OF run]) (rule requeued_event_then, auto intro: act simp: same)
    qed
  qed (simp_all add: id)
qed

lemma requeued_process:
  assumes h: "holding st w"
  shows "wp (process R t) (requeued (effort budget st)) failed w"
proof -
  have load: "required_state R t w = (Inr st, w)"
    using h by (simp add: holding_def required_state_def local_runtimeD(1) [OF run] bindE_def get_workflow_checkpoint ret_def)
  have rest: "wp (ret st) (requeued n) failed w" if "terminal st \<or> status st = WAITING_FOR_APPROVAL" for n
    using that by (auto simp: wp_ret requeued_def terminal_def)
  show ?thesis
    unfolding process_def wp_bindE [of "required_state _ _"]
    using rest requeued_start [OF h] requeued_resume [OF h]
    by (simp add: wp_def [of "required_state _ _"] load split: option.split)
qed

end

section \<open>Workflows come to rest\<close>

text \<open>
  The deliveries of one workflow, as long as it comes back QUEUED: the worker requeues it then. The
  \<open>i\<close>-th runtime has its own clock, engine and tools.
\<close>

fun deliveries :: "(nat \<Rightarrow> 's workflow_runtime) \<Rightarrow> string \<Rightarrow> nat \<Rightarrow> ('s, workflow_state) act" where
  "deliveries R t 0 = process (R 0) t"
| "deliveries R t (Suc n) =
     bindE (process (R (Suc n)) t) (\<lambda>st. if status st = QUEUED then deliveries R t n else ret st)"

definition at_rest :: "workflow_state \<Rightarrow> bool" where
  "at_rest st \<longleftrightarrow> terminal st \<or> status st = WAITING_FOR_APPROVAL"

lemma deliveries_rest:
  assumes D: "\<And>i. under_delivery failing (R i) (f i) (u i) (answer i)"
    and same: "\<And>i. wf_platform (R i) = pf" "\<And>i. max_tool_calls (wf_loop_detector (R i)) = m"
    and "world_ok w" and "checkpoint w t = Some st" and "failing \<or> keys_fit pf t w" and "effort m st \<le> n"
  shows "wp (deliveries R t n) (\<lambda>st' _. at_rest st') (\<lambda>_ _. failing) w"
proof -
  have requeued: "under_delivery.requeued failing t (R i) k st' w' \<longleftrightarrow>
      (if status st' = QUEUED
       then world_ok w' \<and> checkpoint w' t = Some st' \<and> (failing \<or> keys_fit pf t w') \<and> effort m st' < k
       else at_rest st')" for i k st' w'
    by (simp add: under_delivery.requeued_def [OF D] under_delivery.holding_def [OF D] same at_rest_def)
  show ?thesis
    using assms(4-7)
  proof (induction n arbitrary: w st)
    case 0
    then have "wp (process (R 0) t) (under_delivery.requeued failing t (R 0) 0) (\<lambda>_ _. failing) w"
      using under_delivery.requeued_process [OF D [of 0], where t = t and st = st and w = w]
      by (simp add: under_delivery.holding_def [OF D] same)
    then show ?case unfolding requeued deliveries.simps by (rule wp_mono) (simp_all split: if_splits)
  next
    case (Suc n)
    then have "wp (process (R (Suc n)) t) (under_delivery.requeued failing t (R (Suc n)) (effort m st)) (\<lambda>_ _. failing) w"
      using under_delivery.requeued_process [OF D [of "Suc n"], where t = t and st = st and w = w]
      by (simp add: under_delivery.holding_def [OF D] same)
    then show ?case
      unfolding requeued deliveries.simps wp_bindE
    proof (rule wp_mono)
      fix st' w'
      assume "if status st' = QUEUED
        then world_ok w' \<and> checkpoint w' t = Some st' \<and> (failing \<or> keys_fit pf t w') \<and> effort m st' < effort m st
        else at_rest st'"
      then show "wp (if status st' = QUEUED then deliveries R t n else ret st') (\<lambda>st' _. at_rest st') (\<lambda>_ _. failing) w'"
        using Suc.IH [of w' st'] Suc.prems(4) by (simp add: wp_ret split: if_splits)
    qed simp
  qed
qed

lemma effort_bounded: "effort (max_tool_calls default_loop_detector) st \<le> 41"
proof -
  have "2 * (20 - n) \<le> (40 :: nat)" for n by simp
  then have "2 * (20 - n) \<le> (41 :: nat)" for n by (rule order_trans) simp
  then show ?thesis by (simp add: effort_def default_loop_detector_def)
qed

text \<open>The deterministic engine on the plain store, whatever the tools answer.\<close>

interpretation deterministic_delivery: under_delivery True t
    "make_runtime pf c (sqlite_store pf now) (deterministic_engine pf) (observed answer) (\<lambda>_. ret ()) now"
    "deterministic_decide pf" "(0, 0)" answer
  for t pf c now answer
  by unfold_locales (simp_all add: local_runtime_def deterministic_engine_def)

text \<open>
  C12: Bounded autonomy: whatever an engine decides and whatever the tools answer, at most forty-two
  deliveries bring a workflow to rest - it has ended or waits for a human - unless one of them raises,
  which the worker answers with a retry or a dead letter.
\<close>

theorem autonomy_ends:
  assumes "\<And>i. local_runtime (R i) (f i) (u i) (answer i)"
    and "\<And>i. wf_loop_detector (R i) = default_loop_detector" and "\<And>i. wf_platform (R i) = pf"
    and "world_ok w" and "checkpoint w t = Some st"
  shows "case fst (deliveries R t 41 w) of Inl e \<Rightarrow> True | Inr st' \<Rightarrow> at_rest st'"
proof -
  have "under_delivery True (R i) (f i) (u i) (answer i)" for i
    using assms(1) by (simp add: under_delivery_def)
  from deliveries_rest [OF this assms(3) _ assms(4,5) _ effort_bounded, of "\<lambda>i. i"] assms(2)
  have "wp (deliveries R t 41) (\<lambda>st' _. at_rest st') (\<lambda>_ _. True) w" by simp
  then show ?thesis by (auto simp: wp_def split: prod.splits sum.splits)
qed

text \<open>
  C11: Liveness: when the engine decides on every checkpoint, with arguments that validate, and the tools
  answer with an object or fail for good, none of these deliveries raises, and the workflow comes to rest
  within forty-two of them; the digest in the action ids is assumed to separate the validated arguments.
\<close>

theorem workflow_comes_to_rest:
  assumes "\<And>i. local_runtime (R i) (f i) (u i) (answer i)"
    and "\<And>i. wf_loop_detector (R i) = default_loop_detector" and "\<And>i. wf_platform (R i) = pf"
    and "\<And>i. decides pf (f i)" and "\<And>i. answers (answer i)" and "digests_fit pf" and "keys_fit pf t w"
    and "world_ok w" and "checkpoint w t = Some st"
  shows "\<exists>st' w'. deliveries R t 41 w = (Inr st', w') \<and> at_rest st'"
proof -
  have "under_delivery False (R i) (f i) (u i) (answer i)" for i
    using assms(1,3-6) by (simp add: under_delivery_def)
  from deliveries_rest [OF this assms(3) _ assms(8,9) _ effort_bounded, of "\<lambda>i. i"] assms(2,7)
  have "wp (deliveries R t 41) (\<lambda>st' _. at_rest st') (\<lambda>_ _. False) w" by simp
  then show ?thesis by (auto simp: wp_def split: prod.splits sum.splits)
qed

section \<open>An engine that asks for the same tool for ever\<close>

definition short_platform :: platform where
  \<comment> \<open>with digests of sixteen characters\<close>
  "short_platform = sample_platform\<lparr>sha256_hex := slice_to 16\<rparr>"

definition stubborn_runtime :: "nat \<Rightarrow> world workflow_runtime" where
  "stubborn_runtime i = make_runtime short_platform default_settings (sqlite_store short_platform (int i))
     \<lparr>en_decide = (\<lambda>st. lift_sum (Inr (use_tool READ_ALERT ''look'' None))), en_take_usage = ret (0, 0)\<rparr>
     (observed all_good) (\<lambda>_. ret ()) (int i)"

lemma stubborn_runtime:
  "local_runtime (stubborn_runtime i) (\<lambda>_. Inr (use_tool READ_ALERT ''look'' None)) (0, 0) all_good"
  "wf_loop_detector (stubborn_runtime i) = default_loop_detector" "wf_platform (stubborn_runtime i) = short_platform"
  by (simp_all add: stubborn_runtime_def local_runtime_def)

theorem workflow_comes_to_rest_witness:
  "\<exists>st' w'. deliveries stubborn_runtime ''t'' 41 sample_world = (Inr st', w') \<and> at_rest st'"
proof (rule workflow_comes_to_rest [OF stubborn_runtime])
  show "decides short_platform (\<lambda>_. Inr (use_tool READ_ALERT ''look'' None))"
    using sample_valid(1) [of "''look''" None] by (auto simp: decides_def validate_and_decide_def split: option.splits)
  show "answers all_good" by (simp add: answers_def all_good_def)
  show "digests_fit short_platform"
    by (auto simp: digests_fit_def short_platform_def arguments_hash_def slice_to_def)
  show "keys_fit short_platform ''t'' sample_world" by (simp add: keys_fit_def sample_ledger)
  show "world_ok sample_world" by (rule sample_world_ok)
  show "checkpoint sample_world ''t'' = Some sample_state" by (rule sample_checkpoint)
qed

theorem autonomy_ends_witness:
  "case fst (deliveries stubborn_runtime ''t'' 41 sample_world) of Inl e \<Rightarrow> True | Inr st' \<Rightarrow> at_rest st'"
  by (rule autonomy_ends [OF stubborn_runtime sample_world_ok sample_checkpoint])

end
