(* ===== verification/Api_Laws.thy ===== *)
theory Api_Laws
  imports Interruption
begin

text \<open>
  The control plane over the SQLite store: who may call what, what each handler does to the store on
  success, and what it refuses without effect; the dashboard's listing, percentile and event stream.
\<close>

section \<open>Authorisation\<close>

lemma compare_digest_other:
  "a \<noteq> b \<Longrightarrow> compare_digest a b = Inr False \<or> (\<exists>m. compare_digest a b = Inl (TypeError m))"
  by (simp add: compare_digest_def)

lemma require_admin_refuses:
  assumes "admin_api_token c = Some tok" and "tok \<noteq> []" and "auth \<noteq> Some (bearer tok)"
  shows "\<exists>e. require_admin c auth = Inl e \<and>
    (e = HTTPException 401 ''valid administrator bearer token required'' \<or> (\<exists>m. e = TypeError m))"
proof (cases auth)
  case None
  with assms show ?thesis by (simp add: require_admin_def truthy_text_def)
next
  case (Some given)
  with assms(3) have "given \<noteq> bearer tok" by simp
  from compare_digest_other [OF this] Some assms(1,2) show ?thesis
    by (auto simp: require_admin_def truthy_text_def)
qed

lemma as_admin_refused: "require_admin c auth = Inl e \<Longrightarrow> as_admin c auth m s = (Inl e, s)"
  by (simp add: as_admin_def bindE_def lift_sum_def)

lemma as_viewer_refused: "require_viewer c auth = Inl e \<Longrightarrow> as_viewer c auth m s = (Inl e, s)"
  by (simp add: as_viewer_def bindE_def lift_sum_def)

lemma match_role_refuses:
  assumes "\<forall>(role, token) \<in> set candidates. \<forall>t. token = Some t \<longrightarrow> t \<noteq> [] \<longrightarrow> auth \<noteq> Some (bearer t)"
  shows "\<exists>e. match_role candidates auth = Inl e"
  using assms
proof (induction candidates)
  case Nil
  then show ?case by simp
next
  case (Cons rt candidates)
  obtain role token where rt: "rt = (role, token)" by (cases rt)
  have IH: "\<exists>e. match_role candidates auth = Inl e" using Cons by simp
  show ?case
  proof (cases "truthy_text token \<and> truthy_text auth")
    case False
    with rt IH show ?thesis by auto
  next
    case True
    then obtain t given where tg: "token = Some t" "auth = Some given" "t \<noteq> []"
      by (auto simp: truthy_text_def)
    with Cons.prems rt have "given \<noteq> bearer t" by simp
    from compare_digest_other [OF this] show ?thesis
      using True IH rt tg by auto
  qed
qed

text \<open>
  C29: No state-changing request passes without the administrator's token: when one is configured, a
  request to create, approve, reject, replay or run the worker whose header is anything but that bearer
  token - absent, wrong, or the viewer's - is answered with an error and changes nothing, on any store.
\<close>

theorem changes_need_admin:
  assumes "admin_api_token c = Some tok" and "tok \<noteq> []" and "auth \<noteq> Some (bearer tok)"
    and "changes_state call"
  shows "\<exists>e. handle R c wk suffix auth call s = (Inl e, s) \<and>
    (e = HTTPException 401 ''valid administrator bearer token required'' \<or> (\<exists>m. e = TypeError m))"
proof -
  from require_admin_refuses [OF assms(1-3)] obtain e where e: "require_admin c auth = Inl e"
    "e = HTTPException 401 ''valid administrator bearer token required'' \<or> (\<exists>m. e = TypeError m)" by blast
  then have "handle R c wk suffix auth call s = (Inl e, s)"
    using assms(4) by (cases call) (simp_all add: as_admin_refused)
  with e(2) show ?thesis by blast
qed

theorem changes_need_admin_witness:
  "\<exists>e. handle (make_runtime sample_platform (default_settings\<lparr>admin_api_token := Some ''secret''\<rparr>)
       (sqlite_store sample_platform 0) (deterministic_engine sample_platform)
       (scenario_backend sample_platform scenario_fixtures) (\<lambda>_. ret ()) 0)
     (default_settings\<lparr>admin_api_token := Some ''secret''\<rparr>) ''w'' ''1'' (Some (bearer ''guess'')) Post_Run_Once
     sample_world = (Inl e, sample_world)"
  using changes_need_admin [of "default_settings\<lparr>admin_api_token := Some ''secret''\<rparr>" "''secret''"
      "Some (bearer ''guess'')" Post_Run_Once "make_runtime sample_platform (default_settings\<lparr>admin_api_token := Some ''secret''\<rparr>)
       (sqlite_store sample_platform 0) (deterministic_engine sample_platform)
       (scenario_backend sample_platform scenario_fixtures) (\<lambda>_. ret ()) 0" "''w''" "''1''" sample_world]
  by (auto simp: bearer_def)

text \<open>
  Reading needs a token, too: when an administrator or viewer token is configured, every request but
  the health check is refused without effect unless its header is the bearer of a configured token.
\<close>

theorem reads_need_token:
  assumes "truthy_text (admin_api_token c) \<or> truthy_text (viewer_api_token c)"
    and "\<forall>t. admin_api_token c = Some t \<or> viewer_api_token c = Some t \<longrightarrow> t = [] \<or> auth \<noteq> Some (bearer t)"
    and "\<not> changes_state call" and "call \<noteq> Get_Health"
  shows "\<exists>e. handle R c wk suffix auth call s = (Inl e, s)"
proof -
  have "\<exists>e. match_role [(''administrator'', admin_api_token c), (''viewer'', viewer_api_token c)] auth = Inl e"
    by (rule match_role_refuses) (use assms(2) in auto)
  then obtain e where "require_viewer c auth = Inl e" using assms(1) by (auto simp: require_viewer_def)
  then show ?thesis using assms(3,4)
    by (cases call) (simp_all add: as_viewer_refused and_reply_def bindE_def lift_sum_def)
qed

theorem reads_need_token_witness:
  "\<exists>e. handle (make_runtime sample_platform default_settings
       (sqlite_store sample_platform 0) (deterministic_engine sample_platform)
       (scenario_backend sample_platform scenario_fixtures) (\<lambda>_. ret ()) 0)
     (default_settings\<lparr>viewer_api_token := Some ''look''\<rparr>) ''w'' ''1'' None Get_Summary sample_world = (Inl e, sample_world)"
  by (rule reads_need_token) (simp_all add: default_settings_def truthy_text_def)

lemma and_reply_snd: "snd (m s) = s \<Longrightarrow> snd (and_reply m f s) = s"
  by (auto simp: and_reply_def bindE_def ret_def split: prod.split sum.split)

lemma as_viewer_snd: "snd (m s) = s \<Longrightarrow> snd (as_viewer c auth m s) = s"
  by (auto simp: as_viewer_def bindE_def lift_sum_def split: sum.split)

lemma reading_handlers:
  "snd (required (sqlite_store pf now) t w) = w"
  "snd (get_events (sqlite_store pf now) t w) = w"
  "snd (list_incidents (sqlite_store pf now) l x w) = w"
  "snd (Api.dead_letters (sqlite_store pf now) l w) = w"
  "snd (events_of (sqlite_store pf now) ts w) = w"
  "snd (dashboard_summary (sqlite_store pf now) w) = w"
proof -
  show r: "snd (required (sqlite_store pf now) t w) = w" for t
    by (auto simp: required_def prog_defs get_workflow_def split: option.split)
  show "snd (get_events (sqlite_store pf now) t w) = w"
    using r [of t] by (auto simp: get_events_def bindE_def list_events_def split: prod.split sum.split)
  show "snd (list_incidents (sqlite_store pf now) l x w) = w" "snd (Api.dead_letters (sqlite_store pf now) l w) = w"
    by (simp_all add: list_incidents_def dead_letters_def raise_def)
  show e: "snd (events_of (sqlite_store pf now) ts w) = w" for ts
    by (induction ts) (auto simp: prog_defs list_events_def split: prod.splits sum.splits)
  have "snd (bindE (events_of (sqlite_store pf now) ts) (\<lambda>evs. bindE queue_counts (\<lambda>q. ret (f evs, q))) w) = w" for ts f
    using e [of ts] by (auto simp: prog_defs queue_counts_def split: prod.splits sum.splits)
  then show "snd (dashboard_summary (sqlite_store pf now) w) = w"
    by (simp add: dashboard_summary_def bindE_def [of "list_workflows _ _"] list_workflows_def Let_def)
qed

text \<open>The requests that only read leave the store exactly as it was.\<close>

theorem reads_change_nothing:
  assumes "\<not> changes_state call"
  shows "snd (handle (make_runtime pf c (sqlite_store pf now) E B sleep now) c wk suffix auth call w) = w"
  using assms
  by (cases call)
     (simp_all add: and_reply_snd as_viewer_snd reading_handlers, simp add: and_reply_def prog_defs split: sum.split)

theorem reads_change_nothing_witness:
  "snd (handle (make_runtime sample_platform default_settings (sqlite_store sample_platform 0)
      (deterministic_engine sample_platform) (scenario_backend sample_platform scenario_fixtures) (\<lambda>_. ret ()) 0)
      default_settings ''w'' ''1'' None (Get_Events ''t'') sample_world) = sample_world"
  by (rule reads_change_nothing) simp

section \<open>Effects\<close>

lemma required_eq:
  "required (sqlite_store pf now) t w =
    (case checkpoint w t of None \<Rightarrow> (Inl (HTTPException 404 ''workflow not found''), w) | Some st \<Rightarrow> (Inr st, w))"
  by (simp add: required_def bindE_def get_workflow_checkpoint ret_def raise_def split: option.split)

lemma enqueue_active:
  assumes "find_workflow t w \<noteq> None"
  shows "\<exists>i w'. enqueue now t m p w = (Inr i, w') \<and> (\<exists>r \<in> set (queue w'). active_row t r) \<and>
    workflows w' = workflows w \<and> approvals w' = approvals w \<and> events w' = events w \<and>
    tool_results w' = tool_results w \<and> invocations w' = invocations w"
proof (cases "find (active_row t) (queue w)")
  case (Some r)
  with find_SomeD [OF Some] show ?thesis by (auto simp: enqueue_def)
next
  case None
  have "active_row t (new_queue_row now (next_queue_id w) t m p)"
    by (simp add: new_queue_row_def active_row_def active_status_def)
  with None assms show ?thesis by (auto simp: enqueue_def insert_queue_row_def)
qed

definition resolved_world :: "int \<Rightarrow> string \<Rightarrow> string \<Rightarrow> bool \<Rightarrow> approval_request \<Rightarrow> world \<Rightarrow> world" where
  "resolved_world now t a yes request w = snd (resolve_approval now t a yes (ap_actor request) (ap_reason request) w)"

lemma resolved_world:
  assumes "world_ok w" and "approval_of w t a = Some ''PENDING''"
  shows "resolve_approval now t a yes (ap_actor request) (ap_reason request) w = (Inr (), resolved_world now t a yes request w)"
    and "world_ok (resolved_world now t a yes request w)"
    and "approval_of (resolved_world now t a yes request w) t a = Some (if yes then ''APPROVED'' else ''REJECTED'')"
    and "workflows (resolved_world now t a yes request w) = workflows w"
    and "queue (resolved_world now t a yes request w) = queue w"
    and "events (resolved_world now t a yes request w) = events w"
    and "invocations (resolved_world now t a yes request w) = invocations w"
    and "tool_results (resolved_world now t a yes request w) = tool_results w"
proof -
  obtain w' where w': "resolve_approval now t a yes (ap_actor request) (ap_reason request) w = (Inr (), w')" "world_ok w'"
    "approval_of w' t a = Some (if yes then ''APPROVED'' else ''REJECTED'')"
    using sqlite_approvals.resolve_pending [OF assms, of undefined now yes "ap_actor request" "ap_reason request"]
    by auto
  then show "resolve_approval now t a yes (ap_actor request) (ap_reason request) w = (Inr (), resolved_world now t a yes request w)"
    and "world_ok (resolved_world now t a yes request w)"
    and "approval_of (resolved_world now t a yes request w) t a = Some (if yes then ''APPROVED'' else ''REJECTED'')"
    by (simp_all add: resolved_world_def)
  show "workflows (resolved_world now t a yes request w) = workflows w"
    "queue (resolved_world now t a yes request w) = queue w"
    "events (resolved_world now t a yes request w) = events w"
    "invocations (resolved_world now t a yes request w) = invocations w"
    "tool_results (resolved_world now t a yes request w) = tool_results w"
    by (simp_all add: resolved_world_def resolve_approval_def Let_def)
qed

lemma checkpoint_None: "checkpoint w t = None \<longleftrightarrow> find_workflow t w = None"
  by (simp add: checkpoint_def)

lemma approve_run:
  assumes "world_ok w" and "checkpoint w t = Some st" and "status st = WAITING_FOR_APPROVAL"
    and "pending_action st = Some p" and "approval_of w t (action_id p) = Some ''PENDING''"
    and "valid_approval_request request" and st': "st' = st\<lparr>status := QUEUED, version := version st + 1, updated_at := now\<rparr>"
  obtains w' where "approve (sqlite_store pf now) c t request w = (Inr st', w')" "world_ok w'"
    "checkpoint w' t = Some st'" "approval_of w' t (action_id p) = Some ''APPROVED''"
    "\<exists>r \<in> set (queue w'). active_row t r" "invocations w' = invocations w" "tool_results w' = tool_results w"
    "\<exists>e. events w' = events w @ [e] \<and> ev_task_id e = t \<and> ev_type e = ''APPROVAL_GRANTED'' \<and>
      ev_payload e = actor_payload request"
proof -
  let ?w1 = "resolved_world now t (action_id p) True request w"
  let ?st = "st\<lparr>status := QUEUED, version := version st + 1, updated_at := now\<rparr>"
  let ?w2 = "put_workflow now ?st ?w1"
  let ?w3 = "record_event_row now t ''APPROVAL_GRANTED'' (actor_payload request) ?w2"
  note res = resolved_world [OF assms(1,5), of now True request]
  have id: "task_id st = t" using assms(1,2) by (auto simp: checkpoint_def dest: world_ok_row)
  have cp: "checkpoint ?w1 t = Some st" using view_cong(1) [OF res(4)] assms(2) by simp
  have save: "save_workflow now (st\<lparr>status := QUEUED\<rparr>) (version st) ?w1 = (Inr ?st, ?w2)"
    using cp id by (simp add: save_workflow_eq [OF res(2)])
  have cp2: "checkpoint ?w2 t = Some ?st" using cp id by (simp add: checkpoint_put)
  have cp3: "checkpoint ?w3 = checkpoint ?w2" and ap3: "approval_of ?w3 = approval_of ?w1"
    by (rule view_cong, simp add: record_event_row_def)+
  have "find_workflow t ?w3 \<noteq> None" unfolding checkpoint_None [symmetric] cp3 cp2 by simp
  from enqueue_active [OF this, of now "max_queue_attempts c" "[]"] obtain i w' where
    enq: "enqueue now t (max_queue_attempts c) [] ?w3 = (Inr i, w')" "\<exists>r \<in> set (queue w'). active_row t r"
      "workflows w' = workflows ?w3" "approvals w' = approvals ?w3" "events w' = events ?w3"
      "invocations w' = invocations ?w3" "tool_results w' = tool_results ?w3" by blast
  have "approve (sqlite_store pf now) c t request w = (Inr ?st, w')"
    using assms(2-4,6)
    by (simp add: approve_def bindE_def required_eq res(1) save record_event_def enq(1) ret_def)
  moreover have "checkpoint w' t = Some ?st" using view_cong(1) [OF enq(3)] cp2 cp3 by simp
  moreover have "approval_of w' t (action_id p) = Some ''APPROVED''"
    using view_cong(2) [OF enq(4)] ap3 res(3) by simp
  moreover have "invocations w' = invocations w" using enq(6) res(7) by (simp add: record_event_row_def)
  moreover have "\<exists>e. events w' = events w @ [e] \<and> ev_task_id e = t \<and> ev_type e = ''APPROVAL_GRANTED'' \<and>
      ev_payload e = actor_payload request"
    using enq(5) res(6) by (simp add: record_event_row_def)
  moreover have "tool_results w' = tool_results w" using enq(7) res(8) by (simp add: record_event_row_def)
  moreover have "world_ok ?w3" by (simp add: world_ok_event world_ok_put res(2) cp id)
  then have "world_ok w'" using relatesD [OF keeps_ok_enqueue, of ?w3 now t "max_queue_attempts c" "[]"] enq(1) by simp
  ultimately show thesis using that [of w'] enq(2) st' by simp
qed

text \<open>
  C30: Approving a waiting workflow resolves its approval, puts the workflow back in state QUEUED with the
  next version, appends one event that names the actor and leaves an active delivery for it, all of it
  visible in the answer and in the store.
\<close>

theorem approve_effect:
  assumes "world_ok w" and "checkpoint w t = Some st" and "status st = WAITING_FOR_APPROVAL"
    and "pending_action st = Some p" and "approval_of w t (action_id p) = Some ''PENDING''"
    and "valid_approval_request request"
  shows "\<exists>w'. let st' = st\<lparr>status := QUEUED, version := version st + 1, updated_at := now\<rparr>
    in approve (sqlite_store pf now) c t request w = (Inr st', w') \<and>
      checkpoint w' t = Some st' \<and> approval_of w' t (action_id p) = Some ''APPROVED'' \<and>
      (\<exists>r \<in> set (queue w'). active_row t r) \<and> invocations w' = invocations w \<and>
      (\<exists>e. events w' = events w @ [e] \<and> ev_task_id e = t \<and> ev_type e = ''APPROVAL_GRANTED'' \<and>
        ev_payload e = actor_payload request)"
proof -
  obtain w' where "approve (sqlite_store pf now) c t request w =
      (Inr (st\<lparr>status := QUEUED, version := version st + 1, updated_at := now\<rparr>), w')"
    "checkpoint w' t = Some (st\<lparr>status := QUEUED, version := version st + 1, updated_at := now\<rparr>)"
    "approval_of w' t (action_id p) = Some ''APPROVED''" "\<exists>r \<in> set (queue w'). active_row t r"
    "invocations w' = invocations w"
    "\<exists>e. events w' = events w @ [e] \<and> ev_task_id e = t \<and> ev_type e = ''APPROVAL_GRANTED'' \<and>
      ev_payload e = actor_payload request"
    by (rule approve_run [OF assms refl, of pf now c])
  then show ?thesis by (auto simp: Let_def)
qed

text \<open>A workflow that waits for the approval of action \<open>a\<close>.\<close>

definition waiting_state :: workflow_state where
  "waiting_state = (new_workflow ''t'' ''restore checkout'' ''s'' 0)\<lparr>status := WAITING_FOR_APPROVAL,
     pending_action := Some \<lparr>action_id = ''a'', pa_tool = RESTART_SERVICE, pa_arguments = [], pa_risk = HIGH,
       pa_rationale = ''restart'', pa_created_at = 0\<rparr>\<rparr>"

definition waiting_sample :: world where
  "waiting_sample = snd (create_approval 0 ''t'' ''a'' (snd (create_workflow 0 waiting_state 5 empty_world)))"

lemma waiting_sample:
  "world_ok waiting_sample" "checkpoint waiting_sample ''t'' = Some waiting_state"
  "approval_of waiting_sample ''t'' ''a'' = Some ''PENDING''"
proof -
  let ?w = "snd (create_workflow 0 waiting_state 5 empty_world)"
  have ok: "world_ok ?w" using relatesD [OF keeps_ok_create] world_ok_empty by auto
  then show "world_ok waiting_sample"
    using relatesD [OF keeps_ok_create_approval] by (auto simp: waiting_sample_def)
  have "checkpoint ?w ''t'' = Some waiting_state"
    by (subst checkpoint_create) (simp_all add: find_workflow_def empty_world_def waiting_state_def new_workflow_def)
  moreover have "checkpoint waiting_sample = checkpoint ?w"
    by (rule view_cong) (simp add: waiting_sample_def create_approval_def)
  ultimately show "checkpoint waiting_sample ''t'' = Some waiting_state" by simp
  have "approval_of ?w ''t'' ''a'' = None"
    by (simp add: approval_of_def find_approval_def create_workflow_frame empty_world_def)
  then show "approval_of waiting_sample ''t'' ''a'' = Some ''PENDING''"
    using sqlite_approvals.create_new [OF ok, of "''t''" "''a''" undefined 0] by (auto simp: waiting_sample_def)
qed

lemma waiting_state_simps:
  "status waiting_state = WAITING_FOR_APPROVAL"
  "pending_action waiting_state = Some \<lparr>action_id = ''a'', pa_tool = RESTART_SERVICE, pa_arguments = [], pa_risk = HIGH,
     pa_rationale = ''restart'', pa_created_at = 0\<rparr>"
  by (simp_all add: waiting_state_def)

theorem approve_effect_witness:
  "\<exists>st w'. approve (sqlite_store sample_platform 7) default_settings ''t'' \<lparr>ap_actor = ''ann'', ap_reason = None\<rparr>
       waiting_sample = (Inr st, w') \<and> status st = QUEUED \<and> approval_of w' ''t'' ''a'' = Some ''APPROVED''"
proof -
  have "approval_of waiting_sample ''t'' (action_id \<lparr>action_id = ''a'', pa_tool = RESTART_SERVICE, pa_arguments = [],
      pa_risk = HIGH, pa_rationale = ''restart'', pa_created_at = 0\<rparr>) = Some ''PENDING''"
    "valid_approval_request \<lparr>ap_actor = ''ann'', ap_reason = None\<rparr>"
    using waiting_sample(3) by (simp_all add: valid_approval_request_def length_between_def)
  from approve_effect [OF waiting_sample(1,2) waiting_state_simps this, of 7 sample_platform default_settings]
  show ?thesis by (auto simp: Let_def)
qed

text \<open>
  C31: Rejecting a waiting workflow ends it: the approval is resolved as rejected, the workflow is in the
  terminal state HUMAN_REJECTED with the reason given and nothing pending, one event names the actor,
  and nothing is enqueued or invoked.
\<close>

theorem reject_effect:
  assumes "world_ok w" and "checkpoint w t = Some st" and "status st = WAITING_FOR_APPROVAL"
    and "pending_action st = Some p" and "approval_of w t (action_id p) = Some ''PENDING''"
    and "valid_approval_request request"
  shows "\<exists>st' w'. reject (sqlite_store pf now) t request w = (Inr st', w') \<and> checkpoint w' t = Some st' \<and>
      status st' = HUMAN_REJECTED \<and> terminal st' \<and> pending_action st' = None \<and> version st' = version st + 1 \<and>
      last_error st' = Some (rejection_text (ap_reason request)) \<and>
      approval_of w' t (action_id p) = Some ''REJECTED'' \<and> queue w' = queue w \<and> invocations w' = invocations w \<and>
      (\<exists>e. events w' = events w @ [e] \<and> ev_task_id e = t \<and> ev_type e = ''APPROVAL_REJECTED'' \<and>
        ev_payload e = actor_payload request)"
proof -
  let ?w1 = "resolved_world now t (action_id p) False request w"
  let ?base = "st\<lparr>status := HUMAN_REJECTED, last_error := Some (rejection_text (ap_reason request)), pending_action := None\<rparr>"
  let ?st = "?base\<lparr>version := version st + 1, updated_at := now\<rparr>"
  let ?w2 = "put_workflow now ?st ?w1"
  let ?w3 = "record_event_row now t ''APPROVAL_REJECTED'' (actor_payload request) ?w2"
  note res = resolved_world [OF assms(1,5), of now False request]
  have id: "task_id st = t" using assms(1,2) by (auto simp: checkpoint_def dest: world_ok_row)
  have cp: "checkpoint ?w1 t = Some st" using view_cong(1) [OF res(4)] assms(2) by simp
  have save: "save_workflow now ?base (version st) ?w1 = (Inr ?st, ?w2)"
    using cp id by (simp add: save_workflow_eq [OF res(2)])
  have cp2: "checkpoint ?w2 t = Some ?st" using cp id by (simp add: checkpoint_put)
  have cp3: "checkpoint ?w3 = checkpoint ?w2" and ap3: "approval_of ?w3 = approval_of ?w1"
    by (rule view_cong, simp add: record_event_row_def)+
  have "reject (sqlite_store pf now) t request w = (Inr ?st, ?w3)"
    using assms(2-4,6)
    by (simp add: reject_def bindE_def required_eq res(1) save record_event_def ret_def)
  moreover have "checkpoint ?w3 t = Some ?st" unfolding cp3 by (rule cp2)
  moreover have "approval_of ?w3 t (action_id p) = Some ''REJECTED''" unfolding ap3 using res(3) by simp
  moreover have "queue ?w3 = queue w" "invocations ?w3 = invocations w" using res by (simp_all add: record_event_row_def)
  moreover have "\<exists>e. events ?w3 = events w @ [e] \<and> ev_task_id e = t \<and> ev_type e = ''APPROVAL_REJECTED'' \<and>
      ev_payload e = actor_payload request"
    using res by (simp add: record_event_row_def)
  ultimately show ?thesis
    by (intro exI [of _ ?st] exI [of _ ?w3] conjI) (assumption | simp add: terminal_def)+
qed

theorem reject_effect_witness:
  "\<exists>st w'. reject (sqlite_store sample_platform 7) ''t'' \<lparr>ap_actor = ''ann'', ap_reason = Some ''too risky''\<rparr>
       waiting_sample = (Inr st, w') \<and> status st = HUMAN_REJECTED \<and> approval_of w' ''t'' ''a'' = Some ''REJECTED''"
proof -
  have "approval_of waiting_sample ''t'' (action_id \<lparr>action_id = ''a'', pa_tool = RESTART_SERVICE, pa_arguments = [],
      pa_risk = HIGH, pa_rationale = ''restart'', pa_created_at = 0\<rparr>) = Some ''PENDING''"
    "valid_approval_request \<lparr>ap_actor = ''ann'', ap_reason = Some ''too risky''\<rparr>"
    using waiting_sample(3) by (simp_all add: valid_approval_request_def length_between_def)
  from reject_effect [OF waiting_sample(1,2) waiting_state_simps this, of sample_platform 7]
  show ?thesis by auto
qed

text \<open>
  Approval and rejection refuse with status 409, and change nothing, unless the workflow waits and
  names its pending action; for an unknown workflow the answer is 404.
\<close>

theorem decision_conflict:
  assumes "valid_approval_request request"
    and "\<forall>st. checkpoint w t = Some st \<longrightarrow> status st \<noteq> WAITING_FOR_APPROVAL \<or> pending_action st = None"
  shows "let e = (if checkpoint w t = None then HTTPException 404 ''workflow not found''
           else HTTPException 409 ''workflow is not waiting for approval'')
    in approve (sqlite_store pf now) c t request w = (Inl e, w) \<and> reject (sqlite_store pf now) t request w = (Inl e, w)"
proof (cases "checkpoint w t")
  case None
  with assms(1) show ?thesis by (simp add: approve_def reject_def bindE_def required_eq)
next
  case (Some st)
  with assms show ?thesis
    by (auto simp: approve_def reject_def bindE_def required_eq raise_def Let_def split: option.split bool.split)
qed

theorem decision_conflict_witness:
  "approve (sqlite_store sample_platform 0) default_settings ''nobody'' \<lparr>ap_actor = ''ann'', ap_reason = None\<rparr> empty_world =
     (Inl (HTTPException 404 ''workflow not found''), empty_world)"
proof -
  have "checkpoint empty_world ''nobody'' = None" by (simp add: checkpoint_def find_workflow_def empty_world_def)
  then show ?thesis
    using decision_conflict [of "\<lparr>ap_actor = ''ann'', ap_reason = None\<rparr>" empty_world "''nobody''" sample_platform 0 default_settings]
    by (simp add: valid_approval_request_def length_between_def Let_def)
qed

text \<open>
  C33: A valid request creates an incident: a QUEUED workflow of version zero with the requested goal under
  a new identifier, exactly one pending delivery for it, and its creation event; a request outside the
  limits is refused without effect.
\<close>

theorem create_incident_effect:
  assumes "world_ok w" and "find_workflow (''incident-'' @ suffix) w = None"
  shows "let t = ''incident-'' @ suffix; st = new_workflow t (ci_goal request) (ci_scenario_id request) now
    in create_incident (sqlite_store pf now) c now suffix request w =
      (if valid_create_incident request
       then (Inr st, snd (create_workflow now st (max_queue_attempts c) w))
       else (Inl (HTTPException 422 ''request validation''), w)) \<and>
      checkpoint (snd (create_workflow now st (max_queue_attempts c) w)) = (checkpoint w)(t \<mapsto> st) \<and>
      filter (active_row t) (queue (snd (create_workflow now st (max_queue_attempts c) w))) =
        [new_queue_row now (next_queue_id w) t (max_queue_attempts c) []]"
proof -
  define t where "t = ''incident-'' @ suffix"
  define st where "st = new_workflow t (ci_goal request) (ci_scenario_id request) now"
  have id: "task_id st = t" by (simp add: st_def new_workflow_def)
  have none: "find_workflow (task_id st) w = None" using assms(2) id by (simp add: t_def)
  obtain w' where w': "create_workflow now st (max_queue_attempts c) w = (Inr st, w')"
    "queue w' = queue w @ [new_queue_row now (next_queue_id w) t (max_queue_attempts c) []]"
    using none id by (simp add: create_workflow_def Let_def record_event_row_def insert_queue_row_def)
  have "\<forall>r \<in> set (queue w). \<not> active_row t r"
    using assms by (auto simp: world_ok_def active_row_def t_def)
  then have "filter (active_row t) (queue w) = []" by (simp add: filter_empty_conv)
  then have "filter (active_row t) (queue w') = [new_queue_row now (next_queue_id w) t (max_queue_attempts c) []]"
    by (simp add: w'(2) new_queue_row_def active_row_def active_status_def)
  then show ?thesis
    using checkpoint_create [OF none, of now "max_queue_attempts c"] w'(1) id
    unfolding t_def [symmetric] Let_def st_def [symmetric]
    by (simp add: create_incident_def Let_def t_def [symmetric] st_def [symmetric] bindE_def ret_def raise_def
        del: append_Cons append_Nil)
qed

theorem create_incident_effect_witness:
  "\<exists>st. fst (create_incident (sqlite_store sample_platform 0) default_settings 0 ''1''
       \<lparr>ci_goal = ''restore checkout'', ci_scenario_id = ''s''\<rparr> empty_world) = Inr st \<and> status st = QUEUED"
proof -
  have "find_workflow (''incident-'' @ ''1'') empty_world = None" by (simp add: find_workflow_def empty_world_def)
  from create_incident_effect [OF world_ok_empty this, of "\<lparr>ci_goal = ''restore checkout'', ci_scenario_id = ''s''\<rparr>" 0
      sample_platform default_settings]
  show ?thesis
    by (simp add: Let_def valid_create_incident_def length_between_def slug_def name_char_def new_workflow_def)
qed

text \<open>
  C32: Replaying a dead letter needs both the delivery and the workflow it belongs to: it then puts the
  workflow back in state QUEUED with the next version and no error, makes the delivery claimable with no
  attempts used and logs who did it; in every other case the answer is 404 and nothing changes.
\<close>

theorem replay_effect:
  assumes "world_ok w" and "valid_replay_request request"
  shows "let t = rp_task_id request; dead = find (dead_row pf (rp_delivery_id request) t) (queue w)
    in case (dead, checkpoint w t) of
        (Some row, Some st) \<Rightarrow>
          (\<exists>w'. Api.replay (sqlite_store pf now) c request w = (Inr (replayed_state now st), w') \<and>
             checkpoint w' t = Some (replayed_state now st) \<and>
             (\<exists>r \<in> set (queue w'). q_id r = q_id row \<and> q_task_id r = t \<and> q_attempts r = 0 \<and>
                q_max_attempts r = max_queue_attempts c \<and> claimable now r) \<and>
             (\<exists>e. events w' = events w @ [e] \<and> ev_type e = ''DLQ_REPLAYED'' \<and>
                map_of (ev_payload e) ''actor'' = Some (JStr (rp_actor request))))
      | _ \<Rightarrow> Api.replay (sqlite_store pf now) c request w = (Inl (HTTPException 404 ''dead-letter delivery not found''), w)"
proof (cases "(find (dead_row pf (rp_delivery_id request) (rp_task_id request)) (queue w), checkpoint w (rp_task_id request))")
  case (Pair dead found)
  define t where "t = rp_task_id request"
  note eq = replay_eq [OF assms(1), of pf now "rp_delivery_id request" t "max_queue_attempts c" "rp_actor request" "rp_reason request"]
  show ?thesis
  proof (cases "dead = None \<or> found = None")
    case True
    with Pair assms(2) eq show ?thesis
      by (auto simp: replay_def bindE_def raise_def t_def Let_def split: option.split)
  next
    case False
    then obtain row st where rs: "dead = Some row" "found = Some st" by auto
    let ?w1 = "put_workflow now (replayed_state now st) w"
    let ?w' = "record_event_row now t ''DLQ_REPLAYED''
        [(''delivery_id'', json_of_id (rp_delivery_id request)), (''actor'', JStr (rp_actor request)),
         (''reason'', JStr (rp_reason request))]
        (?w1\<lparr>queue := update_where (\<lambda>r. id_matches pf (rp_delivery_id request) (q_id r) \<and> q_status r = Q_DEAD)
            (replayed_row now (max_queue_attempts c)) (queue ?w1)\<rparr>)"
    have run: "Api.replay (sqlite_store pf now) c request w = (Inr (replayed_state now st), ?w')"
      using Pair rs assms(2) eq by (simp add: replay_def bindE_def ret_def t_def Let_def)
    have "task_id st = t" using Pair rs assms(1) by (auto simp: checkpoint_def t_def dest: world_ok_row)
    then have "checkpoint ?w1 t = Some (replayed_state now st)"
      using Pair rs by (simp add: checkpoint_put replayed_state_def t_def)
    moreover have "checkpoint ?w' = checkpoint ?w1" by (rule view_cong) (simp add: record_event_row_def)
    ultimately have cp: "checkpoint ?w' t = Some (replayed_state now st)" by simp
    have row: "row \<in> set (queue w)" "dead_row pf (rp_delivery_id request) t row"
      using find_SomeD [of "dead_row pf (rp_delivery_id request) t" "queue w" row] Pair rs by (simp_all add: t_def)
    then have "replayed_row now (max_queue_attempts c) row \<in> set (queue ?w')"
      by (auto simp: record_event_row_def set_update_where dead_row_def intro!: bexI [of _ row])
    then have q: "\<exists>r \<in> set (queue ?w'). q_id r = q_id row \<and> q_task_id r = t \<and> q_attempts r = 0 \<and>
        q_max_attempts r = max_queue_attempts c \<and> claimable now r"
      using row(2) by (intro bexI [of _ "replayed_row now (max_queue_attempts c) row"])
        (simp_all add: replayed_row_def dead_row_def claimable_def)
    have e: "\<exists>e. events ?w' = events w @ [e] \<and> ev_type e = ''DLQ_REPLAYED'' \<and>
        map_of (ev_payload e) ''actor'' = Some (JStr (rp_actor request))"
      by (simp add: record_event_row_def)
    show ?thesis unfolding Let_def t_def [symmetric] using Pair rs run cp q e
      unfolding t_def [symmetric] by (simp only: option.case prod.case) blast
  qed
qed

theorem replay_effect_witness:
  "fst (Api.replay (sqlite_store sample_platform 0) default_settings
     \<lparr>rp_delivery_id = IdInt 1, rp_task_id = ''t'', rp_actor = ''ann'', rp_reason = ''fixed''\<rparr> sample_world) =
     Inl (HTTPException 404 ''dead-letter delivery not found'')"
proof -
  have v: "valid_replay_request \<lparr>rp_delivery_id = IdInt 1, rp_task_id = ''t'', rp_actor = ''ann'', rp_reason = ''fixed''\<rparr>"
    by (simp add: valid_replay_request_def length_between_def slug_def name_char_def)
  have "find (dead_row sample_platform (IdInt 1) ''t'') (queue sample_world) = None"
    by (simp add: sample_queue new_queue_row_def dead_row_def)
  with replay_effect [OF sample_world_ok v, of sample_platform 0 default_settings] show ?thesis
    by (simp add: Let_def)
qed

section \<open>Start-up\<close>

text \<open>
  Start-up fails closed: an application that comes up on the AWS backend has both bearer tokens, one
  that comes up with the live engine has an API key, and the selected parts are those the settings name.
\<close>

theorem app_fails_closed:
  assumes "create_app c = Inr (s, e, b)"
  shows "(s = Aws_Store \<longleftrightarrow> runtime_backend c = ''aws'') \<and>
    (s = Aws_Store \<longrightarrow> truthy_text (admin_api_token c) \<and> truthy_text (viewer_api_token c)) \<and>
    e = (if agent_mode c = ''deterministic'' then Deterministic_Engine else Openai_Engine (orchestrator c)) \<and>
    (agent_mode c \<noteq> ''deterministic'' \<longrightarrow> truthy_text (openai_api_key c)) \<and>
    (b = Aws_Tools \<longleftrightarrow> tool_backend c = ''aws'')"
  using assms
  by (auto simp: create_app_def build_store_def build_decision_engine_def open_openai_engine_def build_tool_backend_def
      split: if_splits)

theorem app_fails_closed_witness:
  "\<exists>s e b. create_app (default_settings\<lparr>openai_api_key := Some ''k''\<rparr>) = Inr (s, e, b) \<and> s \<noteq> Aws_Store \<and>
     e \<noteq> Deterministic_Engine"
proof -
  let ?c = "default_settings\<lparr>openai_api_key := Some ''k''\<rparr>"
  have "create_app ?c = Inr (Sqlite_Store, Openai_Engine (orchestrator ?c), Scenario_Tools)"
    by (simp add: create_app_def build_store_def build_decision_engine_def open_openai_engine_def build_tool_backend_def
        default_settings_def truthy_text_def)
  from app_fails_closed [OF this] this show ?thesis by blast
qed

section \<open>Dashboard\<close>

text \<open>
  The 95th percentile of the dashboard is always read inside the list: it is one of the latencies, and
  at least the fraction floor(0.95 n) of them, and at least one, do not exceed it.
\<close>

theorem p95_of_latencies:
  assumes "sorted ls" and "ls \<noteq> []"
  shows "p95_index (length ls) < int (length ls) \<and> p95 ls \<in> set ls \<and>
    max 1 \<lfloor>of_nat (length ls) * (95 / 100 :: rat)\<rfloor> \<le> int (length (filter (\<lambda>x. x \<le> p95 ls) ls))"
proof -
  define n where "n = length ls"
  define i where "i = nat (p95_index n)"
  have n: "0 < n" using assms(2) by (simp add: n_def)
  have "of_nat n * (95 / 100 :: rat) \<le> of_nat n" by simp
  then have "\<lfloor>of_nat n * (95 / 100 :: rat)\<rfloor> \<le> int n" by (metis floor_mono floor_of_nat)
  then have i: "p95_index n = int i" "i < n" "max 1 \<lfloor>of_nat n * (95 / 100 :: rat)\<rfloor> = int i + 1"
    using n by (auto simp: i_def p95_index_def max_def)
  have p: "p95 ls = ls ! i" using assms(2) by (simp add: p95_def i_def n_def)
  have "\<forall>x \<in> set (take (i + 1) ls). x \<le> ls ! i"
    using assms(1) i(2) by (auto simp: in_set_conv_nth n_def sorted_nth_mono)
  then have "length (filter (\<lambda>x. x \<le> ls ! i) (take (i + 1) ls)) = i + 1"
    using i(2) by (simp add: n_def)
  moreover have "length (filter (\<lambda>x. x \<le> ls ! i) ls) =
      length (filter (\<lambda>x. x \<le> ls ! i) (take (i + 1) ls)) + length (filter (\<lambda>x. x \<le> ls ! i) (drop (i + 1) ls))"
    by (metis append_take_drop_id filter_append length_append)
  ultimately have "i + 1 \<le> length (filter (\<lambda>x. x \<le> ls ! i) ls)" by linarith
  then show ?thesis using i p by (simp add: n_def [symmetric])
qed

theorem p95_of_latencies_witness: "p95 [1, 2, 3] \<in> set [1, 2, 3 :: rat]"
  using p95_of_latencies [of "[1, 2, 3]"] by simp

text \<open>
  C34: The event stream ends with the workflow: at the first poll that reads a terminal state it has sent
  a snapshot of that version and event count, and stops; before that it sends one keep-alive for every poll.
\<close>

theorem stream_ends_with_workflow:
  assumes "\<forall>p \<in> set polls. \<not> terminal (fst p)" and "terminal st"
  shows "snapshots previous (polls @ (st, evs) # rest) = snapshots previous (polls @ [(st, evs)]) \<and>
    length (filter (\<lambda>f. f = Keep_Alive) (snapshots previous (polls @ (st, evs) # rest))) = length polls \<and>
    (previous = Some (version st, int (length evs)) \<or>
     (\<exists>st' evs'. Snapshot st' evs' \<in> set (snapshots previous (polls @ (st, evs) # rest)) \<and>
        version st' = version st \<and> length evs' = length evs))"
  using assms(1)
proof (induction polls arbitrary: previous)
  case Nil
  with assms(2) show ?case
    by (cases "previous = Some (version st, int (length evs))") (auto simp: Let_def)
next
  case (Cons p polls)
  obtain s es where p: "p = (s, es)" by (cases p)
  from Cons.prems p have s: "\<not> terminal s" and rest: "\<forall>p \<in> set polls. \<not> terminal (fst p)" by simp_all
  note IH = Cons.IH [OF rest, of "Some (version s, int (length es))"]
  have step: "snapshots previous ((s, es) # qs) =
    (if Some (version s, int (length es)) \<noteq> previous then [Snapshot s es] else []) @
    Keep_Alive # snapshots (Some (version s, int (length es))) qs" for qs
    using s by (auto simp: Let_def)
  show ?case
  proof (cases "version s = version st \<and> length es = length evs")
    case True
    then have "previous = Some (version st, int (length evs)) \<or>
      Snapshot s es \<in> set (snapshots previous ((s, es) # polls @ (st, evs) # rest))"
      by (simp add: step del: snapshots.simps)
    then show ?thesis using IH True by (auto simp: p step simp del: snapshots.simps)
  next
    case False
    then have "Some (version s, int (length es)) \<noteq> Some (version st, int (length evs))" by auto
    with IH obtain st' evs' where shown: "Snapshot st' evs' \<in>
        set (snapshots (Some (version s, int (length es))) (polls @ (st, evs) # rest))"
        "version st' = version st" "length evs' = length evs" by blast
    then have "Snapshot st' evs' \<in> set (snapshots previous ((s, es) # polls @ (st, evs) # rest))"
      by (simp add: step del: snapshots.simps)
    with shown(2,3) have last: "\<exists>st' evs'. Snapshot st' evs' \<in> set (snapshots previous ((s, es) # polls @ (st, evs) # rest)) \<and>
        version st' = version st \<and> length evs' = length evs" by blast
    have "snapshots previous ((s, es) # polls @ (st, evs) # rest) = snapshots previous ((s, es) # polls @ [(st, evs)])"
      using IH by (simp add: step del: snapshots.simps)
    moreover have "length (filter (\<lambda>f. f = Keep_Alive) (snapshots previous ((s, es) # polls @ (st, evs) # rest))) =
        Suc (length polls)"
      using IH by (elim conjE) (simp add: step del: snapshots.simps)
    ultimately show ?thesis using last by (simp add: p del: snapshots.simps)
  qed
qed

theorem stream_ends_with_workflow_witness:
  "snapshots None [((new_workflow ''t'' ''g'' ''s'' 0)\<lparr>status := COMPLETED\<rparr>, []), (new_workflow ''t'' ''g'' ''s'' 0, [])] =
   snapshots None [((new_workflow ''t'' ''g'' ''s'' 0)\<lparr>status := COMPLETED\<rparr>, [])]"
  using stream_ends_with_workflow [of "[]" "(new_workflow ''t'' ''g'' ''s'' 0)\<lparr>status := COMPLETED\<rparr>" None "[]"
      "[(new_workflow ''t'' ''g'' ''s'' 0, [])]"]
  by (simp add: terminal_def)

text \<open>
  Listing by status, with at most five hundred workflows in the table, misses none: it returns stored
  checkpoints of the wanted status only, as many as there are up to the limit.
\<close>

theorem listing_by_status:
  assumes "world_ok w" and "length (workflows w) \<le> 500"
  shows "\<exists>sts. list_workflows limit (Some s) w = (Inr sts, w) \<and>
    length sts = min (nat (max 1 (min limit 500))) (row_count (\<lambda>r. status (wr_state r) = s) (workflows w)) \<and>
    (\<forall>st \<in> set sts. status st = s \<and> checkpoint w (task_id st) = Some st)"
proof -
  let ?rows = "sort_key (\<lambda>r. - wr_updated_at r) (workflows w)"
  let ?all = "filter (\<lambda>st. status st = s) (map wr_state ?rows)"
  have m: "mset (filter (\<lambda>r. status (wr_state r) = s) ?rows) = mset (filter (\<lambda>r. status (wr_state r) = s) (workflows w))"
    by (simp add: mset_filter)
  have len: "length ?all = row_count (\<lambda>r. status (wr_state r) = s) (workflows w)"
    using mset_eq_length [OF m] by (simp add: filter_map comp_def row_count_def)
  have slice: "slice_to (max 1 (min limit 500)) xs = take (nat (max 1 (min limit 500))) xs" for xs :: "workflow_state list"
    by (simp add: slice_to_def)
  have eq: "list_workflows limit (Some s) w = (Inr (take (nat (max 1 (min limit 500))) ?all), w)"
    using assms(2) by (simp add: list_workflows_def Let_def slice eq_commute [of s])
  have "status st = s \<and> checkpoint w (task_id st) = Some st" if st: "st \<in> set (take (nat (max 1 (min limit 500))) ?all)" for st
  proof -
    from st have "st \<in> set ?all" by (rule in_set_takeD)
    then obtain r where r: "r \<in> set (workflows w)" "st = wr_state r" "status st = s" by auto
    have "task_id st = wr_task_id r" using r assms(1) by (auto simp: world_ok_def workflows_ok_def)
    then have "find_workflow (task_id st) w = Some r" using r(1) find_workflow_iff [OF assms(1)] by simp
    with r show ?thesis by (simp add: checkpoint_def)
  qed
  moreover have "length (take (nat (max 1 (min limit 500))) ?all) =
      min (nat (max 1 (min limit 500))) (row_count (\<lambda>r. status (wr_state r) = s) (workflows w))"
    by (simp only: length_take len min.commute)
  ultimately show ?thesis using eq by blast
qed

theorem listing_by_status_witness:
  "\<exists>sts. list_workflows 100 (Some WAITING_FOR_APPROVAL) waiting_sample = (Inr sts, waiting_sample) \<and> length sts = 1"
proof -
  have rows: "workflows waiting_sample = [\<lparr>wr_task_id = ''t'', wr_state = waiting_state, wr_version = 0, wr_updated_at = 0\<rparr>]"
    by (simp add: waiting_sample_def create_approval_def create_workflow_def Let_def empty_world_def find_workflow_def
        record_event_row_def insert_queue_row_def waiting_state_def new_workflow_def)
  then have "length (workflows waiting_sample) \<le> 500" by simp
  then obtain sts where run: "list_workflows 100 (Some WAITING_FOR_APPROVAL) waiting_sample = (Inr sts, waiting_sample)"
    and size: "length sts = min (nat (max 1 (min 100 500)))
      (row_count (\<lambda>r. status (wr_state r) = WAITING_FOR_APPROVAL) (workflows waiting_sample))"
    using listing_by_status [OF waiting_sample(1), of 100 WAITING_FOR_APPROVAL] by blast
  have "length sts = 1" using size by (simp add: rows row_count_def waiting_state_simps)
  with run show ?thesis by blast
qed

end
