(* ===== verification/Resolution.thy ===== *)
theory Resolution
  imports Liveness Api_Laws
begin

text \<open>
  An incident from beginning to end, with the deterministic engine: four pieces of evidence, the request
  for a restart, the human's approval, the restart, the verification, the end. Each tool is called once,
  in this order, and the answer of the verification alone decides between COMPLETED and FAILED.
\<close>

section \<open>The route and its stages\<close>

definition route :: "tool_name list" where
  "route = [READ_ALERT, INSPECT_METRICS, QUERY_LOGS, DEPENDENCY_HEALTH, RESTART_SERVICE, VERIFY_RECOVERY]"

definition route_arguments :: "tool_name \<Rightarrow> dict" where
  \<comment> \<open>the engine's arguments after validation\<close>
  "route_arguments tool =
     [(''service'', JStr ''checkout-service''), (''environment'', JStr ''production'')] @
     (if tool = DEPENDENCY_HEALTH then [(''dependency'', JNull)] else [])"

definition collected :: "(tool_name \<Rightarrow> dict) \<Rightarrow> nat \<Rightarrow> dict" where
  "collected res i = map (\<lambda>tool. (tool_value tool, JObj (res tool))) (take i route)"

definition fingerprint_of :: "platform \<Rightarrow> dict \<Rightarrow> string" where
  "fingerprint_of pf e = slice_to 16 (sha256_hex pf (sorted_dumps pf e))"

definition prints :: "platform \<Rightarrow> (tool_name \<Rightarrow> dict) \<Rightarrow> nat \<Rightarrow> string list" where
  "prints pf res i = concat (map (\<lambda>j. [fingerprint_of pf (collected res j), fingerprint_of pf (collected res (Suc j))]) [0..<i])"

definition stage :: "platform \<Rightarrow> (tool_name \<Rightarrow> dict) \<Rightarrow> nat \<Rightarrow> workflow_state \<Rightarrow> bool" where
  "stage pf res i st \<longleftrightarrow>
     evidence st = collected res i \<and> tool_history st = map tool_value (take i route) \<and>
     progress_history st = prints pf res i \<and> set (completed_steps st) = tool_value ` set (take i route)"

lemma route_list [simp]: "length route = 6" "distinct route"
  by (simp_all add: route_def)

lemma up_to_six:
  assumes "(i :: nat) < 6"
  obtains "i = 0" | "i = 1" | "i = 2" | "i = 3" | "i = 4" | "i = 5"
  using assms by linarith

lemma stage_next_tool:
  assumes "stage pf res i st" and "i < 6"
  shows "next_tool st = Some (route ! i)"
  using assms(2)
  by (cases rule: up_to_six)
     (use assms(1) in \<open>auto simp: stage_def next_tool_def evidence_sequence_def collected_def route_def\<close>)

lemma stage_decides:
  assumes "stage pf res i st" and "i < 6"
  shows "\<exists>why diag. deterministic_decide pf' st = Inr (use_tool (route ! i) why diag)"
  by (rule deterministic_next_tool [OF stage_next_tool [OF assms]])

lemma route_arguments_valid:
  "validate_arguments (argument_model_of READ_ALERT) (dump_arguments default_arguments) = Some (route_arguments READ_ALERT)"
  "validate_arguments (argument_model_of INSPECT_METRICS) (dump_arguments default_arguments) = Some (route_arguments INSPECT_METRICS)"
  "validate_arguments (argument_model_of QUERY_LOGS) (dump_arguments default_arguments) = Some (route_arguments QUERY_LOGS)"
  "validate_arguments (argument_model_of DEPENDENCY_HEALTH) (dump_arguments default_arguments) = Some (route_arguments DEPENDENCY_HEALTH)"
  "validate_arguments (argument_model_of RESTART_SERVICE) (dump_arguments default_arguments) = Some (route_arguments RESTART_SERVICE)"
  "validate_arguments (argument_model_of DELETE_DATABASE) (dump_arguments default_arguments) = Some (route_arguments DELETE_DATABASE)"
  "validate_arguments (argument_model_of VERIFY_RECOVERY) (dump_arguments default_arguments) = Some (route_arguments VERIFY_RECOVERY)"
  by code_simp+

lemma route_evaluated:
  "pd_allowed (evaluate READ_ALERT (route_arguments READ_ALERT))"
  "pd_allowed (evaluate INSPECT_METRICS (route_arguments INSPECT_METRICS))"
  "pd_allowed (evaluate QUERY_LOGS (route_arguments QUERY_LOGS))"
  "pd_allowed (evaluate DEPENDENCY_HEALTH (route_arguments DEPENDENCY_HEALTH))"
  "pd_allowed (evaluate RESTART_SERVICE (route_arguments RESTART_SERVICE))"
  "pd_allowed (evaluate VERIFY_RECOVERY (route_arguments VERIFY_RECOVERY))"
  "\<not> pd_approval_required (evaluate READ_ALERT (route_arguments READ_ALERT))"
  "\<not> pd_approval_required (evaluate INSPECT_METRICS (route_arguments INSPECT_METRICS))"
  "\<not> pd_approval_required (evaluate QUERY_LOGS (route_arguments QUERY_LOGS))"
  "\<not> pd_approval_required (evaluate DEPENDENCY_HEALTH (route_arguments DEPENDENCY_HEALTH))"
  "pd_approval_required (evaluate RESTART_SERVICE (route_arguments RESTART_SERVICE))"
  "\<not> pd_approval_required (evaluate VERIFY_RECOVERY (route_arguments VERIFY_RECOVERY))"
  by code_simp+

lemma route_valid:
  assumes "i < 6"
  shows "validate_and_decide pf (route ! i) (dump_arguments (d_arguments (use_tool (route ! i) why diag))) =
    Inr (route_arguments (route ! i), evaluate (route ! i) (route_arguments (route ! i)))"
proof -
  have "validate_arguments (argument_model_of tool) (dump_arguments default_arguments) = Some (route_arguments tool)" for tool
    using route_arguments_valid by (cases tool) simp_all
  then show ?thesis by (simp add: validate_and_decide_def use_tool_def)
qed

lemma route_policy:
  assumes "i < 6"
  shows "pd_allowed (evaluate (route ! i) (route_arguments (route ! i)))"
    and "pd_approval_required (evaluate (route ! i) (route_arguments (route ! i))) \<longleftrightarrow> i = 4"
proof -
  have "pd_allowed (evaluate tool (route_arguments tool)) \<and>
      (pd_approval_required (evaluate tool (route_arguments tool)) \<longleftrightarrow> tool = RESTART_SERVICE)"
    if "tool \<noteq> DELETE_DATABASE" for tool
    using that route_evaluated by (cases tool) simp_all
  then show "pd_allowed (evaluate (route ! i) (route_arguments (route ! i)))"
    and "pd_approval_required (evaluate (route ! i) (route_arguments (route ! i))) \<longleftrightarrow> i = 4"
    using assms by (auto elim!: up_to_six simp: route_def)
qed

lemma distinct_not_repeated:
  assumes "2 \<le> repeat_threshold ld" and "distinct xs"
  shows "\<not> repeated_suffix ld xs"
proof
  assume "repeated_suffix ld xs"
  then obtain pre p where p: "p \<noteq> []" "xs = pre @ concat (replicate (nat (repeat_threshold ld)) p)"
    by (auto simp: repeated_suffix_iff [OF assms(1)])
  have "nat (repeat_threshold ld) = Suc (Suc (nat (repeat_threshold ld - 2)))" using assms(1) by linarith
  then have "xs = pre @ p @ p @ concat (replicate (nat (repeat_threshold ld - 2)) p)" using p(2) by simp
  with p(1) assms(2) show False by (cases p) auto
qed

lemma stage_fine:
  assumes "stage pf res i st" and "i < 6"
    and "\<And>j. j < 6 \<Longrightarrow> fingerprint_of pf (collected res j) \<noteq> fingerprint_of pf (collected res (Suc j))"
    and "tool_history st' = map tool_value (take (Suc i) route)"
    and "progress_history st' = prints pf res i @ [fingerprint_of pf (collected res i)]"
  shows "reason default_loop_detector (tool_history st') (progress_history st') = None"
proof -
  have "distinct (tool_history st')"
    unfolding assms(4) distinct_map by (simp add: inj_on_def)
  then have "\<not> repeated_suffix default_loop_detector (tool_history st')"
    by (rule distinct_not_repeated [rotated]) (simp add: default_loop_detector_def)
  moreover have "length (tool_history st') \<le> 6" by (simp add: assms(4))
  moreover have "\<not> no_progress default_loop_detector (progress_history st')"
    unfolding assms(5)
    using assms(2) assms(3) [of 0] assms(3) [of 1] assms(3) [of 2] assms(3) [of 3] assms(3) [of 4] assms(3) [of 5]
    by (elim up_to_six)
       (simp_all add: no_progress_def default_loop_detector_def prints_def slice_from_def upt_rec eval_nat_numeral)
  ultimately show ?thesis by (simp add: reason_None default_loop_detector_def)
qed

section \<open>The world along the route\<close>

definition clear_run ::
  "world workflow_runtime \<Rightarrow> (workflow_state \<Rightarrow> tool_name \<Rightarrow> dict \<Rightarrow> int \<Rightarrow> world \<Rightarrow> error + json) \<Rightarrow>
    (tool_name \<Rightarrow> dict) \<Rightarrow> bool" where
  \<comment> \<open>the deterministic engine over tools that answer with \<open>res\<close>, each result changing the fingerprint\<close>
  "clear_run R answer res \<longleftrightarrow>
     local_runtime R (deterministic_decide (wf_platform R)) (0, 0) answer \<and>
     wf_loop_detector R = default_loop_detector \<and> wf_chaos_pause_seconds R = 0 \<and>
     (\<forall>st tool n w. answer st tool (route_arguments tool) n w = Inr (JObj (res tool))) \<and> (\<forall>tool. res tool \<noteq> []) \<and>
     (\<forall>j < 6. fingerprint_of (wf_platform R) (collected res j) \<noteq> fingerprint_of (wf_platform R) (collected res (Suc j)))"

definition route_key :: "platform \<Rightarrow> string \<Rightarrow> tool_name \<Rightarrow> string" where
  "route_key pf t tool = action_key pf t tool (route_arguments tool)"

definition route_calls :: "string \<Rightarrow> nat \<Rightarrow> invocation list" where
  "route_calls t i = map (\<lambda>tool. call_of t tool (route_arguments tool)) (take i route)"

definition on_route ::
  "platform \<Rightarrow> (tool_name \<Rightarrow> dict) \<Rightarrow> string \<Rightarrow> world \<Rightarrow> nat \<Rightarrow> workflow_state \<Rightarrow> world \<Rightarrow> bool" where
  "on_route pf res t w0 i st w \<longleftrightarrow>
     world_ok w \<and> checkpoint w t = Some st \<and> \<not> terminal st \<and> stage pf res i st \<and>
     (\<forall>j < 6. i \<le> j \<longrightarrow> ledger w (route_key pf t (route ! j)) = None) \<and>
     (i \<le> 4 \<longrightarrow> approval_of w t (route_key pf t RESTART_SERVICE) = None) \<and>
     invocations w = invocations w0 @ route_calls t i"

lemma route_key_inject: "route_key pf t tool = route_key pf t tool' \<longleftrightarrow> tool = tool'"
proof
  assume "route_key pf t tool = route_key pf t tool'"
  then have "tool_value tool @ CHR '':'' # slice_to 16 (arguments_hash pf (route_arguments tool)) =
      tool_value tool' @ CHR '':'' # slice_to 16 (arguments_hash pf (route_arguments tool'))"
    by (simp add: route_key_def action_key_def)
  from split_at_first [OF tool_value_no_colon tool_value_no_colon this] show "tool = tool'" by simp
qed simp

lemma route_nth_inject: "i < 6 \<Longrightarrow> j < 6 \<Longrightarrow> route ! i = route ! j \<longleftrightarrow> i = j"
  using nth_eq_iff_index_eq [of route i j] by (simp add: route_def)

lemma route_step:
  "i < 6 \<Longrightarrow> take (Suc i) route = take i route @ [route ! i]"
  "i < 6 \<Longrightarrow> route_calls t (Suc i) = route_calls t i @ [call_of t (route ! i) (route_arguments (route ! i))]"
  "i < 6 \<Longrightarrow> collected res (Suc i) = collected res i @ [(tool_value (route ! i), JObj (res (route ! i)))]"
  "prints pf res (Suc i) = prints pf res i @
    [fingerprint_of pf (collected res i), fingerprint_of pf (collected res (Suc i))]"
  by (simp_all add: take_Suc_conv_app_nth route_calls_def collected_def prints_def)

lemma update_collected:
  assumes "i < 6"
  shows "AList.update (tool_value (route ! i)) (JObj (res (route ! i))) (collected res i) = collected res (Suc i)"
  using assms by (elim up_to_six) (simp_all add: collected_def route_def eval_nat_numeral)

text \<open>A request at stage \<open>i\<close>, and the completion of its tool.\<close>

lemma stage_completed:
  assumes "stage pf res i st0" and "i < 6" and "evidence st = evidence st0"
    and "tool_history st = map tool_value (take (Suc i) route)"
    and "progress_history st = prints pf res i @ [fingerprint_of pf (collected res i)]"
    and "set (completed_steps st) = set (completed_steps st0)"
  shows "stage pf res (Suc i) (stamped R (tool_completed pf st (route ! i) (res (route ! i))))"
proof -
  have e: "evidence (tool_completed pf st (route ! i) (res (route ! i))) = collected res (Suc i)"
    using assms(1,3) update_collected [OF assms(2)] by (simp add: stage_def)
  have "progress_history (tool_completed pf st (route ! i) (res (route ! i))) = progress_history st @
      [fingerprint_of pf (evidence (tool_completed pf st (route ! i) (res (route ! i))))]"
    by (simp add: tool_completed_def Let_def progress_fingerprint_def fingerprint_of_def)
  with e assms show ?thesis
    by (auto simp: stage_def route_step(1,4))
qed

section \<open>The deliveries\<close>

lemma clear_runD:
  assumes "clear_run R answer res"
  shows "local_runtime R (deterministic_decide (wf_platform R)) (0, 0) answer"
    and "wf_loop_detector R = default_loop_detector" and "wf_chaos_pause_seconds R = 0"
    and "answer st tool (route_arguments tool) n w = Inr (JObj (res tool))" and "res tool \<noteq> []"
    and "j < 6 \<Longrightarrow> fingerprint_of (wf_platform R) (collected res j) \<noteq> fingerprint_of (wf_platform R) (collected res (Suc j))"
  using assms by (simp_all add: clear_run_def)

lemma on_routeD:
  assumes "on_route pf res t w0 i st w"
  shows "world_ok w" and "checkpoint w t = Some st" and "\<not> terminal st" and "stage pf res i st"
    and "j < 6 \<Longrightarrow> i \<le> j \<Longrightarrow> ledger w (route_key pf t (route ! j)) = None"
    and "i \<le> 4 \<Longrightarrow> approval_of w t (route_key pf t RESTART_SERVICE) = None"
    and "invocations w = invocations w0 @ route_calls t i"
  using assms by (simp_all add: on_route_def)

text \<open>Up to the policy: the engine asks for the next tool of the route, and the loop detector does not object.\<close>

lemma route_request:
  assumes C: "clear_run R answer res" and o: "on_route (wf_platform R) res t w0 i st w" and i: "i < 6"
    and ready: "ready_state st"
  obtains d st1 w1 where
    "process R t w = follow_policy R st1 d (route ! i) (route_arguments (route ! i))
       (evaluate (route ! i) (route_arguments (route ! i))) w1"
    "checkpoint w1 t = Some st1" "world_ok w1" "invocations w1 = invocations w" "approvals w1 = approvals w"
    "tool_results w1 = tool_results w" "evidence st1 = evidence st" "pending_action st1 = None"
    "tool_history st1 = map tool_value (take (Suc i) route)"
    "progress_history st1 = prints (wf_platform R) res i @ [fingerprint_of (wf_platform R) (collected res i)]"
    "completed_steps st1 = completed_steps st"
proof -
  note C = clear_runD [OF C] and o = on_routeD [OF o]
  have "stage (wf_platform R) res i (started R st)" using o(4) by (simp add: stage_def started_def)
  then obtain why diag where d: "deterministic_decide (wf_platform R) (started R st) = Inr (use_tool (route ! i) why diag)"
    using stage_decides [OF _ i] by blast
  let ?d = "use_tool (route ! i) why diag"
  let ?st = "requested R (0, 0) st ?d (route ! i)"
  have h: "tool_history ?st = map tool_value (take (Suc i) route)"
    using o(4) by (simp add: stage_def route_step(1) [OF i])
  have p: "progress_history ?st = prints (wf_platform R) res i @ [fingerprint_of (wf_platform R) (collected res i)]"
    using o(4) by (simp add: stage_def requested_def tool_requested_def progress_fingerprint_def fingerprint_of_def
        considered_def note_findings_def model_called_def started_def)
  have fine: "reason (wf_loop_detector R) (tool_history ?st) (progress_history ?st) = None"
    unfolding C(2) by (rule stage_fine [OF o(4) i C(6) h p])
  obtain w1 where "process R t w = follow_policy R (stamped R ?st) ?d (route ! i) (route_arguments (route ! i))
       (evaluate (route ! i) (route_arguments (route ! i))) w1"
    "tracks t w (stamped R ?st) (decision_events st ?d) [] w1" "approvals w1 = approvals w" "tool_results w1 = tool_results w"
    by (rule policy_run [OF C(1) o(1,2) ready d use_tool_simps route_valid [OF i] fine])
  with that [of "stamped R ?st" ?d w1] h p ready show thesis
    by (simp add: tracks_def ready_state_def)
qed

lemma route_tool:
  assumes C: "clear_run R answer res" and o: "on_route (wf_platform R) res t w0 i st w" and i: "i < 6" "i \<noteq> 4"
    and ready: "ready_state st"
  obtains st' w' where "process R t w = (Inr st', w')" "on_route (wf_platform R) res t w0 (Suc i) st' w'"
    "ready_state st'" "status st' = QUEUED"
proof -
  let ?tool = "route ! i" and ?v = "route_arguments (route ! i)" and ?pf = "wf_platform R"
  obtain d st1 w1 where 1: "process R t w = follow_policy R st1 d ?tool ?v (evaluate ?tool ?v) w1"
    "checkpoint w1 t = Some st1" "world_ok w1" "invocations w1 = invocations w" "approvals w1 = approvals w"
    "tool_results w1 = tool_results w" "evidence st1 = evidence st" "pending_action st1 = None"
    "tool_history st1 = map tool_value (take (Suc i) route)"
    "progress_history st1 = prints ?pf res i @ [fingerprint_of ?pf (collected res i)]"
    "completed_steps st1 = completed_steps st"
    by (rule route_request [OF C o i(1) ready])
  note C' = clear_runD [OF C] and o' = on_routeD [OF o]
  have led: "ledger w1 = ledger w" by (rule view_cong(3) [OF 1(6)])
  have none: "ledger w1 (action_key ?pf t ?tool ?v) = None"
    using o'(5) [OF i(1) order_refl] by (simp add: led route_key_def)
  have valid: "validate_and_decide ?pf ?tool ?v = Inr (?v, evaluate ?tool ?v)"
    by (rule validate_and_decide_idem [OF route_valid [OF i(1)]])
  let ?st = "stamped R (tool_completed ?pf st1 ?tool (res ?tool))"
  obtain w2 where 2: "execute_tool R st1 ?tool ?v w1 = (Inr ?st, w2)"
    "tracks t w1 ?st ([] @ [completed_event ?tool (ledger w1 (action_key ?pf t ?tool ?v) \<noteq> None) (res ?tool)])
      ([] @ (if ledger w1 (action_key ?pf t ?tool ?v) = None then [call_of t ?tool ?v] else [])) w2"
    "approvals w2 = approvals w1"
    "ledger w2 = (ledger w1)(action_key ?pf t ?tool ?v \<mapsto> (arguments_hash ?pf ?v, res ?tool))"
    by (rule execute_run [where r = "res ?tool", OF C'(1) tracks_start [OF 1(3,2)] valid route_policy(1) [OF i(1)]
          disjI1 [OF none] _ C'(5)]) (use C'(4) in blast)
  have "process R t w = (Inr ?st, w2)"
    using 1(1) 2(1) route_policy [OF i(1)] i(2) C'(3) by (simp add: follow_policy_def chaos_pause_def)
  moreover have "on_route ?pf res t w0 (Suc i) ?st w2"
    unfolding on_route_def
  proof (intro conjI allI impI)
    show "stage ?pf res (Suc i) ?st"
      by (rule stage_completed [OF o'(4) i(1) 1(7,9,10)]) (simp add: 1(11))
    show "ledger w2 (route_key ?pf t (route ! j)) = None" if "j < 6" "Suc i \<le> j" for j
      using that o'(5) [of j] i route_key_inject [of ?pf t "route ! j" ?tool] route_nth_inject [of j i]
      by (simp add: 2(4) led route_key_def)
    show "approval_of w2 t (route_key ?pf t RESTART_SERVICE) = None" if "Suc i \<le> 4"
      using that o'(6) view_cong(2) [of w2 w] 2(3) 1(5) by simp
    show "invocations w2 = invocations w0 @ route_calls t (Suc i)"
      using 2(2) o'(7) 1(4) none by (simp add: tracks_def route_step(2) [OF i(1)])
  qed (use 2(2) in \<open>auto simp: tracks_def terminal_def\<close>)
  ultimately show thesis
    by (rule that) (simp_all add: ready_state_def terminal_def)
qed

text \<open>At stage four the engine asks for the restart, and the workflow waits with everything in place for it.\<close>

definition asked :: "platform \<Rightarrow> (tool_name \<Rightarrow> dict) \<Rightarrow> string \<Rightarrow> world \<Rightarrow> string \<Rightarrow> workflow_state \<Rightarrow> world \<Rightarrow> bool" where
  "asked pf res t w0 x st w \<longleftrightarrow>
     world_ok w \<and> checkpoint w t = Some st \<and> evidence st = collected res 4 \<and>
     tool_history st = map tool_value (take 5 route) \<and>
     progress_history st = prints pf res 4 @ [fingerprint_of pf (collected res 4)] \<and>
     set (completed_steps st) = tool_value ` set (take 4 route) \<and>
     (\<exists>p. pending_action st = Some p \<and> pa_tool p = RESTART_SERVICE \<and>
        pa_arguments p = route_arguments RESTART_SERVICE \<and> action_id p = route_key pf t RESTART_SERVICE) \<and>
     (\<forall>j < 6. 4 \<le> j \<longrightarrow> ledger w (route_key pf t (route ! j)) = None) \<and>
     approval_of w t (route_key pf t RESTART_SERVICE) = Some x \<and> invocations w = invocations w0 @ route_calls t 4"

lemma route_nth [simp]: "route ! 4 = RESTART_SERVICE"
  by (simp add: route_def)

lemma route_ask:
  assumes C: "clear_run R answer res" and o: "on_route (wf_platform R) res t w0 4 st w" and ready: "ready_state st"
  obtains st' w' where "process R t w = (Inr st', w')" "asked (wf_platform R) res t w0 ''PENDING'' st' w'"
    "status st' = WAITING_FOR_APPROVAL"
proof -
  let ?pf = "wf_platform R" and ?v = "route_arguments RESTART_SERVICE"
  obtain d st1 w1 where 1: "process R t w = follow_policy R st1 d RESTART_SERVICE ?v (evaluate RESTART_SERVICE ?v) w1"
    "checkpoint w1 t = Some st1" "world_ok w1" "invocations w1 = invocations w" "approvals w1 = approvals w"
    "tool_results w1 = tool_results w" "evidence st1 = evidence st" "pending_action st1 = None"
    "tool_history st1 = map tool_value (take (Suc 4) route)"
    "progress_history st1 = prints ?pf res 4 @ [fingerprint_of ?pf (collected res 4)]"
    "completed_steps st1 = completed_steps st"
    by (rule route_request [OF C o _ ready]) simp_all
  note C' = clear_runD [OF C] and o' = on_routeD [OF o]
  define p where "p = \<lparr>action_id = route_key ?pf t RESTART_SERVICE, pa_tool = RESTART_SERVICE, pa_arguments = ?v,
    pa_risk = pd_risk (evaluate RESTART_SERVICE ?v), pa_rationale = d_rationale d, pa_created_at = wf_now R\<rparr>"
  obtain w2 where 2: "request_approval R st1 d RESTART_SERVICE ?v (evaluate RESTART_SERVICE ?v) w1 =
      (Inr (stamped R (st1\<lparr>pending_action := Some p, status := WAITING_FOR_APPROVAL\<rparr>)), w2)"
    "tracks t w1 (stamped R (st1\<lparr>pending_action := Some p, status := WAITING_FOR_APPROVAL\<rparr>))
      ([] @ [(''APPROVAL_REQUIRED'', dump_pending ?pf p)]) [] w2"
    "approval_of w2 t (route_key ?pf t RESTART_SERVICE) =
      (if approval_of w1 t (route_key ?pf t RESTART_SERVICE) = None then Some ''PENDING''
       else approval_of w1 t (route_key ?pf t RESTART_SERVICE))"
    "tool_results w2 = tool_results w1"
    by (rule ask_run [OF C'(1) tracks_start [OF 1(3,2)] route_key_def p_def refl])
  have p: "pa_tool p = RESTART_SERVICE" "pa_arguments p = ?v" "action_id p = route_key ?pf t RESTART_SERVICE"
    by (simp_all add: p_def)
  have "process R t w = (Inr (stamped R (st1\<lparr>pending_action := Some p, status := WAITING_FOR_APPROVAL\<rparr>)), w2)"
    using 1(1) 2(1) route_policy [of 4] by (simp add: follow_policy_def)
  moreover have "approval_of w1 = approval_of w" by (rule view_cong(2) [OF 1(5)])
  moreover have "ledger w2 = ledger w" by (rule view_cong(3)) (simp add: 2(4) 1(6))
  ultimately show thesis
    using that 1(4,9,10,11) 1(7) 2(2,3) p o'(4,5,6,7)
    by (simp add: asked_def tracks_def stage_def)
qed

lemma route_resume:
  assumes C: "clear_run R answer res" and a: "asked (wf_platform R) res t w0 ''APPROVED'' st w"
    and st: "\<not> terminal st" "status st \<noteq> WAITING_FOR_APPROVAL"
  obtains st' w' where "process R t w = (Inr st', w')" "on_route (wf_platform R) res t w0 5 st' w'"
    "ready_state st'" "status st' = QUEUED"
proof -
  let ?pf = "wf_platform R" and ?v = "route_arguments RESTART_SERVICE" and ?k = "route_key (wf_platform R) t RESTART_SERVICE"
  note C' = clear_runD [OF C]
  from a obtain p where a': "world_ok w" "checkpoint w t = Some st" "evidence st = collected res 4"
    "tool_history st = map tool_value (take (Suc 4) route)"
    "progress_history st = prints ?pf res 4 @ [fingerprint_of ?pf (collected res 4)]"
    "set (completed_steps st) = tool_value ` set (take 4 route)"
    "pending_action st = Some p" "pa_tool p = RESTART_SERVICE" "pa_arguments p = ?v" "action_id p = ?k"
    "\<forall>j < 6. 4 \<le> j \<longrightarrow> ledger w (route_key ?pf t (route ! j)) = None"
    "approval_of w t ?k = Some ''APPROVED''" "invocations w = invocations w0 @ route_calls t 4"
    by (auto simp: asked_def)
  have valid: "validate_and_decide ?pf (pa_tool p) (pa_arguments p) = Inr (?v, evaluate RESTART_SERVICE ?v)"
    using validate_and_decide_idem [OF route_valid [of 4 ?pf]] by (simp add: a'(8,9))
  have none: "ledger w ?k = None" using a'(11) [rule_format, of 4] by simp
  let ?st = "stamped R (tool_completed ?pf st RESTART_SERVICE (res RESTART_SERVICE))"
  have yes: "approval_of w t (action_id p) = Some ''APPROVED''" by (simp add: a'(10,12))
  have ans: "answer s (pa_tool p) ?v n w' = Inr (JObj (res RESTART_SERVICE))" for s n w' by (simp add: a'(8) C'(4))
  have k: "?k = action_key ?pf t (pa_tool p) ?v" by (simp add: route_key_def a'(8))
  have st': "?st = stamped R (tool_completed ?pf st (pa_tool p) (res RESTART_SERVICE))" by (simp add: a'(8))
  obtain w2 where 2: "process R t w = (Inr ?st, w2)"
    "tracks t w ?st [(''APPROVED_ACTION_RESUMED'', [(''action_id'', JStr (action_id p))]),
      completed_event (pa_tool p) (ledger w ?k \<noteq> None) (res RESTART_SERVICE)]
      (if ledger w ?k = None then [call_of t (pa_tool p) ?v] else []) w2"
    "ledger w2 = (ledger w)(?k \<mapsto> (arguments_hash ?pf ?v, res RESTART_SERVICE))" "approvals w2 = approvals w"
    by (rule resume_run [OF C'(1) a'(1,2) st a'(7) yes valid _ k disjI1 [OF none] ans C'(5) st'])
       (use route_policy(1) [of 4] in simp)
  have "stage ?pf res (Suc 4) (stamped R (tool_completed ?pf st (route ! 4) (res (route ! 4))))"
    using a'(3-6) by (intro stage_completed [of ?pf res 4 "st\<lparr>tool_history := map tool_value (take 4 route),
        progress_history := prints ?pf res 4\<rparr>"]) (simp_all add: stage_def)
  moreover have "Suc 4 = 5" by simp
  ultimately have stage: "stage ?pf res 5 ?st" by (simp only: route_nth)
  have "on_route ?pf res t w0 5 ?st w2"
    unfolding on_route_def
  proof (intro conjI allI impI)
    show "ledger w2 (route_key ?pf t (route ! j)) = None" if "j < 6" "5 \<le> j" for j
      using that a'(11) [rule_format, of j] route_key_inject [of ?pf t "route ! j" "route ! 4"] route_nth_inject [of j 4]
      by (simp add: 2(3))
    show "invocations w2 = invocations w0 @ route_calls t 5"
      using 2(2) a'(8,13) none route_step(2) [of 4 t] by (simp add: tracks_def)
  qed (use 2(2) stage in \<open>auto simp: tracks_def terminal_def\<close>)
  with 2(1) that show thesis by (simp add: ready_state_def terminal_def)
qed

text \<open>At the end of the route the verification decides.\<close>

lemma stage_end:
  assumes "stage pf res 6 st" and "recovered pf' (JObj (res VERIFY_RECOVERY)) = Inr ok"
  shows "deterministic_decide pf' st = Inr (if ok then recovered_decision else not_recovered_decision)"
  using assms
  by (auto simp: stage_def deterministic_decide_def evidence_sequence_def collected_def route_def split: bool.split)

lemma complete_run:
  assumes run: "local_runtime R f u answer" and tr: "tracks t w0 old es cs w" and st: "task_id st = t" "version st = version old"
  obtains w' where "complete_workflow R st d w =
      (Inr (stamped R (st\<lparr>status := COMPLETED, final_answer := d_final_answer d, current_step := None\<rparr>)), w')"
    "tracks t w0 (stamped R (st\<lparr>status := COMPLETED, final_answer := d_final_answer d, current_step := None\<rparr>))
      (es @ [(''WORKFLOW_COMPLETED'', [(''answer'', json_of_option (d_final_answer d))])]) cs w'"
proof -
  let ?st = "st\<lparr>status := COMPLETED, final_answer := d_final_answer d, current_step := None\<rparr>"
  obtain w1 where 1: "Runtime.save R ?st w = (Inr (stamped R ?st), w1)" "tracks t w0 (stamped R ?st) es cs w1"
    by (rule tracks_save [OF run tr, of ?st]) (use st in auto)
  obtain w2 where 2: "event R t ''WORKFLOW_COMPLETED'' [(''answer'', json_of_option (d_final_answer d))] w1 = (Inr (), w2)"
    "tracks t w0 (stamped R ?st) (es @ [(''WORKFLOW_COMPLETED'', [(''answer'', json_of_option (d_final_answer d))])]) cs w2"
    by (rule tracks_event [OF run 1(2)])
  with that 1(1) st show thesis by (simp add: complete_workflow_def bindE_def ret_def)
qed

lemma fail_run_from:
  assumes run: "local_runtime R f u answer" and tr: "tracks t w0 old es cs w" and st: "task_id st = t" "version st = version old"
  obtains w' where "fail_workflow R st why category w =
      (Inr (stamped R (st\<lparr>status := FAILED, last_error := Some why, current_step := None\<rparr>)), w')"
    "tracks t w0 (stamped R (st\<lparr>status := FAILED, last_error := Some why, current_step := None\<rparr>))
      (es @ [(''WORKFLOW_FAILED'', [(''category'', JStr category), (''reason'', JStr why)])]) cs w'"
proof -
  let ?st = "st\<lparr>status := FAILED, last_error := Some why, current_step := None\<rparr>"
  obtain w1 where 1: "Runtime.save R ?st w = (Inr (stamped R ?st), w1)" "tracks t w0 (stamped R ?st) es cs w1"
    by (rule tracks_save [OF run tr, of ?st]) (use st in auto)
  obtain w2 where 2: "event R t ''WORKFLOW_FAILED'' [(''category'', JStr category), (''reason'', JStr why)] w1 = (Inr (), w2)"
    "tracks t w0 (stamped R ?st) (es @ [(''WORKFLOW_FAILED'', [(''category'', JStr category), (''reason'', JStr why)])]) cs w2"
    by (rule tracks_event [OF run 1(2)])
  with that 1(1) st show thesis by (simp add: fail_workflow_def bindE_def ret_def)
qed

lemma route_end:
  assumes C: "clear_run R answer res" and o: "on_route (wf_platform R) res t w0 6 st w" and ready: "ready_state st"
    and ok: "recovered (wf_platform R) (JObj (res VERIFY_RECOVERY)) = Inr ok"
  obtains st' w' where "process R t w = (Inr st', w')" "status st' = (if ok then COMPLETED else FAILED)"
    "checkpoint w' t = Some st'" "invocations w' = invocations w0 @ route_calls t 6"
proof -
  let ?d = "if ok then recovered_decision else not_recovered_decision"
  note C' = clear_runD [OF C] and o' = on_routeD [OF o]
  have "stage (wf_platform R) res 6 (started R st)" using o'(4) by (simp add: stage_def started_def)
  then have d: "deterministic_decide (wf_platform R) (started R st) = Inr ?d"
    using stage_end [where res = res and ok = ok and pf' = "wf_platform R"] ok by blast
  obtain w1 where 1: "process R t w = act_on_decision R (considered R (0, 0) st ?d) ?d w1"
    "tracks t w (started R st) (decision_events st ?d) [] w1"
    by (rule decision_run [OF C'(1) o'(1,2) ready d])
  have id: "task_id (considered R (0, 0) st ?d) = t" "version (considered R (0, 0) st ?d) = version (started R st)"
    using tracks_task [OF 1(2)] by simp_all
  show thesis
  proof (cases ok)
    case True
    obtain w2 where "complete_workflow R (considered R (0, 0) st ?d) ?d w1 = (Inr (stamped R ((considered R (0, 0) st ?d)
        \<lparr>status := COMPLETED, final_answer := d_final_answer ?d, current_step := None\<rparr>)), w2)"
      "tracks t w (stamped R ((considered R (0, 0) st ?d)
        \<lparr>status := COMPLETED, final_answer := d_final_answer ?d, current_step := None\<rparr>))
        (decision_events st ?d @ [(''WORKFLOW_COMPLETED'', [(''answer'', json_of_option (d_final_answer ?d))])]) [] w2"
      by (rule complete_run [OF C'(1) 1(2) id])
    with that 1(1) o'(7) True show thesis
      by (simp add: act_on_decision_def recovered_decision_def tracks_def)
  next
    case False
    obtain w2 where "fail_workflow R (considered R (0, 0) st ?d) (d_rationale ?d) ''agent_decision'' w1 =
        (Inr (stamped R ((considered R (0, 0) st ?d)
          \<lparr>status := FAILED, last_error := Some (d_rationale ?d), current_step := None\<rparr>)), w2)"
      "tracks t w (stamped R ((considered R (0, 0) st ?d)
        \<lparr>status := FAILED, last_error := Some (d_rationale ?d), current_step := None\<rparr>))
        (decision_events st ?d @ [(''WORKFLOW_FAILED'', [(''category'', JStr ''agent_decision''), (''reason'', JStr (d_rationale ?d))])]) [] w2"
      by (rule fail_run_from [OF C'(1) 1(2) id])
    with that 1(1) o'(7) False show thesis
      by (simp add: act_on_decision_def not_recovered_decision_def tracks_def)
  qed
qed

section \<open>From the incident to its end\<close>

lemma deliveries_Suc:
  "process (R (Suc n)) t w = (Inr st, w') \<Longrightarrow> status st = QUEUED \<Longrightarrow> deliveries R t (Suc n) w = deliveries R t n w'"
  by (simp add: bindE_def)

lemma route_to_approval:
  assumes C: "clear_run R answer res" and o: "on_route (wf_platform R) res t w0 0 st w" and ready: "ready_state st"
  obtains st' w' where "deliveries (\<lambda>_. R) t 4 w = (Inr st', w')" "asked (wf_platform R) res t w0 ''PENDING'' st' w'"
    "status st' = WAITING_FOR_APPROVAL"
proof -
  have "\<exists>st' w'. deliveries (\<lambda>_. R) t 4 w = deliveries (\<lambda>_. R) t (4 - i) w' \<and>
      on_route (wf_platform R) res t w0 i st' w' \<and> ready_state st'" if "i \<le> 4" for i
    using that
  proof (induction i)
    case 0
    with o ready show ?case by auto
  next
    case (Suc i)
    then obtain st1 w1 where 1: "deliveries (\<lambda>_. R) t 4 w = deliveries (\<lambda>_. R) t (4 - i) w1"
      "on_route (wf_platform R) res t w0 i st1 w1" "ready_state st1" by auto
    obtain st2 w2 where 2: "process R t w1 = (Inr st2, w2)" "on_route (wf_platform R) res t w0 (Suc i) st2 w2"
      "ready_state st2" "status st2 = QUEUED"
      by (rule route_tool [OF C 1(2) _ _ 1(3)]) (use Suc.prems in auto)
    have "4 - i = Suc (4 - Suc i)" using Suc.prems by simp
    with 1(1) deliveries_Suc [of "\<lambda>_. R" "4 - Suc i" t w1 st2 w2] 2 show ?case by metis
  qed
  from this [of 4] obtain st1 w1 where 1: "deliveries (\<lambda>_. R) t 4 w = process R t w1"
    "on_route (wf_platform R) res t w0 4 st1 w1" "ready_state st1" by auto
  show thesis by (rule route_ask [OF C 1(2,3)]) (use that 1(1) in simp)
qed

lemma route_from_approval:
  assumes C: "clear_run R answer res" and a: "asked (wf_platform R) res t w0 ''APPROVED'' st w"
    and st: "\<not> terminal st" "status st \<noteq> WAITING_FOR_APPROVAL"
    and ok: "recovered (wf_platform R) (JObj (res VERIFY_RECOVERY)) = Inr ok"
  obtains st' w' where "deliveries (\<lambda>_. R) t 2 w = (Inr st', w')" "status st' = (if ok then COMPLETED else FAILED)"
    "checkpoint w' t = Some st'" "invocations w' = invocations w0 @ route_calls t 6"
proof -
  obtain st1 w1 where 1: "process R t w = (Inr st1, w1)" "on_route (wf_platform R) res t w0 5 st1 w1"
    "ready_state st1" "status st1 = QUEUED" by (rule route_resume [OF C a st])
  obtain st2 w2 where 2: "process R t w1 = (Inr st2, w2)" "on_route (wf_platform R) res t w0 (Suc 5) st2 w2"
    "ready_state st2" "status st2 = QUEUED" by (rule route_tool [OF C 1(2) _ _ 1(3)]) simp_all
  have six: "on_route (wf_platform R) res t w0 6 st2 w2" using 2(2) by simp
  obtain st3 w3 where 3: "process R t w2 = (Inr st3, w3)" "status st3 = (if ok then COMPLETED else FAILED)"
    "checkpoint w3 t = Some st3" "invocations w3 = invocations w0 @ route_calls t 6"
    by (rule route_end [OF C six 2(3) ok])
  have "deliveries (\<lambda>_. R) t 2 w = (Inr st3, w3)"
    using 1(1,4) 2(1,4) 3(1) by (simp add: numeral_2_eq_2 bindE_def)
  with that 3 show thesis by blast
qed

text \<open>
  C10: An incident is resolved: a new workflow, run by the deterministic engine over tools that answer, has
  after five deliveries read its four pieces of evidence and waits for approval; the approval accepted,
  three more deliveries restart the service, verify and end it, COMPLETED exactly if the verification
  reports an error rate below one percent. Nothing is called twice, and nothing but the route.
\<close>

theorem incident_resolved:
  assumes "clear_run R answer res" and "world_ok w" and "checkpoint w t = Some (new_workflow t g scenario n)"
    and "\<And>tool. ledger w (route_key (wf_platform R) t tool) = None"
    and "approval_of w t (route_key (wf_platform R) t RESTART_SERVICE) = None"
    and "recovered (wf_platform R) (JObj (res VERIFY_RECOVERY)) = Inr ok" and "valid_approval_request request"
  shows "\<exists>st1 w1 st2 w2 st3 w3.
    deliveries (\<lambda>_. R) t 4 w = (Inr st1, w1) \<and> status st1 = WAITING_FOR_APPROVAL \<and>
    invocations w1 = invocations w @ route_calls t 4 \<and>
    approve (sqlite_store (wf_platform R) now) c t request w1 = (Inr st2, w2) \<and>
    deliveries (\<lambda>_. R) t 2 w2 = (Inr st3, w3) \<and> status st3 = (if ok then COMPLETED else FAILED) \<and>
    checkpoint w3 t = Some st3 \<and> invocations w3 = invocations w @ route_calls t 6"
proof -
  let ?pf = "wf_platform R"
  let ?st = "new_workflow t g scenario n"
  have "on_route ?pf res t w 0 ?st w"
    using assms(2-5) by (simp add: on_route_def stage_def new_workflow_def collected_def prints_def route_calls_def terminal_def)
  moreover have "ready_state ?st" by (simp add: ready_state_def new_workflow_def terminal_def)
  ultimately obtain st1 w1 where 1: "deliveries (\<lambda>_. R) t 4 w = (Inr st1, w1)" "asked ?pf res t w ''PENDING'' st1 w1"
    "status st1 = WAITING_FOR_APPROVAL" by (rule route_to_approval [OF assms(1)])
  obtain p where p: "pending_action st1 = Some p" "action_id p = route_key ?pf t RESTART_SERVICE"
    and a: "world_ok w1" "checkpoint w1 t = Some st1" "approval_of w1 t (action_id p) = Some ''PENDING''"
    using 1(2) by (auto simp: asked_def)
  let ?st2 = "st1\<lparr>status := QUEUED, version := version st1 + 1, updated_at := now\<rparr>"
  obtain w2 where 2: "approve (sqlite_store ?pf now) c t request w1 = (Inr ?st2, w2)" "world_ok w2"
    "checkpoint w2 t = Some ?st2" "approval_of w2 t (action_id p) = Some ''APPROVED''"
    "invocations w2 = invocations w1" "tool_results w2 = tool_results w1"
    by (rule approve_run [OF a(1,2) 1(3) p(1) a(3) assms(7) refl, of ?pf now c])
  have "ledger w2 = ledger w1" by (rule view_cong(3) [OF 2(6)])
  then have asked: "asked ?pf res t w ''APPROVED'' ?st2 w2" using 1(2) 2 p by (simp add: asked_def)
  obtain st3 w3 where 3: "deliveries (\<lambda>_. R) t 2 w2 = (Inr st3, w3)" "status st3 = (if ok then COMPLETED else FAILED)"
    "checkpoint w3 t = Some st3" "invocations w3 = invocations w @ route_calls t 6"
    by (rule route_from_approval [OF assms(1) asked _ _ assms(6)]) (simp_all add: terminal_def)
  have "invocations w1 = invocations w @ route_calls t 4" using 1(2) by (simp add: asked_def)
  with 1(1,3) 2(1) 3 show ?thesis by blast
qed


section \<open>An incident that recovers\<close>

definition counting_platform :: platform where
  \<comment> \<open>with the length of a text for its digest\<close>
  "counting_platform = sample_platform\<lparr>sha256_hex := (\<lambda>s. str_int (int (length s)))\<rparr>"

definition healthy_results :: "tool_name \<Rightarrow> dict" where
  "healthy_results tool = (if tool = VERIFY_RECOVERY then [(''error_rate_percent'', JInt 0)] else [(''ok'', JBool True)])"

definition healthy_answer :: "workflow_state \<Rightarrow> tool_name \<Rightarrow> dict \<Rightarrow> int \<Rightarrow> world \<Rightarrow> error + json" where
  "healthy_answer st tool v n w = Inr (JObj (healthy_results tool))"

definition healthy_runtime :: "world workflow_runtime" where
  "healthy_runtime = make_runtime counting_platform default_settings (sqlite_store counting_platform 0)
     (deterministic_engine counting_platform) (observed healthy_answer) (\<lambda>_. ret ()) 0"

lemma healthy_prints:
  "j < 6 \<Longrightarrow> fingerprint_of counting_platform (collected healthy_results j) \<noteq>
    fingerprint_of counting_platform (collected healthy_results (Suc j))"
proof -
  have "\<forall>j \<in> set [0..<6]. fingerprint_of counting_platform (collected healthy_results j) \<noteq>
      fingerprint_of counting_platform (collected healthy_results (Suc j))" by code_simp
  then show "j < 6 \<Longrightarrow> ?thesis" by simp
qed

lemma healthy_run: "clear_run healthy_runtime healthy_answer healthy_results"
proof -
  have "local_runtime healthy_runtime (deterministic_decide counting_platform) (0, 0) healthy_answer"
    by (simp add: healthy_runtime_def local_runtime_def deterministic_engine_def)
  moreover have "wf_chaos_pause_seconds healthy_runtime = 0" by code_simp
  moreover have "wf_platform healthy_runtime = counting_platform" "wf_loop_detector healthy_runtime = default_loop_detector"
    by (simp_all add: healthy_runtime_def)
  ultimately show ?thesis
    using healthy_prints by (simp add: clear_run_def healthy_answer_def healthy_results_def)
qed

theorem incident_resolved_witness:
  "\<exists>st1 w1 st2 w2 st3 w3.
    deliveries (\<lambda>_. healthy_runtime) ''t'' 4 sample_world = (Inr st1, w1) \<and> status st1 = WAITING_FOR_APPROVAL \<and>
    approve (sqlite_store counting_platform 1) default_settings ''t'' \<lparr>ap_actor = ''ann'', ap_reason = None\<rparr> w1 = (Inr st2, w2) \<and>
    deliveries (\<lambda>_. healthy_runtime) ''t'' 2 w2 = (Inr st3, w3) \<and> status st3 = COMPLETED \<and>
    checkpoint w3 ''t'' = Some st3 \<and> map iv_tool (invocations w3) = route"
proof -
  have pf: "wf_platform healthy_runtime = counting_platform" by (simp add: healthy_runtime_def)
  have c: "checkpoint sample_world ''t'' = Some (new_workflow ''t'' ''restore checkout'' ''s'' 0)"
    using sample_checkpoint by (simp add: sample_state_def)
  have a: "approval_of sample_world ''t'' k = None" for k
    by (simp add: approval_of_def find_approval_def sample_world_def create_workflow_frame empty_world_def)
  have ok: "recovered (wf_platform healthy_runtime) (JObj (healthy_results VERIFY_RECOVERY)) = Inr True"
    unfolding pf by code_simp
  have r: "valid_approval_request \<lparr>ap_actor = ''ann'', ap_reason = None\<rparr>"
    by (simp add: valid_approval_request_def length_between_def)
  have i: "invocations sample_world = []" by (simp add: sample_world_def create_workflow_frame empty_world_def)
  have calls: "map iv_tool (route_calls ''t'' 6) = route" by code_simp
  show ?thesis
    using incident_resolved [OF healthy_run sample_world_ok c sample_ledger a ok r, of 1 default_settings] calls
    unfolding pf i by (elim exE) (metis append_Nil)
qed

end
