(* ===== verification/Complete_Delivery.thy ===== *)
theory Complete_Delivery
  imports Delivery
begin

text \<open>
  Without crashes and without overlapping deliveries no work is lost: every workflow that has neither
  ended nor waits for a human has a delivery that is pending or leased, so that some later claim finds it.
  The invariant \<open>work_kept\<close> says why: dead letters belong to ended workflows, an action that is pending
  outside the wait is approved, and no workflow has two deliveries that are active or dead letters. Here: \<open>process\<close>; \<open>Settled_Delivery\<close> and \<open>No_Lost_Work\<close> go on to
  every complete delivery and request. \<open>Crash_Points\<close> and \<open>Races\<close> show that both restrictions are needed.
\<close>

section \<open>What a delivery leaves alone\<close>

definition tickets :: "world \<Rightarrow> (int \<times> string \<times> bool \<times> bool) list" where
  \<comment> \<open>the deliveries: whether each is active, whether it is a dead letter\<close>
  "tickets w = map (\<lambda>r. (q_id r, q_task_id r, active_status (q_status r), q_status r = Q_DEAD)) (queue w)"

definition rows_ok :: "world \<Rightarrow> bool" where
  "rows_ok w \<longleftrightarrow> world_ok w \<and> (\<forall>r \<in> set (queue w). q_status r = Q_PROCESSING \<longrightarrow> q_lease_until r \<noteq> None)"

definition calm :: "world \<Rightarrow> world \<Rightarrow> bool" where
  \<comment> \<open>checkpoints, approvals and the states of the deliveries are as they were\<close>
  "calm w w' \<longleftrightarrow> (rows_ok w \<longrightarrow> rows_ok w') \<and> checkpoint w' = checkpoint w \<and> approval_of w' = approval_of w \<and>
     tickets w' = tickets w"

interpretation calmly: guarantee calm
  by unfold_locales (auto simp: calm_def)

lemma calm_tables:
  "workflows w' = workflows w \<Longrightarrow> approvals w' = approvals w \<Longrightarrow> queue w' = queue w \<Longrightarrow>
    (world_ok w \<longrightarrow> world_ok w') \<Longrightarrow> calm w w'"
  using view_cong [of w' w] by (simp add: calm_def rows_ok_def tickets_def)

lemma calm_event: "relates calm (record_event now t ty p)"
  by (rule relatesI, rule calm_tables) (simp_all add: record_event_def record_event_row_def world_ok_event [unfolded record_event_row_def])

lemma calm_result: "relates calm (save_tool_result pf now k t n a r)"
  by (rule relatesI, rule calm_tables)
     (simp_all add: save_tool_result_def relatesD [OF keeps_ok_save_result, unfolded save_tool_result_def, simplified])

lemma calm_reader: "(\<And>w. snd (m w) = w) \<Longrightarrow> relates calm m"
  by (simp add: relates_def calmly.R_refl)

lemma calm_get: "relates calm (get_tool_result pf k a)"
  by (rule calm_reader) (simp add: get_tool_result_def split: option.split)

lemma calm_observed: "relates calm (observed answer st tool args n)"
  by (rule relatesI, rule calm_tables) (simp_all add: observed_def world_ok_invocations)

lemma calm_extend: "relates calm (extend_lease pf now d ls)"
proof (rule relatesI)
  fix w
  let ?w = "snd (extend_lease pf now d ls w)"
  have "checkpoint ?w = checkpoint w" "approval_of ?w = approval_of w"
    by (rule view_cong, simp add: extend_lease_def)+
  moreover have "tickets ?w = tickets w"
    by (simp add: tickets_def extend_lease_def map_update_where)
  moreover have "rows_ok w \<longrightarrow> rows_ok ?w"
    using relatesD [OF keeps_ok_extend, of w pf now d ls]
    by (auto simp: rows_ok_def) (auto simp: extend_lease_def set_update_where)
  ultimately show "calm w ?w" by (simp add: calm_def)
qed

section \<open>The invariant\<close>

definition waits_for :: "world \<Rightarrow> string \<Rightarrow> bool" where
  "waits_for w t \<longleftrightarrow> (\<exists>i. (i, t, True, False) \<in> set (tickets w))"

definition no_dead :: "world \<Rightarrow> string \<Rightarrow> bool" where
  "no_dead w t \<longleftrightarrow> (\<forall>i a. (i, t, a, True) \<notin> set (tickets w))"

definition resumable :: "string \<Rightarrow> workflow_state \<Rightarrow> world \<Rightarrow> bool" where
  "resumable t st w \<longleftrightarrow> (\<forall>p. pending_action st = Some p \<longrightarrow> status st \<noteq> WAITING_FOR_APPROVAL \<longrightarrow>
     approval_of w t (action_id p) = Some ''APPROVED'')"

definition provided :: "string \<Rightarrow> workflow_state \<Rightarrow> world \<Rightarrow> bool" where
  \<comment> \<open>the queue has what this checkpoint needs, and no leftovers\<close>
  "provided t st w \<longleftrightarrow> terminal st \<or> no_dead w t \<and> (status st = WAITING_FOR_APPROVAL \<or> waits_for w t)"

definition live :: "world \<Rightarrow> string \<Rightarrow> int \<Rightarrow> bool" where
  \<comment> \<open>a delivery of the workflow that is active or a dead letter\<close>
  "live w t i \<longleftrightarrow> (\<exists>a d. (i, t, a, d) \<in> set (tickets w) \<and> (a \<or> d))"

definition one_live :: "world \<Rightarrow> bool" where
  "one_live w \<longleftrightarrow> (\<forall>t i j. live w t i \<longrightarrow> live w t j \<longrightarrow> i = j)"

lemma one_liveD: "one_live w \<Longrightarrow> live w t i \<Longrightarrow> live w t j \<Longrightarrow> i = j"
  by (simp add: one_live_def)

lemma one_live_less: "one_live w \<Longrightarrow> (\<And>t i. live w' t i \<Longrightarrow> live w t i) \<Longrightarrow> one_live w'"
  unfolding one_live_def by blast

lemma one_live_insert:
  assumes "one_live w" and "tickets w' = tickets w @ [(i, t, True, False)]" and "\<And>j. \<not> live w t j"
  shows "one_live w'"
proof -
  have "live w' x j \<longleftrightarrow> live w x j \<or> x = t \<and> j = i" for x j
    unfolding live_def assms(2) by auto
  then show ?thesis using assms(1,3) by (auto simp: one_live_def)
qed

lemma one_live_cong: "tickets w' = tickets w \<Longrightarrow> one_live w' = one_live w"
  by (simp add: one_live_def live_def)

definition kept_but :: "string set \<Rightarrow> world \<Rightarrow> bool" where
  \<comment> \<open>the invariant, but for what the queue holds for some tasks\<close>
  "kept_but ts w \<longleftrightarrow> rows_ok w \<and>
     (\<forall>t st. checkpoint w t = Some st \<longrightarrow> (t \<notin> ts \<longrightarrow> provided t st w) \<and> resumable t st w) \<and>
     one_live w"

abbreviation work_kept :: "world \<Rightarrow> bool" where
  "work_kept \<equiv> kept_but {}"

lemma waits_for_active: "waits_for w t \<longleftrightarrow> (\<exists>r \<in> set (queue w). active_row t r)"
  by (force simp: waits_for_def tickets_def active_row_def active_status_def)

lemma kept_but_all: "kept_but {t} w \<Longrightarrow> (\<And>st. checkpoint w t = Some st \<Longrightarrow> provided t st w) \<Longrightarrow> work_kept w"
  by (auto simp: kept_but_def)

lemma kept_but_less: "work_kept w \<Longrightarrow> kept_but ts w"
  by (auto simp: kept_but_def)

lemma calm_keeps: "calm w w' \<Longrightarrow> kept_but ts w \<Longrightarrow> kept_but ts w'"
  using one_live_cong [of w' w]
  by (auto simp: calm_def kept_but_def provided_def waits_for_def no_dead_def resumable_def)

section \<open>A delivery along its way\<close>

definition approvals_kept :: "world \<Rightarrow> world \<Rightarrow> bool" where
  "approvals_kept w w' \<longleftrightarrow>
     (\<forall>t a. approval_of w t a = Some ''APPROVED'' \<longrightarrow> approval_of w' t a = Some ''APPROVED'')"

definition held :: "string \<Rightarrow> world \<Rightarrow> workflow_state \<Rightarrow> world \<Rightarrow> bool" where
  \<comment> \<open>the delivery of \<open>t\<close> that began in \<open>w0\<close> has changed the checkpoint of \<open>t\<close> only\<close>
  "held t w0 st w \<longleftrightarrow> rows_ok w \<and> checkpoint w = (checkpoint w0)(t \<mapsto> st) \<and> tickets w = tickets w0 \<and>
     approvals_kept w0 w \<and> task_id st = t \<and> no_dead w0 t"

definition going :: "string \<Rightarrow> world \<Rightarrow> workflow_state \<Rightarrow> world \<Rightarrow> bool" where
  "going t w0 st w \<longleftrightarrow> held t w0 st w \<and> status st \<noteq> WAITING_FOR_APPROVAL \<and> resumable t st w"

definition settled :: "string \<Rightarrow> world \<Rightarrow> workflow_state \<Rightarrow> world \<Rightarrow> bool" where
  \<comment> \<open>what \<open>process\<close> returns: to be queued again, or there is nothing to do\<close>
  "settled t w0 st w \<longleftrightarrow> task_id st = t \<and>
     ((\<exists>st0. going t w0 st0 w \<and> (status st = QUEUED \<or> terminal st0)) \<or>
      (\<exists>st0. held t w0 st0 w \<and> status st0 = WAITING_FOR_APPROVAL) \<or>
      (w = w0 \<and> checkpoint w0 t = Some st \<and> terminal st))"

definition broken_off :: "string \<Rightarrow> world \<Rightarrow> error \<Rightarrow> world \<Rightarrow> bool" where
  "broken_off t w0 e w \<longleftrightarrow> (\<exists>st0. going t w0 st0 w)"

lemma approvals_kept_refl: "approvals_kept w w"
  by (simp add: approvals_kept_def)

lemma held_calm: "calm w w' \<Longrightarrow> held t w0 st w \<Longrightarrow> held t w0 st w'"
  by (simp add: calm_def held_def approvals_kept_def)

lemma going_calm: "calm w w' \<Longrightarrow> going t w0 st w \<Longrightarrow> going t w0 st w'"
  using held_calm [of w w' t w0 st] by (auto simp: going_def resumable_def calm_def)

lemma going_broken: "going t w0 st w \<Longrightarrow> broken_off t w0 e w"
  by (auto simp: broken_off_def)

text \<open>A runtime over the SQLite store while nobody else writes: what its awaits and its tools do is calm.\<close>

locale undisturbed =
  fixes R :: "world workflow_runtime"
  assumes store: "wf_store R = sqlite_store (wf_platform R) (wf_now R)"
    and backend: "relates calm (wf_backend R st tool args n)"
    and engine: "relates calm (en_decide (wf_engine R) st)"
    and usage: "relates calm (en_take_usage (wf_engine R))"
    and sleep: "relates calm (wf_sleep R x)"
begin

abbreviation "pf \<equiv> wf_platform R"

lemma event_calm: "relates calm (event R t ty p)"
  by (simp add: event_def store calm_event)

lemma going_step: "going t w0 st w \<Longrightarrow> relates calm m \<Longrightarrow> wp m (\<lambda>_. going t w0 st) (\<lambda>_. going t w0 st) w"
  by (rule wp_mono [OF relates_wpD [where R = calm]]) (auto intro: going_calm)

lemma save_held:
  assumes "held t w0 old w" and "task_id st = t" and "version st = version old"
  shows "wp (Runtime.save R st) (\<lambda>st' w'. st' = stamped R st \<and> held t w0 st' w' \<and> approval_of w' = approval_of w) (\<lambda>_ _. False) w"
proof -
  let ?w = "put_workflow (wf_now R) (stamped R st) w"
  have ok: "world_ok w" and cp: "checkpoint w t = Some old" using assms(1) by (simp_all add: held_def rows_ok_def)
  have "Runtime.save R st w = (Inr (stamped R st), ?w)"
    using ok cp assms(2,3) by (simp add: save_def store save_workflow_eq stamped_def)
  moreover have "rows_ok ?w" using assms(1,2) ok cp by (simp add: held_def rows_ok_def world_ok_put)
  moreover have "checkpoint ?w = (checkpoint w0)(t \<mapsto> stamped R st)"
    using assms(1,2) cp by (simp add: held_def checkpoint_put)
  moreover have "approval_of ?w = approval_of w" by (rule view_cong) simp
  ultimately show ?thesis using assms(1,2) by (simp add: wp_def held_def tickets_def approvals_kept_def)
qed

lemma save_going:
  assumes "going t w0 old w" and "task_id st = t" and "version st = version old"
    and "pending_action st = pending_action old \<or> pending_action st = None" and "status st \<noteq> WAITING_FOR_APPROVAL"
  shows "wp (Runtime.save R st) (\<lambda>st' w'. st' = stamped R st \<and> going t w0 st' w') (\<lambda>_ _. False) w"
proof (rule wp_mono [OF save_held])
  show "held t w0 old w" using assms(1) by (simp add: going_def)
  fix st' w'
  assume "st' = stamped R st \<and> held t w0 st' w' \<and> approval_of w' = approval_of w"
  then show "st' = stamped R st \<and> going t w0 st' w'"
    using assms(1,4,5) by (auto simp: going_def resumable_def)
qed (use assms in simp_all)

text \<open>Saving, then noting it: the end of most branches.\<close>

lemma settled_save:
  assumes "going t w0 old w" and "task_id st = t" and "version st = version old"
    and "pending_action st = pending_action old \<or> pending_action st = None"
    and "status st = QUEUED \<or> terminal st"
  shows "wp (bindE (Runtime.save R st) (\<lambda>st'. bindE (event R (task_id st') ty (p st')) (\<lambda>_. ret st')))
    (settled t w0) (broken_off t w0) w"
proof -
  have nw: "status st \<noteq> WAITING_FOR_APPROVAL" using assms(5) by (auto simp: terminal_def)
  have noted: "wp (bindE (event R t' ty p) (\<lambda>_. ret st')) (settled t w0) (broken_off t w0) w'"
    if "st' = stamped R st \<and> going t w0 st' w'" for st' t' p w'
    unfolding wp_bindE
  proof (rule wp_mono [OF going_step [OF _ event_calm]])
    show "going t w0 st' w'" by (rule conjunct2 [OF that])
    fix x w2
    assume "going t w0 st' w2"
    then show "wp (ret st') (settled t w0) (broken_off t w0) w2"
      using that assms(2,5) by (auto simp: wp_ret settled_def terminal_def)
  qed (simp add: going_broken)
  show ?thesis
    unfolding wp_bindE [of "Runtime.save R st"]
    by (rule wp_mono [OF save_going [OF assms(1-4) nw]]) (simp_all add: noted)
qed

lemma settled_fail: "going t w0 st w \<Longrightarrow> wp (fail_workflow R st why category) (settled t w0) (broken_off t w0) w"
  unfolding fail_workflow_def by (rule settled_save) (auto simp: going_def held_def terminal_def)

lemma gateway_calm: "relates calm (gateway_execute pf (wf_store R) (wf_backend R) st tool args)"
  unfolding gateway_execute_def Let_def store
  by (intro calmly.relates_rules backend)
     (auto intro!: calmly.relates_rules backend calm_result calm_get split: json.split list.split)

lemma raising_save:
  assumes g: "going t w0 old w" and "task_id st = t" "version st = version old"
    "pending_action st = pending_action old" "status st \<noteq> WAITING_FOR_APPROVAL"
  shows "wp (bindE (Runtime.save R st) (\<lambda>st'. bindE (event R (n st') ty (p st')) (\<lambda>_. raise e)))
    Q (\<lambda>e. broken_off t w0 e) w"
proof -
  have "wp (bindE (event R n ty p) (\<lambda>_. raise e)) Q (\<lambda>e. broken_off t w0 e) w'" if "going t w0 st' w'" for st' n p w'
    unfolding wp_bindE
    by (rule wp_mono [OF going_step [OF that event_calm]]) (simp_all add: wp_raise going_broken)
  then show ?thesis
    unfolding wp_bindE [of "Runtime.save R st"]
    by (intro wp_mono [OF save_going [OF g]]) (use assms in auto)
qed

section \<open>The branches of a delivery\<close>

lemma settled_execute:
  assumes g: "going t w0 st w"
  shows "wp (execute_tool R st tool args) (settled t w0) (broken_off t w0) w"
proof -
  have id: "task_id st = t" and nw: "status st \<noteq> WAITING_FOR_APPROVAL" using g by (simp_all add: going_def held_def)
  let ?finish = "\<lambda>outcome. case outcome of Inl st \<Rightarrow> ret st
    | Inr (result, cached) \<Rightarrow> bindE (Runtime.save R (tool_completed pf st tool result)) (\<lambda>st'.
        bindE (event R (task_id st') ''TOOL_COMPLETED''
          [(''tool'', JStr (tool_value tool)), (''cached'', JBool cached), (''result'', JObj result)]) (\<lambda>_. ret st'))"
  have good: "wp (?finish (Inr (r, cached))) (settled t w0) (broken_off t w0) w'" if "going t w0 st w'" for r cached w'
    by simp (rule settled_save [OF that], simp_all add: id)
  have failed: "wp (if is_retryable e then bindE (Runtime.save R (st\<lparr>retries := retries st + 1, last_error := Some (error_text e), status := QUEUED\<rparr>)) (\<lambda>_.
             bindE (event R (task_id st) ''TOOL_RETRYABLE_FAILURE'' [(''tool'', JStr (tool_value tool)), (''error'', JStr (error_text e))]) (\<lambda>_. raise e))
           else if is_permanent e then bindE (fail_workflow R st (error_text e) ''tool'') (\<lambda>st. ret (Inl st)) else raise e)
      (\<lambda>x. wp (?finish x) (settled t w0) (broken_off t w0)) (broken_off t w0) w'" if "going t w0 st w'" for e w'
  proof -
    have "wp (bindE (fail_workflow R st (error_text e) ''tool'') (\<lambda>st. ret (Inl st)))
        (\<lambda>x. wp (?finish x) (settled t w0) (broken_off t w0)) (broken_off t w0) w'"
      unfolding wp_bindE [of "fail_workflow _ _ _ _"] by (rule wp_mono [OF settled_fail [OF that]]) (simp_all add: wp_ret)
    then show ?thesis
      using going_broken [OF that] by (auto simp: wp_raise intro!: raising_save [OF that] id)
  qed
  show ?thesis
    unfolding execute_tool_def wp_bindE [of "try_catch _ _"] wp_try_catch wp_bindE [of "gateway_execute _ _ _ _ _ _"]
    by (rule wp_mono [OF going_step [OF g gateway_calm]]) (use good failed in \<open>auto simp: wp_ret split: prod.split\<close>)
qed

lemma settled_resume:
  assumes g: "going t w0 st w" and p: "pending_action st = Some p"
  shows "wp (resume_approved_action R st p) (settled t w0) (broken_off t w0) w"
proof -
  have "approval_of w (task_id st) (action_id p) = Some ''APPROVED''"
    using g p by (simp add: going_def resumable_def held_def)
  moreover have "wp (bindE (event R (task_id st) ''APPROVED_ACTION_RESUMED'' [(''action_id'', JStr (action_id p))])
      (\<lambda>_. execute_tool R st (pa_tool p) (pa_arguments p))) (settled t w0) (broken_off t w0) w"
    unfolding wp_bindE [of "event _ _ _ _"]
    by (rule wp_mono [OF going_step [OF g event_calm]]) (simp_all add: settled_execute going_broken)
  ultimately show ?thesis
    by (simp add: resume_approved_action_def wp_bindE [of "approval_status _ _"] store
        wp_def [of "approval_status _ _"] approval_status_eq)
qed

lemma settled_ask:
  assumes g: "going t w0 st w"
  shows "wp (request_approval R st d tool args policy) (settled t w0) (broken_off t w0) w"
proof -
  let ?waiting = "\<lambda>st' w'. held t w0 st' w' \<and> status st' = WAITING_FOR_APPROVAL"
  have approval: "wp (rs_create_approval (wf_store R) t' a) (\<lambda>_. ?waiting st') (\<lambda>_ _. False) w'" if "?waiting st' w'" for t' a st' w'
  proof -
    let ?w = "snd (create_approval (wf_now R) t' a w')"
    have "checkpoint ?w = checkpoint w'" by (rule view_cong) (simp add: create_approval_def)
    moreover have "rows_ok ?w"
      using relatesD [OF keeps_ok_create_approval, of w' "wf_now R" t' a] that
      by (auto simp: held_def rows_ok_def) (simp add: create_approval_def split: if_splits)
    moreover have "tickets ?w = tickets w'" by (simp add: create_approval_def tickets_def)
    moreover have "approvals_kept w' ?w"
      using relatesD [OF evolves_create_approval, of undefined w' "wf_now R" t' a] that
      by (auto simp: approvals_kept_def evolves_def approvals_final_def held_def rows_ok_def)
    ultimately show ?thesis
      using that by (auto simp: wp_def store held_def approvals_kept_def create_approval_def split: if_splits)
  qed
  have noted: "wp (event R t' ty x) (\<lambda>_. ?waiting st') (\<lambda>_ _. False) w'" if "?waiting st' w'" for t' ty x st' w'
    using that held_calm [OF relatesD [OF event_calm]]
    by (simp add: wp_def event_def store record_event_def)
  have rest: "wp (bindE (rs_create_approval (wf_store R) t' a) (\<lambda>_. bindE (event R n ty x) (\<lambda>_. ret st')))
      (settled t w0) (broken_off t w0) w'" if "?waiting st' w'" for t' a n ty x st' w'
    unfolding wp_bindE
    by (rule wp_mono [OF approval [OF that]], rule wp_mono [OF noted])
       (auto simp: wp_ret settled_def held_def)
  show ?thesis
    unfolding request_approval_def Let_def wp_bindE [of "Runtime.save _ _"]
  proof (rule wp_mono [OF save_held [of t w0 st]])
    show "held t w0 st w" using g by (simp add: going_def)
  qed (use g rest in \<open>auto simp: going_def held_def\<close>)
qed

lemma settled_follow:
  assumes g: "going t w0 st w"
  shows "wp (follow_policy R st d tool args policy) (settled t w0) (broken_off t w0) w"
proof -
  have pause: "relates calm (chaos_pause R st tool)"
    unfolding chaos_pause_def by (intro calmly.relates_rules event_calm sleep)
  have denied: "wp (bindE (event R n ty x) (\<lambda>_. fail_workflow R st why category)) (settled t w0) (broken_off t w0) w" for n ty x why category
    unfolding wp_bindE [of "event _ _ _ _"]
    by (rule wp_mono [OF going_step [OF g event_calm]]) (simp_all add: settled_fail going_broken)
  have run: "wp (bindE (chaos_pause R st tool) (\<lambda>_. execute_tool R st tool args)) (settled t w0) (broken_off t w0) w"
    unfolding wp_bindE [of "chaos_pause _ _ _"]
    by (rule wp_mono [OF going_step [OF g pause]]) (simp_all add: settled_execute going_broken)
  show ?thesis using denied run settled_ask [OF g] by (simp add: follow_policy_def)
qed

lemma settled_act_on_tool:
  assumes g: "going t w0 old w" and st: "task_id st = t" "version st = version old" "pending_action st = pending_action old"
    "status st \<noteq> WAITING_FOR_APPROVAL"
  shows "wp (act_on_tool R st d tool) (settled t w0) (broken_off t w0) w"
proof -
  let ?st = "tool_requested pf st tool"
  have same: "task_id ?st = t" "version ?st = version old" "pending_action ?st = pending_action old" "status ?st = status st"
    using st by (simp_all add: tool_requested_def)
  have stop: "wp (stop_loop R ?st why) (settled t w0) (broken_off t w0) w" for why
    unfolding stop_loop_def by (rule settled_save [OF g]) (simp_all add: same terminal_def)
  have go: "wp (bindE (Runtime.save R ?st) (\<lambda>st'. follow_policy R st' d tool args policy)) (settled t w0) (broken_off t w0) w"
    for args policy
    unfolding wp_bindE
    by (rule wp_mono [OF save_going [OF g same(1,2)]]) (use same(3,4) st(4) in \<open>auto intro: settled_follow\<close>)
  show ?thesis
    unfolding act_on_tool_def Let_def wp_bindE [of "lift_sum _"] wp_lift_sum
    using stop go going_broken [OF g] by (auto split: sum.split option.split)
qed

lemma settled_act:
  assumes g: "going t w0 old w" and st: "task_id st = t" "version st = version old" "pending_action st = pending_action old"
    "status st \<noteq> WAITING_FOR_APPROVAL"
  shows "wp (act_on_decision R st d) (settled t w0) (broken_off t w0) w"
proof (cases "d_action d")
  case Use_Tool
  with g st show ?thesis
    by (cases "d_tool d") (auto simp: act_on_decision_def wp_raise intro: going_broken settled_act_on_tool)
next
  case Complete
  then show ?thesis unfolding act_on_decision_def complete_workflow_def
    by simp (rule settled_save [OF g], simp_all add: st terminal_def)
next
  case Fail
  then show ?thesis unfolding act_on_decision_def fail_workflow_def
    by simp (rule settled_save [OF g], simp_all add: st terminal_def)
qed

lemma going_decide:
  assumes g: "going t w0 st w"
  shows "wp (decide R st) (\<lambda>_. going t w0 st) (broken_off t w0) w"
proof -
  have id: "task_id st = t" using g by (simp add: going_def held_def)
  have "wp (if is_retryable e then bindE (Runtime.save R (st\<lparr>retries := retries st + 1, status := QUEUED, last_error := Some (error_text e)\<rparr>)) (\<lambda>st'.
         bindE (event R (task_id st') ''MODEL_RETRYABLE_FAILURE'' [(''error'', JStr (error_text e))]) (\<lambda>_. raise e)) else raise e)
      (\<lambda>_. going t w0 st) (broken_off t w0) w'" if "going t w0 st w'" for e w'
    by (cases "is_retryable e") (simp_all add: wp_raise going_broken [OF that] raising_save [OF that] id)
  note recovered = this
  show ?thesis
    unfolding decide_def wp_try_catch
    by (rule wp_mono [OF going_step [OF g engine]]) (assumption | erule recovered)+
qed

lemma settled_start:
  assumes g: "going t w0 st w"
  shows "wp (start_decision R st) (settled t w0) (broken_off t w0) w"
proof -
  have act: "wp (act_on_decision R (note_findings (model_called st' u) d) d) (settled t w0) (broken_off t w0) w'"
    if "going t w0 st' w'" for st' u d w'
    by (rule settled_act [OF that]) (use that in \<open>simp_all add: note_findings_def model_called_def going_def held_def\<close>)
  have considered: "wp (bindE (en_take_usage (wf_engine R)) (\<lambda>u. bindE (event R n ty x) (\<lambda>_. F u)))
      (settled t w0) (broken_off t w0) w'"
    if "going t w0 st' w'" "\<And>u w'. going t w0 st' w' \<Longrightarrow> wp (F u) (settled t w0) (broken_off t w0) w'" for st' n ty x F w'
    unfolding wp_bindE
    by (rule wp_mono [OF going_step [OF that(1) usage]], rule wp_mono [OF going_step [OF _ event_calm]])
       (auto intro: that(2) going_broken)
  have decided: "wp (bindE (event R n ty x) (\<lambda>_. bindE (decide R st') (\<lambda>d. bindE (en_take_usage (wf_engine R)) (\<lambda>u.
      bindE (event R n' ty' (x' d)) (\<lambda>_. act_on_decision R (note_findings (model_called st' u) d) d)))))
      (settled t w0) (broken_off t w0) w'" if "going t w0 st' w'" for st' n ty x n' ty' x' w'
    unfolding wp_bindE [of "event R n ty x"] wp_bindE [of "decide R st'"]
    by (rule wp_mono [OF going_step [OF that event_calm]], rule wp_mono [OF going_decide])
       (auto intro!: considered act going_broken)
  show ?thesis
    unfolding start_decision_def wp_bindE [of "Runtime.save _ _"]
    by (rule wp_mono [OF save_going [OF g]]) (use g decided in \<open>auto simp: going_def held_def\<close>)
qed

lemma settled_process:
  assumes w0: "work_kept w0"
  shows "wp (process R t) (settled t w0) (\<lambda>e w. checkpoint w0 t = None \<and> w = w0 \<and> \<not> is_retryable e \<or> broken_off t w0 e w) w0"
proof (cases "checkpoint w0 t")
  case None
  then show ?thesis
    by (simp add: process_def required_state_def store bindE_assoc wp_bindE wp_def [of "get_workflow _"] get_workflow_checkpoint wp_raise)
next
  case (Some st)
  have ok: "world_ok w0" using w0 by (simp add: kept_but_def rows_ok_def)
  then have id: "task_id st = t" using Some by (auto simp: checkpoint_def dest: world_ok_row)
  have h: "held t w0 st w0" if "\<not> terminal st"
    using w0 Some id that by (auto simp: held_def kept_but_def provided_def approvals_kept_refl)
  have g: "going t w0 st w0" if "\<not> terminal st" "status st \<noteq> WAITING_FOR_APPROVAL"
    using h that w0 Some by (auto simp: going_def kept_but_def)
  have "wp (if terminal st \<or> status st = WAITING_FOR_APPROVAL then ret st
      else (case pending_action st of Some p \<Rightarrow> resume_approved_action R st p | None \<Rightarrow> start_decision R st))
      (settled t w0) (broken_off t w0) w0"
    using g h id Some by (auto simp: wp_ret settled_def settled_start settled_resume terminal_def split: option.split)
  then have "wp (if terminal st \<or> status st = WAITING_FOR_APPROVAL then ret st
      else (case pending_action st of Some p \<Rightarrow> resume_approved_action R st p | None \<Rightarrow> start_decision R st))
      (settled t w0) (\<lambda>e w. checkpoint w0 t = None \<and> w = w0 \<and> \<not> is_retryable e \<or> broken_off t w0 e w) w0"
    by (rule wp_mono) auto
  with Some show ?thesis
    by (simp add: process_def required_state_def store wp_bindE wp_def [of "get_workflow _"] get_workflow_checkpoint wp_ret)
qed

end

end
