(* ===== verification/Settled_Delivery.thy ===== *)
theory Settled_Delivery
  imports Complete_Delivery
begin

text \<open>
  The rest of a delivery: the claim, and what the worker does with the outcome. \<open>kept_deliver\<close> shows that a
  whole delivery keeps the invariant of \<open>Complete_Delivery\<close>.
\<close>

section \<open>Claiming and settling a delivery\<close>

lemma calm_claim: "relates calm (claim now wk ls)"
proof (rule relatesI)
  fix w
  let ?w = "snd (claim now wk ls w)"
  have "checkpoint ?w = checkpoint w" "approval_of ?w = approval_of w"
    by (rule view_cong, simp add: claim_def Let_def split: option.split)+
  moreover have release: "map (\<lambda>r. (q_id r, q_task_id r, active_status (q_status r), q_status r = Q_DEAD)) (release_expired now (queue w)) = tickets w"
    unfolding release_expired_def tickets_def
    by (rule map_update_where) (auto simp: lease_expired_def active_status_def)
  have "map (\<lambda>r. (q_id r, q_task_id r, active_status (q_status r), q_status r = Q_DEAD))
      (update_where (\<lambda>x. q_id x = i \<and> q_status x = Q_PENDING) (lease_row now wk ls) (release_expired now (queue w))) = tickets w" for i
    unfolding release [symmetric] by (rule map_update_where) (auto simp: lease_row_def active_status_def)
  with release have "tickets ?w = tickets w"
    by (auto simp: tickets_def claim_def Let_def split: option.split)
  moreover have "rows_ok w \<longrightarrow> rows_ok ?w"
  proof
    assume ok: "rows_ok w"
    then have leases: "\<forall>r \<in> set (release_expired now (queue w)). q_status r = Q_PROCESSING \<longrightarrow> q_lease_until r \<noteq> None"
      by (auto simp: rows_ok_def set_release_expired)
    have "\<forall>r \<in> set (queue ?w). q_status r = Q_PROCESSING \<longrightarrow> q_lease_until r \<noteq> None"
    proof (cases "find (claimable now) (release_expired now (queue w))")
      case None
      with leases show ?thesis by (simp add: claim_def Let_def)
    next
      case (Some x)
      with leases show ?thesis by (simp add: claim_def Let_def ball_update_where) (simp add: lease_row_def)
    qed
    with ok relatesD [OF keeps_ok_claim, of w now wk ls] show "rows_ok ?w" by (simp add: rows_ok_def)
  qed
  ultimately show "calm w ?w" by (simp add: calm_def)
qed

lemma claimed_ticket:
  assumes "claim now wk ls w = (Inr (Some d), w1)"
  shows "\<exists>i. dl_id d = IdInt i \<and> (i, dl_task_id d, True, False) \<in> set (tickets w1)"
proof -
  from assms obtain r where r: "r \<in> set (release_expired now (queue w))" "claimable now r" "d = delivery_of_row r"
    and w1: "w1 = w\<lparr>queue := update_where (\<lambda>x. q_id x = q_id r \<and> q_status x = Q_PENDING) (lease_row now wk ls)
       (release_expired now (queue w))\<rparr>" by (rule claim_SomeE)
  then have "lease_row now wk ls r \<in> set (queue w1)"
    by (auto simp: set_update_where claimable_def intro!: bexI [of _ r])
  then have "(q_id r, q_task_id r, True, False) \<in> set (tickets w1)"
    unfolding tickets_def set_map by (rule image_eqI [rotated]) (simp add: lease_row_def active_status_def)
  then show ?thesis by (simp add: r(3) delivery_of_row_def)
qed

lemma ticket_unique:
  assumes "rows_ok w" and "(i, t, a, d) \<in> set (tickets w)" and "(i, t', a', d') \<in> set (tickets w)"
  shows "t' = t \<and> a' = a \<and> d' = d"
  using assms queue_ids_unique [of w] by (auto simp: rows_ok_def tickets_def)

text \<open>The delivery gets another status.\<close>

definition reticketed :: "int \<Rightarrow> bool \<Rightarrow> bool \<Rightarrow> world \<Rightarrow> world \<Rightarrow> bool" where
  "reticketed i a d w w' \<longleftrightarrow> rows_ok w' \<and> checkpoint w' = checkpoint w \<and> approval_of w' = approval_of w \<and>
     tickets w' = map (\<lambda>(j, t, b, e). if j = i then (j, t, a, d) else (j, t, b, e)) (tickets w)"

lemma reticketed_mem:
  assumes "reticketed i a d w w'"
  shows "(j, t, b, e) \<in> set (tickets w') \<longleftrightarrow>
    (if j = i then b = a \<and> e = d \<and> (\<exists>b e. (i, t, b, e) \<in> set (tickets w)) else (j, t, b, e) \<in> set (tickets w))"
  using assms by (force simp: reticketed_def split: if_splits)

lemma kept_reticketed:
  assumes "kept_but {t} w" and "reticketed i a d w w'" and i: "(i, t, True, False) \<in> set (tickets w)"
  shows "kept_but {t} w'"
proof -
  note w = assms(1) [unfolded kept_but_def] and w' = assms(2) [unfolded reticketed_def]
  note mem = reticketed_mem [OF assms(2)] and mine = ticket_unique [OF _ i]
  have other: "(j, t', a', d') \<in> set (tickets w') \<longleftrightarrow> (j, t', a', d') \<in> set (tickets w)" if "t' \<noteq> t" for j t' a' d'
    using that mine w unfolding mem by (cases "j = i") auto
  then have "provided t' st w \<Longrightarrow> provided t' st w'" if "t' \<noteq> t" for t' st
    using that by (simp add: provided_def no_dead_def waits_for_def)
  moreover have "one_live w'"
  proof (rule one_live_less [OF conjunct2 [OF conjunct2 [OF w]]])
    fix t' j
    assume "live w' t' j"
    then obtain b e where "(j, t', b, e) \<in> set (tickets w')" "b \<or> e" by (auto simp: live_def)
    moreover have "t' = t" if "(i, t', b, e) \<in> set (tickets w)" for b e using mine [OF _ that] w by blast
    ultimately show "live w t' j" using i unfolding live_def mem by (cases "j = i") auto
  qed
  moreover have "(t' \<notin> {t} \<longrightarrow> provided t' st w) \<and> resumable t' st w" if "checkpoint w' t' = Some st" for t' st
    using that w' conjunct1 [OF conjunct2 [OF w]] by simp
  ultimately show ?thesis unfolding kept_but_def using w' by (simp add: resumable_def)
qed

lemma reticketed_acknowledge:
  assumes "rows_ok w"
  shows "reticketed i False False w (snd (acknowledge pf now (IdInt i) w))"
proof -
  let ?w = "snd (acknowledge pf now (IdInt i) w)"
  have "checkpoint ?w = checkpoint w" "approval_of ?w = approval_of w" by (rule view_cong, simp add: acknowledge_def)+
  moreover have "rows_ok ?w"
    using assms relatesD [OF keeps_ok_acknowledge, of w pf now "IdInt i"]
    by (auto simp: rows_ok_def) (auto simp: acknowledge_def set_update_where)
  ultimately show ?thesis
    by (auto simp: reticketed_def tickets_def acknowledge_def update_where_def active_status_def)
qed

lemma reticketed_retry:
  assumes "rows_ok w" and "dl_id dl = IdInt i"
  shows "reticketed i (\<not> exhausted dl) (exhausted dl) w (snd (retry_or_dead_letter pf now dl e b w))"
proof -
  let ?w = "snd (retry_or_dead_letter pf now dl e b w)"
  have "checkpoint ?w = checkpoint w" "approval_of ?w = approval_of w"
    by (rule view_cong, simp add: retry_or_dead_letter_def Let_def)+
  moreover have "rows_ok ?w"
    using assms relatesD [OF keeps_ok_retry, of w pf now dl e b]
    by (auto simp: rows_ok_def) (auto simp: retry_or_dead_letter_def Let_def set_update_where split: if_splits)
  ultimately show ?thesis
    using assms(2) by (auto simp: reticketed_def tickets_def retry_or_dead_letter_def Let_def update_where_def active_status_def)
qed

lemma no_dead_reticketed: "reticketed i a False w w' \<Longrightarrow> no_dead w t \<Longrightarrow> no_dead w' t"
  by (auto simp: no_dead_def reticketed_mem split: if_splits)

lemma enqueue_provides:
  assumes k: "kept_but ts w" and c: "checkpoint w t \<noteq> None" and nd: "no_dead w t"
  shows "wp (enqueue now t m p) (\<lambda>_ w'. kept_but ts w' \<and> checkpoint w' = checkpoint w \<and> waits_for w' t \<and>
    no_dead w' t) (\<lambda>_ _. False) w"
proof (cases "find (active_row t) (queue w)")
  case (Some r)
  then have "waits_for w t" by (auto simp: waits_for_active dest: find_SomeD)
  with Some k nd show ?thesis by (simp add: wp_def enqueue_def)
next
  case None
  let ?w = "insert_queue_row now t m p w"
  have e: "enqueue now t m p w = (Inr (IdInt (next_queue_id w)), ?w)"
    using None c by (simp add: enqueue_def checkpoint_def)
  have views: "checkpoint ?w = checkpoint w" "approval_of ?w = approval_of w" by (rule view_cong, simp add: insert_queue_row_def)+
  have more: "tickets ?w = tickets w @ [(next_queue_id w, t, True, False)]"
    by (simp add: tickets_def insert_queue_row_def new_queue_row_def active_status_def)
  have "rows_ok ?w"
    using k relatesD [OF keeps_ok_enqueue, of w now t m p] e
    by (auto simp: kept_but_def rows_ok_def insert_queue_row_def new_queue_row_def)
  moreover have q: "waits_for ?w t" "waits_for w x \<Longrightarrow> waits_for ?w x" "no_dead ?w x = no_dead w x" for x
    by (auto simp: waits_for_def no_dead_def more)
  then have "provided x st w \<Longrightarrow> provided x st ?w" for x st by (auto simp: provided_def)
  moreover have "\<not> live w t j" for j
    using nd None by (auto simp: live_def no_dead_def find_None_iff tickets_def active_row_def)
  then have "one_live ?w" using k by (intro one_live_insert [OF _ more]) (simp_all add: kept_but_def)
  ultimately have "kept_but ts ?w"
    using k by (auto simp: kept_but_def views resumable_def)
  with e views q nd show ?thesis by (simp add: wp_def)
qed

text \<open>Saving the checkpoint of \<open>t\<close>.\<close>

lemma kept_save:
  assumes k: "kept_but {t} w" and old: "checkpoint w t = Some old" and st: "task_id st = t" "version st = version old"
    and r: "resumable t st w"
  shows "wp (save_workflow now st (version st)) (\<lambda>st' w'. st' = st\<lparr>version := version st + 1, updated_at := now\<rparr> \<and>
    kept_but {t} w' \<and> checkpoint w' t = Some st' \<and> tickets w' = tickets w \<and> approval_of w' = approval_of w) (\<lambda>_ _. False) w"
proof -
  let ?st = "st\<lparr>version := version st + 1, updated_at := now\<rparr>" and ?w = "put_workflow now (st\<lparr>version := version st + 1, updated_at := now\<rparr>) w"
  have ok: "world_ok w" using k by (simp add: kept_but_def rows_ok_def)
  have "save_workflow now st (version st) w = (Inr ?st, ?w)" using ok old st by (simp add: save_workflow_eq)
  moreover have c: "checkpoint ?w = (checkpoint w)(t \<mapsto> ?st)" using old st by (simp add: checkpoint_put)
  moreover have a: "approval_of ?w = approval_of w" by (rule view_cong) simp
  moreover have t: "tickets ?w = tickets w" by (simp add: tickets_def)
  moreover have "rows_ok ?w" using k ok old st by (simp add: kept_but_def rows_ok_def world_ok_put)
  then have "kept_but {t} ?w"
    using k r by (auto simp: kept_but_def c a t provided_def no_dead_def waits_for_def resumable_def terminal_def one_live_cong [OF t])
  ultimately show ?thesis by (simp add: wp_def)
qed

section \<open>One delivery keeps all work\<close>

lemma held_kept:
  assumes w0: "work_kept w0" and h: "held t w0 st w" and r: "resumable t st w"
  shows "kept_but {t} w \<and> checkpoint w t = Some st \<and> tickets w = tickets w0 \<and> no_dead w t"
proof -
  note h = h [unfolded held_def] and w0 = w0 [unfolded kept_but_def]
  have "provided t' st' w0 \<longleftrightarrow> provided t' st' w" for t' st'
    using h by (simp add: provided_def no_dead_def waits_for_def)
  moreover have "resumable t' st' w0 \<Longrightarrow> resumable t' st' w" for t' st'
    using h by (auto simp: resumable_def approvals_kept_def)
  ultimately have "kept_but {t} w"
    using h w0 r one_live_cong [of w w0] by (simp add: kept_but_def)
  then show ?thesis using h by (simp add: no_dead_def)
qed

lemma going_kept:
  assumes "work_kept w0" and "going t w0 st w"
  shows "kept_but {t} w \<and> checkpoint w t = Some st \<and> tickets w = tickets w0 \<and> no_dead w t"
  using held_kept [OF assms(1), of t st w] assms(2) by (simp add: going_def)

definition finished :: "string \<Rightarrow> world \<Rightarrow> workflow_state \<Rightarrow> world \<Rightarrow> bool" where
  \<comment> \<open>what is left to do for \<open>t\<close> is to acknowledge and to queue again\<close>
  "finished t w0 st w \<longleftrightarrow> kept_but {t} w \<and> task_id st = t \<and> tickets w = tickets w0 \<and>
     (status st = QUEUED \<longrightarrow> no_dead w t) \<and>
     (\<exists>st0. checkpoint w t = Some st0 \<and> (terminal st0 \<or> no_dead w t \<and> (status st0 = WAITING_FOR_APPROVAL \<or> status st = QUEUED)))"

lemma settled_finished:
  assumes w0: "work_kept w0" and s: "settled t w0 st w"
  shows "finished t w0 st w"
proof -
  from s consider (going) st0 where "going t w0 st0 w" "status st = QUEUED \<or> terminal st0"
    | (waiting) st0 where "held t w0 st0 w" "status st0 = WAITING_FOR_APPROVAL"
    | (over) "w = w0" "checkpoint w0 t = Some st" "terminal st"
    by (auto simp: settled_def)
  then show ?thesis
  proof cases
    case going
    with going_kept [OF w0 going(1)] s show ?thesis by (auto simp: finished_def settled_def)
  next
    case waiting
    with held_kept [OF w0 waiting(1)] s show ?thesis by (auto simp: finished_def settled_def resumable_def)
  next
    case over
    with w0 s show ?thesis by (auto simp: finished_def settled_def kept_but_less terminal_def)
  qed
qed

lemma kept_terminal: "kept_but {t} w \<Longrightarrow> checkpoint w t = Some st \<Longrightarrow> terminal st \<Longrightarrow> work_kept w"
  by (erule kept_but_all) (simp add: provided_def)

lemma kept_unknown: "kept_but {t} w \<Longrightarrow> checkpoint w t = None \<Longrightarrow> work_kept w"
  by (erule kept_but_all) simp

lemma wp_ret_fun: "wp (ret x) Q E = Q x"
  by (rule ext) (rule wp_ret)

lemma wp_returns: "fst (m s) = Inr x \<Longrightarrow> wp m Q E s \<longleftrightarrow> Q x (snd (m s))"
  by (cases "m s") (simp add: wp_def)

lemma queue_returns:
  "wp (acknowledge pf now i) Q E w \<longleftrightarrow> Q () (snd (acknowledge pf now i w))"
  "wp (retry_or_dead_letter pf now d m b) Q' E w \<longleftrightarrow> Q' (exhausted d) (snd (retry_or_dead_letter pf now d m b w))"
  by (rule wp_returns, simp add: acknowledge_def, rule wp_returns, simp add: retry_or_dead_letter_def Let_def)

context undisturbed
begin

lemma kept_requeue:
  assumes f: "finished t w0 st w" and i: "dl_id d = IdInt i" "(i, t, True, False) \<in> set (tickets w0)"
  shows "wp (acknowledge_and_requeue R c d st) (\<lambda>_. work_kept) (\<lambda>_ _. False) w"
proof -
  let ?w = "snd (acknowledge pf (wf_now R) (IdInt i) w)"
  from f obtain st0 where k: "kept_but {t} w" and id: "task_id st = t" and tk: "tickets w = tickets w0"
    and c: "checkpoint w t = Some st0" and nd: "status st = QUEUED \<longrightarrow> no_dead w t"
    and st0: "terminal st0 \<or> no_dead w t \<and> (status st0 = WAITING_FOR_APPROVAL \<or> status st = QUEUED)"
    by (auto simp: finished_def)
  have r: "reticketed i False False w ?w" by (rule reticketed_acknowledge) (use k in \<open>simp add: kept_but_def\<close>)
  have k': "kept_but {t} ?w" by (rule kept_reticketed [OF k r]) (use i tk in simp)
  have c': "checkpoint ?w t = Some st0" using r c by (simp add: reticketed_def)
  have dead: "no_dead w t \<Longrightarrow> no_dead ?w t" by (rule no_dead_reticketed [OF r])
  have "wp (enqueue (wf_now R) t (max_queue_attempts c) []) (\<lambda>_. work_kept) (\<lambda>_ _. False) ?w" if "status st = QUEUED"
    by (rule wp_mono [OF enqueue_provides [OF k']], simp add: c', rule dead, use nd that in simp, rule kept_but_all)
       (auto simp: provided_def)
  moreover have "work_kept ?w" if "status st \<noteq> QUEUED"
    by (rule kept_but_all [OF k']) (use that st0 dead c' in \<open>auto simp: provided_def\<close>)
  ultimately show ?thesis
    using id by (auto simp: acknowledge_and_requeue_def store i(1) wp_bindE queue_returns wp_ret wp_ret_fun)
qed

text \<open>A delivery that failed for good ends its workflow.\<close>

lemma kept_ended:
  assumes k: "kept_but {t} w" and st: "\<And>st. checkpoint w t = Some st \<Longrightarrow> status st \<noteq> WAITING_FOR_APPROVAL"
    and "x = DEAD_LETTERED \<or> x = FAILED"
  shows "wp (bindE (get_workflow t) (\<lambda>found. case found of None \<Rightarrow> ret ()
      | Some st \<Rightarrow> if terminal st then ret ()
          else bindE (Runtime.save R (st\<lparr>status := x, last_error := Some m\<rparr>)) (\<lambda>st. event R (task_id st) ty p)))
    (\<lambda>_. work_kept) (\<lambda>_. work_kept) w"
proof (cases "checkpoint w t")
  case None
  with kept_unknown [OF k] show ?thesis
    by (simp add: wp_bindE wp_def [of "get_workflow _"] get_workflow_checkpoint wp_ret)
next
  case (Some st0)
  let ?st = "st0\<lparr>status := x, last_error := Some m\<rparr>"
  have ok: "world_ok w" "resumable t st0 w" using k Some by (simp_all add: kept_but_def rows_ok_def)
  have id: "task_id st0 = t" using Some ok by (auto simp: checkpoint_def dest: world_ok_row)
  have r: "resumable t ?st w" using ok(2) st [OF Some] by (simp add: resumable_def)
  have noted: "wp (event R t ty p) (\<lambda>_. work_kept) (\<lambda>_. work_kept) w'" if "work_kept w'" for w'
    by (rule wp_mono [OF relates_wpD [OF event_calm]]) (auto intro: calm_keeps that)
  have "wp (save_workflow (wf_now R) ?st (version ?st)) (\<lambda>st'. wp (event R (task_id st') ty p) (\<lambda>_. work_kept) (\<lambda>_. work_kept))
      (\<lambda>_. work_kept) w"
  proof (rule wp_mono [OF kept_save [OF k Some _ _ r]])
    fix st' w'
    assume saved: "st' = ?st\<lparr>version := version ?st + 1, updated_at := wf_now R\<rparr> \<and> kept_but {t} w' \<and> checkpoint w' t = Some st' \<and>
      tickets w' = tickets w \<and> approval_of w' = approval_of w"
    then have "work_kept w'" using assms(3) by (auto simp: terminal_def intro: kept_terminal)
    with saved show "wp (event R (task_id st') ty p) (\<lambda>_. work_kept) (\<lambda>_. work_kept) w'" using id by (simp add: noted)
  qed (simp_all add: id)
  with Some kept_terminal [OF k Some] show ?thesis
    by (simp add: wp_bindE wp_def [of "get_workflow _"] get_workflow_checkpoint wp_ret save_def store)
qed

abbreviation recovers :: "settings \<Rightarrow> queue_delivery \<Rightarrow> error \<Rightarrow> (world, unit) act" where
  \<comment> \<open>the \<open>except\<close> branches of a delivery\<close>
  "recovers c d e \<equiv> if is_retryable e then on_retryable R c d e else if is_permanent e then on_permanent R d e else raise e"

lemma kept_recovered:
  assumes w: "work_kept w" and i: "dl_id d = IdInt i" "(i, dl_task_id d, True, False) \<in> set (tickets w)"
    and b: "broken_off (dl_task_id d) w e w1"
  shows "wp (recovers c d e) (\<lambda>_. work_kept) (\<lambda>_. work_kept) w1"
proof -
  define t where "t = dl_task_id d"
  from b obtain st0 where g: "going t w st0 w1" by (auto simp: broken_off_def t_def)
  from going_kept [OF w g] have k: "kept_but {t} w1" and c1: "checkpoint w1 t = Some st0" and nd: "no_dead w1 t"
    and tk: "(i, t, True, False) \<in> set (tickets w1)" using i(2) by (simp_all add: t_def)
  have nw: "status st0 \<noteq> WAITING_FOR_APPROVAL" and ok: "rows_ok w1" using g k by (simp_all add: going_def kept_but_def)
  let ?r = "snd (retry_or_dead_letter pf (wf_now R) d (error_text e) (queue_retry_base_seconds c) w1)"
  let ?a = "snd (acknowledge pf (wf_now R) (IdInt i) w1)"
  have r: "reticketed i (\<not> exhausted d) (exhausted d) w1 ?r" by (rule reticketed_retry [OF ok i(1)])
  have a: "reticketed i False False w1 ?a" by (rule reticketed_acknowledge [OF ok])
  have kr: "kept_but {t} ?r" by (rule kept_reticketed [OF k r tk])
  have ka: "kept_but {t} ?a" by (rule kept_reticketed [OF k a tk])
  have provided: "provided t st w2" if "(i, t, True, False) \<in> set (tickets w2)" "no_dead w2 t" for st w2
    using that by (auto simp: provided_def waits_for_def)
  have "work_kept ?r" if "\<not> exhausted d"
    using that tk r by (intro kept_but_all [OF kr] provided no_dead_reticketed [OF _ nd]) (auto simp: reticketed_mem [OF r])
  moreover have "work_kept w1" by (intro kept_but_all [OF k] provided tk nd)
  moreover have "checkpoint ?r t = Some st0" "checkpoint ?a t = Some st0" using r a c1 by (simp_all add: reticketed_def)
  ultimately show ?thesis
    using kept_ended [OF kr, of DEAD_LETTERED] kept_ended [OF ka, of FAILED] nw
    by (simp add: on_retryable_def on_permanent_def store i(1) t_def [symmetric] wp_raise wp_ret
        wp_bindE [of "retry_or_dead_letter _ _ _ _ _"] wp_bindE [of "acknowledge _ _ _"] queue_returns)
qed

lemma kept_unknown_task:
  assumes w: "work_kept w" and i: "dl_id d = IdInt i" "(i, dl_task_id d, True, False) \<in> set (tickets w)"
    and none: "checkpoint w (dl_task_id d) = None" and e: "\<not> is_retryable e"
  shows "wp (recovers c d e) (\<lambda>_. work_kept) (\<lambda>_. work_kept) w"
proof -
  let ?a = "snd (acknowledge pf (wf_now R) (IdInt i) w)"
  have a: "reticketed i False False w ?a" by (rule reticketed_acknowledge) (use w in \<open>simp add: kept_but_def\<close>)
  have ka: "kept_but {dl_task_id d} ?a" by (rule kept_reticketed [OF kept_but_less [OF w] a i(2)])
  moreover have "checkpoint ?a (dl_task_id d) = None" using a none by (simp add: reticketed_def)
  ultimately show ?thesis
    using kept_ended [OF ka, of FAILED] w e
    by (simp add: on_permanent_def store i(1) wp_raise wp_bindE [of "acknowledge _ _ _"] queue_returns)
qed

lemma kept_deliver:
  assumes w: "work_kept w" and i: "dl_id d = IdInt i" "(i, dl_task_id d, True, False) \<in> set (tickets w)"
  shows "wp (deliver R c d) (\<lambda>_. work_kept) (\<lambda>_. work_kept) w"
proof -
  have good: "wp (acknowledge_and_requeue R c d st) (\<lambda>_. work_kept) E w1" if "settled (dl_task_id d) w st w1" for st w1 E
    by (rule wp_mono [OF kept_requeue [OF settled_finished [OF w that] i]]) simp_all
  show ?thesis
    unfolding deliver_def wp_try_catch wp_bindE [of "process R _"]
    by (rule wp_mono [OF settled_process [OF w]])
       (erule good, use kept_recovered [OF w i] kept_unknown_task [OF w i] in blast)
qed

end

end
