(* ===== verification/No_Lost_Work.thy ===== *)
theory No_Lost_Work
  imports Settled_Delivery Api_Laws
begin

text \<open>
  Whole requests keep the invariant of \<open>Complete_Delivery\<close> as well, so that complete runs lose no work and
  never give a workflow a second delivery.
\<close>

section \<open>Requests\<close>

lemma keptI: "(\<And>w. work_kept w \<Longrightarrow> wp m (\<lambda>_. work_kept) (\<lambda>_. work_kept) w) \<Longrightarrow> keeps work_kept m"
  by (rule relatesI) (simp add: wp_def split_beta split: sum.splits)

lemma kept_create: "keeps work_kept (create_incident (sqlite_store pf now) c now suffix request)"
proof (rule relatesI, rule impI)
  fix w
  assume w: "work_kept w"
  define t where "t = ''incident-'' @ suffix"
  define st where "st = new_workflow t (ci_goal request) (ci_scenario_id request) now"
  have st: "task_id st = t" "pending_action st = None" "status st = QUEUED" by (simp_all add: st_def new_workflow_def)
  let ?w = "snd (create_workflow now st (max_queue_attempts c) w)"
  have "work_kept ?w"
  proof (cases "find_workflow t w")
    case (Some r)
    with w st show ?thesis by (simp add: create_workflow_def)
  next
    case None
    have ok: "rows_ok w" using w by (simp add: kept_but_def)
    have fresh: "(i, t, a, d) \<notin> set (tickets w)" for i a d
      using ok None by (auto simp: rows_ok_def world_ok_def tickets_def)
    have more: "tickets ?w = tickets w @ [(next_queue_id w, t, True, False)]"
      using None st by (simp add: tickets_def create_workflow_def Let_def record_event_row_def insert_queue_row_def new_queue_row_def active_status_def)
    have cp: "checkpoint ?w = (checkpoint w)(t \<mapsto> st)" using checkpoint_create [of st w] None st by simp
    have ap: "approval_of ?w = approval_of w" by (rule view_cong) (rule create_workflow_frame)
    have "rows_ok ?w"
      using ok None st relatesD [OF keeps_ok_create, of w now st "max_queue_attempts c"]
      by (auto simp: rows_ok_def) (auto simp: create_workflow_def Let_def record_event_row_def insert_queue_row_def new_queue_row_def)
    moreover have "provided t' st' w \<Longrightarrow> provided t' st' ?w" for t' st'
      by (auto simp: provided_def no_dead_def waits_for_def more)
    moreover have "provided t st ?w"
      using fresh by (auto simp: provided_def no_dead_def waits_for_def more)
    moreover have "one_live ?w" using w fresh by (intro one_live_insert [OF _ more]) (simp_all add: kept_but_def live_def)
    ultimately show ?thesis
      using w st(2) by (auto simp: kept_but_def cp ap resumable_def)
  qed
  then show "work_kept (snd (create_incident (sqlite_store pf now) c now suffix request w))"
    using w unfolding create_incident_def Let_def t_def [symmetric] st_def [symmetric]
    by (auto simp: bindE_def ret_def raise_def split: prod.split sum.split)
qed

lemma kept_resolved:
  assumes w: "work_kept w" and c: "checkpoint w t = Some st" "status st = WAITING_FOR_APPROVAL"
    and p: "approval_of w t a = Some ''PENDING''"
  shows "work_kept (resolved_world now t a yes request w)"
proof -
  let ?w = "resolved_world now t a yes request w"
  have ok: "world_ok w" using w by (simp add: kept_but_def rows_ok_def)
  note res = resolved_world [OF ok p, of now yes request]
  have cp: "checkpoint ?w = checkpoint w" by (rule view_cong(1) [OF res(4)])
  have ap: "approval_of ?w t' = approval_of w t'" if "t' \<noteq> t" for t'
    using that p ok by (simp add: resolved_world_def resolve_approval_eq approval_of_resolve [OF p, where x = "if yes then A_APPROVED else A_REJECTED"])
  have "tickets ?w = tickets w" by (simp add: tickets_def res(5))
  moreover have "rows_ok ?w" using w res(2,5) by (simp add: kept_but_def rows_ok_def)
  ultimately show ?thesis
    using w c by (simp add: kept_but_def cp provided_def no_dead_def waits_for_def resumable_def one_live_def live_def)
      (metis ap option.inject)
qed

text \<open>A human's answer: the approval is resolved, the checkpoint saved, an event appended.\<close>

lemma kept_answered:
  fixes request :: approval_request
  assumes w: "work_kept w" and c: "checkpoint w t = Some st" "status st = WAITING_FOR_APPROVAL" "pending_action st = Some p"
    and st': "task_id st' = t" "version st' = version st"
    and to: "status st' = QUEUED \<and> yes \<and> pending_action st' = Some p \<or> terminal st' \<and> pending_action st' = None"
    and goes_on: "\<And>w' s. kept_but {t} w' \<Longrightarrow> checkpoint w' t = Some s \<Longrightarrow> no_dead w' t \<Longrightarrow> task_id s = t \<Longrightarrow>
      status s = status st' \<Longrightarrow> wp (m s) (\<lambda>_. work_kept) (\<lambda>_. work_kept) w'"
  shows "wp (bindE (resolve_approval now t (action_id p) yes (ap_actor request) (ap_reason request)) (\<lambda>_.
      bindE (save_workflow now st' (version st)) (\<lambda>st'. bindE (record_event now t ty x) (\<lambda>_. m st'))))
    (\<lambda>_. work_kept) (\<lambda>_. work_kept) w"
proof (cases "approval_of w t (action_id p) = Some ''PENDING''")
  case False
  then show ?thesis
    using w by (simp add: wp_bindE wp_def [of "resolve_approval _ _ _ _ _ _"] resolve_approval_eq kept_but_def rows_ok_def)
next
  case True
  let ?w = "resolved_world now t (action_id p) yes request w"
  have ok: "world_ok w" using w by (simp add: kept_but_def rows_ok_def)
  note res = resolved_world [OF ok True, of now yes request]
  have k: "work_kept ?w" by (rule kept_resolved [OF w c(1,2) True])
  have cp: "checkpoint ?w t = Some st" using view_cong(1) [OF res(4)] c(1) by simp
  have r: "resumable t st' ?w" using to res(3) by (auto simp: resumable_def)
  have "provided t st ?w" using k cp by (simp add: kept_but_def)
  then have nd: "no_dead ?w t" using c(2) by (simp add: provided_def terminal_def)
  have "wp (save_workflow now st' (version st')) (\<lambda>st'. wp (bindE (record_event now t ty x) (\<lambda>_. m st')) (\<lambda>_. work_kept) (\<lambda>_. work_kept))
      (\<lambda>_. work_kept) ?w"
  proof (rule wp_mono [OF kept_save [OF kept_but_less [OF k] cp st' r]])
    fix s w2
    assume s: "s = st'\<lparr>version := version st' + 1, updated_at := now\<rparr> \<and> kept_but {t} w2 \<and> checkpoint w2 t = Some s \<and>
      tickets w2 = tickets ?w \<and> approval_of w2 = approval_of ?w"
    let ?w3 = "snd (record_event now t ty x w2)"
    have calm: "calm w2 ?w3" by (rule relatesD [OF calm_event])
    have "kept_but {t} ?w3" using calm_keeps [OF calm] s by blast
    moreover have "checkpoint ?w3 t = Some s" "no_dead ?w3 t" using calm s nd by (simp_all add: calm_def no_dead_def)
    ultimately have "wp (m s) (\<lambda>_. work_kept) (\<lambda>_. work_kept) ?w3" by (rule goes_on) (simp_all add: s st')
    then show "wp (bindE (record_event now t ty x) (\<lambda>_. m s)) (\<lambda>_. work_kept) (\<lambda>_. work_kept) w2"
      by (simp add: wp_bindE wp_def [of "record_event _ _ _ _"] record_event_def)
  qed (rule FalseE)
  then show ?thesis
    using st'(2) by (simp add: wp_bindE [of "resolve_approval _ _ _ _ _ _"] wp_bindE [of "save_workflow _ _ _"]
      wp_def [of "resolve_approval _ _ _ _ _ _"] res(1))
qed

lemma kept_approve: "keeps work_kept (approve (sqlite_store pf now) c t request)"
proof (rule keptI)
  fix w
  assume w: "work_kept w"
  show "wp (approve (sqlite_store pf now) c t request) (\<lambda>_. work_kept) (\<lambda>_. work_kept) w"
  proof (cases "\<exists>st p. checkpoint w t = Some st \<and> status st = WAITING_FOR_APPROVAL \<and> pending_action st = Some p")
    case True
    then obtain st p where st: "checkpoint w t = Some st" "status st = WAITING_FOR_APPROVAL" "pending_action st = Some p" by blast
    then have id: "task_id st = t" using w by (auto simp: kept_but_def rows_ok_def checkpoint_def dest: world_ok_row)
    have woken: "wp (bindE (enqueue now t (max_queue_attempts c) []) (\<lambda>_. ret s)) (\<lambda>_. work_kept) (\<lambda>_. work_kept) w'"
      if "kept_but {t} w'" "checkpoint w' t = Some s'" "no_dead w' t" for w' s s'
      unfolding wp_bindE wp_ret
      by (rule wp_mono [OF enqueue_provides [OF that(1) _ that(3)]], simp add: that(2), rule kept_but_all)
         (use that in \<open>auto simp: provided_def\<close>)
    have "wp (bindE (resolve_approval now t (action_id p) True (ap_actor request) (ap_reason request)) (\<lambda>_.
        bindE (save_workflow now (st\<lparr>status := QUEUED\<rparr>) (version st)) (\<lambda>st'.
        bindE (record_event now t ''APPROVAL_GRANTED'' (actor_payload request)) (\<lambda>_.
        bindE (enqueue now t (max_queue_attempts c) []) (\<lambda>_. ret st')))))
      (\<lambda>_. work_kept) (\<lambda>_. work_kept) w"
      by (rule kept_answered [OF w st]) (simp_all add: id st(3) woken)
    with w st show ?thesis
      by (simp add: approve_def wp_raise wp_bindE [of "required _ _"] wp_def [of "required _ _"] required_eq)
  next
    case False
    with w show ?thesis
      by (auto simp: approve_def wp_raise wp_bindE wp_def [of "required _ _"] required_eq split: option.split bool.split)
  qed
qed

lemma kept_reject: "keeps work_kept (reject (sqlite_store pf now) t request)"
proof (rule keptI)
  fix w
  assume w: "work_kept w"
  show "wp (reject (sqlite_store pf now) t request) (\<lambda>_. work_kept) (\<lambda>_. work_kept) w"
  proof (cases "\<exists>st p. checkpoint w t = Some st \<and> status st = WAITING_FOR_APPROVAL \<and> pending_action st = Some p")
    case True
    then obtain st p where st: "checkpoint w t = Some st" "status st = WAITING_FOR_APPROVAL" "pending_action st = Some p" by blast
    then have id: "task_id st = t" using w by (auto simp: kept_but_def rows_ok_def checkpoint_def dest: world_ok_row)
    have "wp (bindE (resolve_approval now t (action_id p) False (ap_actor request) (ap_reason request)) (\<lambda>_.
        bindE (save_workflow now (st\<lparr>status := HUMAN_REJECTED, last_error := Some (rejection_text (ap_reason request)),
            pending_action := None\<rparr>) (version st)) (\<lambda>st'.
        bindE (record_event now t ''APPROVAL_REJECTED'' (actor_payload request)) (\<lambda>_. ret st'))))
      (\<lambda>_. work_kept) (\<lambda>_. work_kept) w"
      by (rule kept_answered [OF w st]) (simp_all add: id wp_ret kept_terminal terminal_def)
    with w st show ?thesis
      by (simp add: reject_def wp_raise wp_bindE [of "required _ _"] wp_def [of "required _ _"] required_eq)
  next
    case False
    with w show ?thesis
      by (auto simp: reject_def wp_raise wp_bindE wp_def [of "required _ _"] required_eq split: option.split bool.split)
  qed
qed

text \<open>A replay gives an ended workflow its dead letter revived as a delivery.\<close>

lemma replayed_tickets:
  assumes q: "queue w' = update_where (\<lambda>r. id_matches pf did (q_id r) \<and> q_status r = Q_DEAD) (replayed_row now m) (queue w)"
  shows "(j, x, a, True) \<in> set (tickets w') \<Longrightarrow> (j, x, a, True) \<in> set (tickets w) \<and> \<not> id_matches pf did j"
    and "(j, x, True, False) \<in> set (tickets w) \<Longrightarrow> (j, x, True, False) \<in> set (tickets w')"
    and "(j, x, a, True) \<in> set (tickets w) \<Longrightarrow> id_matches pf did j \<Longrightarrow> (j, x, True, False) \<in> set (tickets w')"
    and "live w' x j \<Longrightarrow> live w x j"
proof -
  let ?P = "\<lambda>r. id_matches pf did (q_id r) \<and> q_status r = Q_DEAD"
  have "tickets w' = map (\<lambda>r. (q_id r, q_task_id r, ?P r \<or> active_status (q_status r), \<not> ?P r \<and> q_status r = Q_DEAD)) (queue w)"
    by (auto simp: tickets_def q update_where_def replayed_row_def active_status_def)
  then have new: "(j, x, a, d) \<in> set (tickets w') \<longleftrightarrow> (\<exists>r \<in> set (queue w). j = q_id r \<and> x = q_task_id r \<and>
      a = (?P r \<or> active_status (q_status r)) \<and> d = (\<not> ?P r \<and> q_status r = Q_DEAD))" for a d
    by auto
  have old: "(j, x, a, d) \<in> set (tickets w) \<longleftrightarrow> (\<exists>r \<in> set (queue w). j = q_id r \<and> x = q_task_id r \<and>
      a = active_status (q_status r) \<and> d = (q_status r = Q_DEAD))" for a d
    by (auto simp: tickets_def)
  show "(j, x, a, True) \<in> set (tickets w') \<Longrightarrow> (j, x, a, True) \<in> set (tickets w) \<and> \<not> id_matches pf did j"
    "(j, x, True, False) \<in> set (tickets w) \<Longrightarrow> (j, x, True, False) \<in> set (tickets w')"
    "(j, x, a, True) \<in> set (tickets w) \<Longrightarrow> id_matches pf did j \<Longrightarrow> (j, x, True, False) \<in> set (tickets w')"
    "live w' x j \<Longrightarrow> live w x j"
    unfolding live_def new old by (auto simp: active_status_def)
qed

lemma resumable_replayed:
  "resumable t st w \<Longrightarrow> terminal st \<Longrightarrow> approval_of w' = approval_of w \<Longrightarrow> resumable t (replayed_state now st) w'"
  by (auto simp: resumable_def replayed_state_def terminal_def)

lemma kept_change:
  assumes w: "work_kept w" and "rows_ok w'" and cp: "checkpoint w' = (checkpoint w)(t \<mapsto> s)" and "approval_of w' = approval_of w"
    and "provided t s w'" and "resumable t s w'" and "\<And>x s. provided x s w \<Longrightarrow> provided x s w'"
    and live: "\<And>x j. live w' x j \<Longrightarrow> live w x j"
  shows "work_kept w'"
proof -
  note w = w [unfolded kept_but_def]
  have "provided x st w' \<and> resumable x st w'" if "checkpoint w' x = Some st" for x st
    using that assms(4-7) w by (cases "x = t") (simp_all add: cp resumable_def)
  moreover have "one_live w'"
    by (rule one_live_less [OF conjunct2 [OF conjunct2 [OF w]] live])
  ultimately show ?thesis unfolding kept_but_def using assms(2) by blast
qed

lemma kept_replay: "keeps work_kept (replay_dead_letter pf now did t m who why)"
proof (rule relatesI, rule impI)
  fix w
  assume w: "work_kept w"
  then have ok: "rows_ok w" "world_ok w" by (simp_all add: kept_but_def rows_ok_def)
  show "work_kept (snd (replay_dead_letter pf now did t m who why w))"
  proof (cases "find (dead_row pf did t) (queue w) = None \<or> checkpoint w t = None")
    case True
    then show ?thesis using w by (auto simp: replay_eq [OF ok(2)] split: option.split)
  next
    case False
    then obtain row st where row: "find (dead_row pf did t) (queue w) = Some row" and st: "checkpoint w t = Some st" by auto
    let ?w1 = "put_workflow now (replayed_state now st) w"
    let ?f = "replayed_row now m" and ?P = "\<lambda>r. id_matches pf did (q_id r) \<and> q_status r = Q_DEAD"
    let ?w2 = "?w1\<lparr>queue := update_where ?P ?f (queue ?w1)\<rparr>"
    have eq: "snd (replay_dead_letter pf now did t m who why w) = snd (record_event now t ''DLQ_REPLAYED''
        [(''delivery_id'', json_of_id did), (''actor'', JStr who), (''reason'', JStr why)] ?w2)"
      using row st by (simp add: replay_eq [OF ok(2)] Let_def record_event_def)
    have at: "row \<in> set (queue w)" "id_matches pf did (q_id row)" "q_task_id row = t" "q_status row = Q_DEAD"
      using find_SomeD [OF row] by (simp_all add: dead_row_def)
    have id: "task_id st = t" using st ok by (auto simp: checkpoint_def dest: world_ok_row)
    have cp: "checkpoint ?w2 = (checkpoint w)(t \<mapsto> replayed_state now st)"
      using view_cong(1) [of ?w2 ?w1] st id by (simp add: checkpoint_put replayed_state_def)
    have ap: "approval_of ?w2 = approval_of w" by (rule view_cong) simp
    have "queue ?w2 = update_where ?P ?f (queue w)" by simp
    note dead = replayed_tickets(1) [OF this] and active = replayed_tickets(2) [OF this] and revived = replayed_tickets(3) [OF this]
      and live = replayed_tickets(4) [OF this]
    have mine: "(q_id row, t, False, True) \<in> set (tickets w)"
      using at by (force simp: tickets_def active_status_def)
    then have "(q_id row, t, True, False) \<in> set (tickets ?w2)" by (rule revived [OF _ at(2)])
    moreover have "no_dead ?w2 t" unfolding no_dead_def
    proof (intro allI notI)
      fix j a
      assume "(j, t, a, True) \<in> set (tickets ?w2)"
      then have j: "(j, t, a, True) \<in> set (tickets w)" "\<not> id_matches pf did j" using dead by blast+
      have "j = q_id row" by (rule one_liveD [of w t]) (use w j(1) mine in \<open>auto simp: kept_but_def live_def\<close>)
      with j(2) at(2) show False by simp
    qed
    ultimately have "provided t s ?w2" for s by (auto simp: provided_def waits_for_def)
    moreover have "provided x s w \<Longrightarrow> provided x s ?w2" for x s
      using dead active unfolding provided_def no_dead_def waits_for_def by blast
    moreover have "terminal st" using w st mine by (auto simp: kept_but_def provided_def no_dead_def)
    then have "resumable t (replayed_state now st) ?w2"
      using w st by (intro resumable_replayed [OF _ _ ap]) (simp_all add: kept_but_def)
    moreover have "world_ok ?w1" using st ok id by (simp add: world_ok_put replayed_state_def)
    then have "world_ok ?w2" by (rule world_ok_update_queue) (auto simp: queue_step_def replayed_row_def)
    then have "rows_ok ?w2" using ok by (auto simp: rows_ok_def set_update_where replayed_row_def)
    ultimately have "work_kept ?w2"
      using live by (intro kept_change [OF w _ cp ap]) simp_all
    then show ?thesis unfolding eq by (rule calm_keeps [OF relatesD [OF calm_event]])
  qed
qed

section \<open>Whole requests, deliveries and beats\<close>

lemma calm_kept: "relates calm m \<Longrightarrow> keeps work_kept m"
  by (auto simp: relates_def intro: calm_keeps)

lemma kept_reader: "(\<And>w. snd (m w) = w) \<Longrightarrow> keeps work_kept m"
  by (simp add: relates_def)

context undisturbed
begin

lemma kept_run_once: "keeps work_kept (run_once R c wk)"
proof (rule relatesI, rule impI)
  fix w
  assume w: "work_kept w"
  obtain r w1 where claimed: "claim (wf_now R) wk (queue_lease_seconds c) w = (r, w1)" by fastforce
  then have w1: "work_kept w1" using calm_keeps [OF relatesD [OF calm_claim, of w] w] by (metis snd_conv)
  show "work_kept (snd (run_once R c wk w))"
  proof (cases "\<exists>d. r = Inr (Some d)")
    case False
    with claimed w1 show ?thesis
      by (cases r) (auto simp: run_once_def store bindE_def ret_def queue_counts_def split: option.split)
  next
    case True
    then obtain d where d: "r = Inr (Some d)" by blast
    obtain i where i: "dl_id d = IdInt i" "(i, dl_task_id d, True, False) \<in> set (tickets w1)"
      using claimed_ticket [OF claimed [unfolded d]] by blast
    obtain r2 w2 where r2: "deliver R c d w1 = (r2, w2)" by fastforce
    with kept_deliver [OF w1 i, of c] have "work_kept w2" by (cases r2) (simp_all add: wp_def)
    moreover have "snd (await_heartbeat (wf_heartbeat R) (deliver R c d) w1) = w2"
      using r2 by (cases "wf_heartbeat R") simp_all
    ultimately show ?thesis
      using claimed d by (auto simp: run_once_def store bindE_def ret_def queue_counts_def split: prod.split sum.split)
  qed
qed

lemma kept_heartbeat: "keeps work_kept (heartbeat R c wk d)"
  unfolding heartbeat_def store
  by (intro calm_kept calmly.relates_rules) (simp_all add: calm_extend event_calm)

lemma kept_handle: "keeps work_kept (handle R c wk suffix auth call)"
proof -
  have replayed: "keeps work_kept (Api.replay (sqlite_store pf (wf_now R)) c request)" for request
    unfolding replay_def sqlite_store_simps by (intro keeping.relates_rules kept_replay)
  have reads: "keeps work_kept (handle R c wk suffix auth call)" if "\<not> changes_state call"
    using that
    by (intro kept_reader, cases call)
       (simp_all add: store and_reply_snd as_viewer_snd reading_handlers, simp_all add: and_reply_def prog_defs split: sum.split)
  show ?thesis
    using reads
    by (cases call)
       (auto simp: as_admin_def and_reply_def store
         intro!: keeping.relates_rules kept_create kept_approve kept_reject replayed kept_run_once)
qed

end

section \<open>Complete runs\<close>

text \<open>
  One step is a whole request, a whole delivery or a whole beat, by any application or worker, at any time,
  with any settings and answers; whether the heartbeat task of a delivery failed does not matter.
\<close>

inductive complete_step :: "world \<Rightarrow> world \<Rightarrow> bool" where
  request: "undisturbed R \<Longrightarrow> complete_step w (snd (handle R c wk suffix auth call w))"
| delivery: "undisturbed R \<Longrightarrow> complete_step w (snd (run_once R c wk w))"
| beat: "undisturbed R \<Longrightarrow> complete_step w (snd (heartbeat R c wk d w))"

lemma complete_step_kept: "complete_step w w' \<Longrightarrow> work_kept w \<Longrightarrow> work_kept w'"
  by (induction rule: complete_step.induct)
     (auto dest: relatesD [OF undisturbed.kept_handle] relatesD [OF undisturbed.kept_run_once]
       relatesD [OF undisturbed.kept_heartbeat])

lemma kept_empty: "work_kept empty_world"
  by (simp add: kept_but_def rows_ok_def world_ok_empty checkpoint_def find_workflow_def tickets_def one_live_def live_def)
     (simp add: empty_world_def)

lemma complete_runs_kept: "complete_step\<^sup>*\<^sup>* empty_world w \<Longrightarrow> work_kept w"
  by (induction rule: rtranclp_induct) (auto intro: kept_empty complete_step_kept)

text \<open>An active delivery is claimable once its lease or its delay is over.\<close>

lemma active_becomes_claimable:
  assumes "rows_ok w" and r: "r \<in> set (queue w)" "active_row t r"
  shows "\<exists>T. \<forall>now \<ge> T. \<exists>r' \<in> set (release_expired now (queue w)). q_task_id r' = t \<and> claimable now r'"
proof (cases "q_status r = Q_PENDING")
  case True
  then have "r \<in> set (release_expired now (queue w))" for now
    using r by (auto simp: set_release_expired lease_expired_def intro!: bexI [of _ r])
  then show ?thesis
    using True r by (intro exI [of _ "q_available_at r"]) (auto simp: claimable_def active_row_def)
next
  case False
  then have p: "q_status r = Q_PROCESSING" using r by (simp add: active_row_def active_status_def)
  then obtain l where l: "q_lease_until r = Some l" using assms by (auto simp: rows_ok_def)
  show ?thesis
  proof (intro exI [of _ "max (l + 1) (q_available_at r)"] allI impI)
    fix now
    let ?r = "r\<lparr>q_status := Q_PENDING, q_worker_id := None, q_lease_until := None, q_updated_at := now\<rparr>"
    assume now: "max (l + 1) (q_available_at r) \<le> now"
    with p l have "lease_expired now r" by (simp add: lease_expired_def)
    with r(1) have "?r \<in> set (release_expired now (queue w))" by (auto simp: set_release_expired)
    then show "\<exists>r' \<in> set (release_expired now (queue w)). q_task_id r' = t \<and> claimable now r'"
      by (rule bexI [rotated]) (use now r(2) in \<open>simp add: claimable_def active_row_def\<close>)
  qed
qed

lemma claimable_claimed:
  assumes "r \<in> set (release_expired now (queue w))" and "claimable now r"
  shows "\<exists>d w'. claim now wk ls w = (Inr (Some d), w')"
proof -
  have "find (claimable now) (release_expired now (queue w)) \<noteq> None"
    using assms by (auto simp: find_None_iff)
  then show ?thesis by (auto simp: claim_def Let_def)
qed

text \<open>
  C13: No work is lost in complete runs. Whatever whole requests, deliveries and beats there have been, a
  workflow that has not ended and does not wait for a human has a delivery that, from some time on, can be
  claimed, so that from then on a worker that asks is given work.
\<close>

theorem no_work_lost:
  assumes "complete_step\<^sup>*\<^sup>* empty_world w" and "checkpoint w t = Some st"
    and "\<not> terminal st" and "status st \<noteq> WAITING_FOR_APPROVAL"
  shows "\<exists>T. \<forall>now \<ge> T. (\<exists>r \<in> set (release_expired now (queue w)). q_task_id r = t \<and> claimable now r) \<and>
    (\<exists>d w'. claim now wk ls w = (Inr (Some d), w'))"
proof -
  from assms(1) have k: "work_kept w" by (rule complete_runs_kept)
  with assms(2-4) have "waits_for w t" by (auto simp: kept_but_def provided_def)
  then obtain r where "r \<in> set (queue w)" "active_row t r" by (auto simp: waits_for_active)
  with k obtain T where "\<forall>now \<ge> T. \<exists>r' \<in> set (release_expired now (queue w)). q_task_id r' = t \<and> claimable now r'"
    using active_becomes_claimable [of w r t] by (auto simp: kept_but_def)
  then show ?thesis using claimable_claimed by blast
qed

text \<open>
  C27: A workflow never has two deliveries in complete runs: whatever whole requests - replays of dead letters
  included -, deliveries - retries included - and beats there have been, two rows of the queue that belong to
  one workflow and are not completed are the same row. Deliveries that overlap can break this: a worker that
  lost its lease changes its row by the id alone, whatever became of it.
\<close>

theorem one_delivery_per_workflow:
  assumes "complete_step\<^sup>*\<^sup>* empty_world w" and "r \<in> set (queue w)" and "r' \<in> set (queue w)"
    and "q_task_id r = q_task_id r'" and "q_status r \<noteq> Q_COMPLETED" and "q_status r' \<noteq> Q_COMPLETED"
  shows "r = r'"
proof -
  have k: "rows_ok w" "one_live w" using complete_runs_kept [OF assms(1)] by (simp_all add: kept_but_def)
  have live: "active_status (q_status x) \<or> q_status x = Q_DEAD" if "q_status x \<noteq> Q_COMPLETED" for x
    using that by (cases "q_status x") (simp_all add: active_status_def)
  then have "live w (q_task_id x) (q_id x)" if "x \<in> set (queue w)" "q_status x \<noteq> Q_COMPLETED" for x
    unfolding live_def
  proof (intro exI conjI)
    show "(q_id x, q_task_id x, active_status (q_status x), q_status x = Q_DEAD) \<in> set (tickets w)"
      unfolding tickets_def set_map using that(1) by (rule imageI)
  qed (rule live [OF that(2)])
  then have "q_id r = q_id r'" using one_liveD [OF k(2), of "q_task_id r" "q_id r" "q_id r'"] assms(2-6) by metis
  with k(1) assms(2,3) show ?thesis by (auto simp: rows_ok_def intro: queue_ids_unique)
qed

text \<open>
  The runtime of the command-line worker over the scenario files is undisturbed, whatever its heartbeat does.
  After two of its deliveries a new incident has one piece of evidence and waits for a delayed retry: nothing
  can be claimed at that moment, but later on it can.
\<close>

interpretation standalone: undisturbed
  "(make_runtime pf c (sqlite_store pf now) (deterministic_engine pf) (scenario_backend pf fixtures) (\<lambda>_. ret ()) now)
     \<lparr>wf_heartbeat := hb\<rparr>" for pf c fixtures now hb
  by unfold_locales
     (simp_all add: make_runtime_def deterministic_engine_def scenario_backend_def calmly.relates_rules)

definition standalone_request :: "call \<Rightarrow> world \<Rightarrow> world" where
  "standalone_request call w = snd (handle (make_runtime sample_platform default_settings (sqlite_store sample_platform 0)
     (deterministic_engine sample_platform) (scenario_backend sample_platform scenario_fixtures) (\<lambda>_. ret ()) 0)
     default_settings ''w'' ''1'' None call w)"

lemma standalone_step: "complete_step w (standalone_request call w)"
  unfolding standalone_request_def
  by (rule complete_step.request) (rule standalone.undisturbed_axioms [where hb = None, unfolded make_runtime_simps])

definition half_processed :: world where
  "half_processed = standalone_request Post_Run_Once (standalone_request Post_Run_Once (standalone_request
     (Post_Incident \<lparr>ci_goal = ''restore checkout'', ci_scenario_id = ''checkout-pool-exhaustion''\<rparr>) empty_world))"

lemma half_processed_run: "complete_step\<^sup>*\<^sup>* empty_world half_processed"
  unfolding half_processed_def by (rule rtranclp.intros | rule standalone_step)+

theorem no_work_lost_witness:
  "fst (claim 0 ''w'' 60 half_processed) = Inr None \<and>
   (\<exists>T. \<forall>now \<ge> T. \<exists>d w'. claim now ''w'' 60 half_processed = (Inr (Some d), w'))"
proof -
  note half_processed_run
  moreover have st: "map_option (\<lambda>st. (status st, tool_calls st)) (checkpoint half_processed ''incident-1'') = Some (QUEUED, 1)"
    by code_simp
  then obtain st where "checkpoint half_processed ''incident-1'' = Some st" "status st = QUEUED" by auto
  ultimately have "\<exists>T. \<forall>now \<ge> T. \<exists>d w'. claim now ''w'' 60 half_processed = (Inr (Some d), w')"
    using no_work_lost [of half_processed "''incident-1''" st "''w''" 60] by (auto simp: terminal_def)
  moreover have "fst (claim 0 ''w'' 60 half_processed) = Inr None" by code_simp
  ultimately show ?thesis by blast
qed

text \<open>There the queue has three rows of the incident; two are completed.\<close>

theorem one_delivery_per_workflow_witness:
  "map (\<lambda>r. (q_id r, q_task_id r)) (queue half_processed) = [(1, ''incident-1''), (2, ''incident-1'')] \<and>
   \<not> (\<exists>r \<in> set (queue half_processed). \<exists>r' \<in> set (queue half_processed).
      q_id r \<noteq> q_id r' \<and> q_status r \<noteq> Q_COMPLETED \<and> q_status r' \<noteq> Q_COMPLETED)"
proof (intro conjI notI)
  show ids: "map (\<lambda>r. (q_id r, q_task_id r)) (queue half_processed) = [(1, ''incident-1''), (2, ''incident-1'')]" by code_simp
  assume "\<exists>r \<in> set (queue half_processed). \<exists>r' \<in> set (queue half_processed).
      q_id r \<noteq> q_id r' \<and> q_status r \<noteq> Q_COMPLETED \<and> q_status r' \<noteq> Q_COMPLETED"
  then obtain r r' where r: "r \<in> set (queue half_processed)" "r' \<in> set (queue half_processed)" "q_id r \<noteq> q_id r'"
    "q_status r \<noteq> Q_COMPLETED" "q_status r' \<noteq> Q_COMPLETED" by blast
  have "list_all (\<lambda>x. q_task_id x = ''incident-1'') (queue half_processed)" by code_simp
  with r(1,2) have "q_task_id r = q_task_id r'" by (simp only: list_all_iff)
  from one_delivery_per_workflow [OF half_processed_run r(1,2) this r(4,5)] r(3) show False by simp
qed

end
