(* ===== verification/Telemetry.thy ===== *)
theory Telemetry
  imports Api Fixtures
begin

text \<open>
  \<open>agent_resilience/metrics.py\<close>, \<open>observability.py\<close> and the queue gauge of \<open>worker.py\<close>. CloudWatch is the
  call \<open>put_metric_data\<close> of a client, a parameter; the module's two globals are a record. The queue gauge of
  Prometheus is a map from its label to the number last set.
\<close>

section \<open>CloudWatch\<close>

record cloudwatch_datum =
  cw_name :: string
  cw_value :: rat
  cw_unit :: string
  cw_dimensions :: "(string \<times> string) list"

type_synonym 's put_metric_data = "string \<Rightarrow> cloudwatch_datum \<Rightarrow> ('s, unit) act"

record 's telemetry =
  te_client :: "'s put_metric_data option"
  te_namespace :: string

definition initial_telemetry :: "'s telemetry" where
  "initial_telemetry = \<lparr>te_client = None, te_namespace = ''AgentResilience''\<rparr>"

definition configure_cloudwatch_metrics ::
  "settings \<Rightarrow> (string \<Rightarrow> string option \<Rightarrow> error + 's put_metric_data) \<Rightarrow> 's telemetry \<Rightarrow>
    (error + unit) \<times> 's telemetry" where
  \<comment> \<open>\<open>client region endpoint\<close> is \<open>boto3.client("cloudwatch", ...)\<close>\<close>
  "configure_cloudwatch_metrics c client T =
     (let T = T\<lparr>te_namespace := cloudwatch_metric_namespace c\<rparr>
      in if \<not> cloudwatch_metrics_enabled c then (Inr (), T\<lparr>te_client := None\<rparr>)
         else (case client (aws_region c) (if truthy_text (aws_endpoint_url c) then aws_endpoint_url c else None) of
             Inl e \<Rightarrow> (Inl e, T)
           | Inr put \<Rightarrow> (Inr (), T\<lparr>te_client := Some put\<rparr>)))"

definition emit_metric :: "'s telemetry \<Rightarrow> string \<Rightarrow> rat \<Rightarrow> (string \<times> string) list \<Rightarrow> ('s, unit) act" where
  "emit_metric T name value dimensions =
     (case te_client T of
        None \<Rightarrow> ret ()
      | Some put \<Rightarrow>
          try_catch
            (put (te_namespace T)
              \<lparr>cw_name = name, cw_value = value,
               cw_unit = (if name = ''DecisionLatency'' then ''Seconds'' else ''Count''),
               cw_dimensions = dimensions\<rparr>)
            (\<lambda>_. ret ()))"

text \<open>
  Telemetry never breaks a workflow: whatever the client does, emitting returns, and it changes only what the
  client changes. So a program with a metric emitted before any part of it returns what it returns without.
\<close>

lemma emit_metric_returns: "fst (emit_metric T name value dims s) = Inr ()"
  by (auto simp: emit_metric_def ret_def try_catch_def split: option.split prod.split sum.split)

lemma emit_metric_relates:
  assumes "guarantee G" and "\<And>put ns d. te_client T = Some put \<Longrightarrow> relates G (put ns d)"
  shows "relates G (emit_metric T name value dims)"
proof (cases "te_client T")
  case None
  then show ?thesis by (simp add: emit_metric_def guarantee.relates_ret [OF assms(1)])
next
  case (Some put)
  have "relates G (try_catch (put ns d) (\<lambda>_. ret ()))" for ns d
    by (rule guarantee.relates_try_catch [OF assms(1) assms(2) [OF Some] guarantee.relates_ret [OF assms(1)]])
  then show ?thesis by (simp add: emit_metric_def Some)
qed

interpretation unchanged: guarantee "\<lambda>s t. fst s = fst t"
  by unfold_locales auto

definition beside :: "('s, 'a) act \<Rightarrow> ('s \<times> 'u, 'a) act" where
  \<comment> \<open>a program next to the state \<open>'u\<close> of the services that take metrics\<close>
  "beside m = (\<lambda>(w, u). let (r, w') = m w in (r, (w', u)))"

lemma emit_metric_transparent:
  assumes "\<And>put ns d. te_client T = Some put \<Longrightarrow> relates (\<lambda>s t. fst s = fst t) (put ns d)"
  shows "\<exists>u'. bindE (emit_metric T name value dims) (\<lambda>_. beside m) (w, u) = (fst (m w), (snd (m w), u'))"
proof -
  have "relates (\<lambda>s t. fst s = fst t) (emit_metric T name value dims)"
    by (rule emit_metric_relates [OF unchanged.guarantee_axioms]) (rule assms)
  then have "fst (snd (emit_metric T name value dims (w, u))) = w" by (auto simp: relates_def)
  moreover have "fst (emit_metric T name value dims (w, u)) = Inr ()" by (rule emit_metric_returns)
  ultimately obtain u' where "emit_metric T name value dims (w, u) = (Inr (), (w, u'))"
    by (metis prod.collapse)
  then show ?thesis by (auto simp: bindE_Inr beside_def split: prod.split)
qed

section \<open>The queue gauge\<close>

type_synonym gauge = "string \<Rightarrow> int option"

fun set_depths :: "'s telemetry \<Rightarrow> (string \<times> int) list \<Rightarrow> gauge \<Rightarrow> ('s, gauge) act" where
  "set_depths T [] g = ret g"
| "set_depths T ((label, n) # counts) g =
     (let g = g(label \<mapsto> n)
      in bindE (emit_metric T ''QueueDepth'' (of_int n) [(''status'', label)]) (\<lambda>_. set_depths T counts g))"

definition update_depth :: "'s runtime_store \<Rightarrow> 's telemetry \<Rightarrow> gauge \<Rightarrow> ('s, gauge) act" where
  "update_depth S T g = bindE (rs_queue_counts S) (\<lambda>counts. set_depths T counts g)"

lemma set_depths_returns: "fst (set_depths T counts g s) = Inr (g ++ map_of (rev counts))"
proof (induction counts arbitrary: g s)
  case (Cons nc counts)
  obtain label n where nc: "nc = (label, n)" by fastforce
  let ?e = "emit_metric T ''QueueDepth'' (of_int n) [(''status'', label)] s"
  have "?e = (Inr (), snd ?e)" using emit_metric_returns [of T _ _ _ s] by (metis prod.collapse)
  then have "fst (set_depths T (nc # counts) g s) = Inr (g(label \<mapsto> n) ++ map_of (rev counts))"
    using Cons.IH by (simp add: nc bindE_Inr del: fun_upd_apply)
  moreover have "g(label \<mapsto> n) ++ map_of (rev counts) = g ++ map_of (rev (nc # counts))"
    by (simp add: nc map_add_def fun_eq_iff split: option.split)
  ultimately show ?case by simp
qed (simp add: ret_def)

text \<open>
  The gauge of a label that the counts do not name keeps its number: on SQLite, where the counts name only
  the states that some row is in, the depth of a state that has emptied stays at what it last was.
\<close>

lemma gauge_goes_stale:
  assumes "fst (rs_queue_counts S s) = Inr counts" and "label \<notin> fst ` set counts"
  shows "\<exists>g'. fst (update_depth S T g s) = Inr g' \<and> g' label = g label"
proof -
  have "rs_queue_counts S s = (Inr counts, snd (rs_queue_counts S s))" using assms(1) by (metis prod.collapse)
  then have "fst (update_depth S T g s) = Inr (g ++ map_of (rev counts))"
    by (simp add: update_depth_def bindE_Inr set_depths_returns)
  moreover have "map_of (rev counts) label = None" using assms(2) by (simp add: map_of_eq_None_iff)
  ultimately show ?thesis by (simp add: map_add_def)
qed

section \<open>Tracing\<close>

definition configure_otel :: "settings \<Rightarrow> bool \<Rightarrow> bool" where
  \<comment> \<open>whether the exporter is installed, given whether its packages are\<close>
  "configure_otel c importable = (truthy_text (otel_exporter_otlp_endpoint c) \<and> importable)"

end
