(* ===== verification/Lifecycle.thy ===== *)
theory Lifecycle
  imports Delivery Telemetry
begin

text \<open>
  How the processes come up and go down: the worker process of \<open>worker.py\<close>, and the application of
  \<open>api.py\<close>, whose \<open>lifespan\<close> may run a worker as a task of its event loop beside the requests.
\<close>

section \<open>Building a worker\<close>

definition build_worker :: "settings \<Rightarrow> error + (store_kind \<times> engine_kind \<times> tool_backend_kind)" where
  "build_worker c =
     bind_sum (build_store c) (\<lambda>s.
     bind_sum (build_decision_engine c) (\<lambda>e.
     bind_sum (build_tool_backend c) (\<lambda>b. Inr (s, e, b))))"

definition worker_name :: "string option \<Rightarrow> string \<Rightarrow> int \<Rightarrow> string \<Rightarrow> string" where
  \<comment> \<open>the name given, or host, process and the start of a fresh UUID\<close>
  "worker_name given host pid uuid =
     (case given of
        Some name \<Rightarrow> if name \<noteq> [] then name else host @ ''-'' @ str_int pid @ ''-'' @ slice_to 8 uuid
      | None \<Rightarrow> host @ ''-'' @ str_int pid @ ''-'' @ slice_to 8 uuid)"

lemma app_builds_its_worker: "create_app c = Inr parts \<Longrightarrow> build_worker c = Inr parts"
  by (auto simp: create_app_def build_worker_def split: if_splits sum.splits)

section \<open>The task of the application\<close>

text \<open>
  The worker task is not started, serves, or has ended: by returning, or with the exception that left
  \<open>serve\<close>. Nothing looks at it before the application goes down.
\<close>

datatype worker_task = No_Worker | Serving | Ended "error option"

definition start_app :: "settings \<Rightarrow> worker_task" where
  "start_app c = (if run_worker c then Serving else No_Worker)"

definition stop_app :: "worker_task \<Rightarrow> error + unit" where
  \<comment> \<open>\<open>worker.stop()\<close> ends a serving task after its turn; awaiting an ended one raises what it raised\<close>
  "stop_app task = (case task of Ended (Some e) \<Rightarrow> Inl e | _ \<Rightarrow> Inr ())"

datatype 's activity =
    Turn "'s workflow_runtime"
  | Request "'s workflow_runtime" string "string option" call

fun app_step ::
  "settings \<Rightarrow> string \<Rightarrow> 's activity \<Rightarrow> worker_task \<times> 's \<times> (error + reply) list \<Rightarrow>
    worker_task \<times> 's \<times> (error + reply) list" where
  "app_step c wk (Turn R) (task, s, replies) =
     (if task = Serving
      then (case run_once R c wk s of
          (Inl e, s') \<Rightarrow> (Ended (Some e), s', replies)
        | (Inr _, s') \<Rightarrow> (Serving, s', replies))
      else (task, s, replies))"
| "app_step c wk (Request R suffix auth call) (task, s, replies) =
     (case handle R c wk suffix auth call s of (r, s') \<Rightarrow> (task, s', replies @ [r]))"

definition app_run ::
  "settings \<Rightarrow> string \<Rightarrow> 's activity list \<Rightarrow> worker_task \<times> 's \<times> (error + reply) list \<Rightarrow>
    worker_task \<times> 's \<times> (error + reply) list" where
  "app_run c wk = fold (app_step c wk)"

text \<open>While the task serves, its turns are the rounds of \<open>serve\<close>.\<close>

lemma app_run_turns:
  "app_run c wk (map (\<lambda>i. Turn (R i)) [0..<n]) (Serving, s, replies) =
     (case serve R c wk n s of
        (Inl e, s') \<Rightarrow> (Ended (Some e), s', replies)
      | (Inr _, s') \<Rightarrow> (Serving, s', replies))"
proof (induction n arbitrary: R s)
  case 0
  then show ?case by (simp add: app_run_def ret_def)
next
  case (Suc n)
  have ended: "fold (app_step c wk) (map (\<lambda>i. Turn (f i)) ns) (Ended x, t, replies) = (Ended x, t, replies)" for f ns x t
    by (induction ns) simp_all
  have "[0..<Suc n] = 0 # map Suc [0..<n]" by (simp only: upt_conv_Cons map_Suc_upt zero_less_Suc)
  then have "map (\<lambda>i. Turn (R i)) [0..<Suc n] = Turn (R 0) # map (\<lambda>i. Turn (R (Suc i))) [0..<n]"
    by simp
  with Suc.IH [of "\<lambda>i. R (Suc i)"] ended show ?case
    by (auto simp: app_run_def bindE_def split: prod.split sum.split)
qed

lemma ended_task_runs:
  "app_run c wk acts (Ended x, s, replies) = (Ended x, snd (app_run c wk acts (No_Worker, s, replies)))"
proof (induction acts arbitrary: s replies)
  case (Cons a acts)
  show ?case
  proof (cases a)
    case (Turn R)
    with Cons.IH show ?thesis by (simp add: app_run_def)
  next
    case (Request R suffix auth call)
    obtain r s' where "handle R c wk suffix auth call s = (r, s')" by fastforce
    with Request Cons.IH [of s' "replies @ [r]"] show ?thesis by (simp add: app_run_def)
  qed
qed (simp add: app_run_def)

text \<open>
  C20: A failed heartbeat ends the worker, whatever became of the delivery: its exception leaves the turn, also
  when it is one that the worker would retry and when the workflow was processed and its delivery
  acknowledged. From then on the application answers as one that was started without a worker, and
  raises the exception only when it goes down.
\<close>

theorem heartbeat_failure_ends_worker:
  assumes "rs_claim (wf_store R) wk (queue_lease_seconds c) s = (Inr (Some d), s1)"
    and "wf_heartbeat R = Some e" and "run_worker c"
  shows "app_run c wk (Turn R # acts) (start_app c, s, []) =
      (Ended (Some e), snd (app_run c wk acts (No_Worker, snd (deliver R c d s1), []))) \<and>
    stop_app (fst (app_run c wk (Turn R # acts) (start_app c, s, []))) = Inl e"
proof -
  have "run_once R c wk s = (Inl e, snd (deliver R c d s1))"
    using assms(1,2) by (simp add: run_once_def bindE_def)
  then have "app_run c wk (Turn R # acts) (start_app c, s, []) =
      app_run c wk acts (Ended (Some e), snd (deliver R c d s1), [])"
    using assms(3) by (simp add: app_run_def start_app_def)
  then show ?thesis by (simp add: ended_task_runs stop_app_def)
qed

section \<open>A delivery that succeeds and a heartbeat that fails\<close>

definition unlucky :: "world workflow_runtime" where
  \<comment> \<open>the tool answers; the lease could not be extended meanwhile\<close>
  "unlucky = (scripted (use_tool READ_ALERT ''look'' None) all_good)
     \<lparr>wf_heartbeat := Some (RetryableWorkflowError ''AWS extend queue visibility failed (ThrottlingException)'')\<rparr>"

definition busy_settings :: settings where
  "busy_settings = default_settings\<lparr>run_worker := True\<rparr>"

definition unlucky_run :: "worker_task \<times> world \<times> (error + reply) list" where
  \<comment> \<open>two turns, and a look at the health of the application\<close>
  "unlucky_run = app_run busy_settings ''w'' [Turn unlucky, Turn (scripted (use_tool READ_ALERT ''look'' None) all_good),
     Request unlucky ''1'' None Get_Health] (start_app busy_settings, sample_world, [])"

theorem heartbeat_failure_ends_worker_witness:
  "fst unlucky_run = Ended (Some (RetryableWorkflowError ''AWS extend queue visibility failed (ThrottlingException)'')) \<and>
   snd (snd unlucky_run) = [Inr (Health ''live'' [(''COMPLETED'', 1), (''PENDING'', 1)])]"
proof -
  let ?R = "scripted (use_tool READ_ALERT ''look'' None) all_good"
  let ?e = "RetryableWorkflowError ''AWS extend queue visibility failed (ThrottlingException)''"
  let ?s1 = "snd (claim 5 ''w'' 60 sample_world)"
  let ?s2 = "snd (deliver unlucky busy_settings sample_delivery ?s1)"
  let ?acts = "[Turn ?R, Request unlucky ''1'' None Get_Health]"
  have "fst (claim 5 ''w'' 60 sample_world) = Inr (Some sample_delivery)" by code_simp
  then have claimed: "rs_claim (wf_store unlucky) ''w'' (queue_lease_seconds busy_settings) sample_world =
      (Inr (Some sample_delivery), ?s1)"
    by (simp add: unlucky_def scripted_def busy_settings_def default_settings_def prod_eq_iff)
  have "wf_heartbeat unlucky = Some ?e" "run_worker busy_settings" by (simp_all add: unlucky_def busy_settings_def)
  from heartbeat_failure_ends_worker [OF claimed this, of ?acts]
  have run: "unlucky_run = (Ended (Some ?e), snd (app_run busy_settings ''w'' ?acts (No_Worker, ?s2, [])))"
    by (simp add: unlucky_run_def)
  have counted: "queue_counts ?s2 = (Inr [(''COMPLETED'', 1), (''PENDING'', 1)], ?s2)"
    unfolding prod_eq_iff by (rule conjI, code_simp, simp add: queue_counts_def)
  have "handle unlucky busy_settings ''w'' ''1'' None Get_Health w = and_reply queue_counts (Health ''live'') w" for w
    by (simp add: unlucky_def scripted_def busy_settings_def default_settings_def)
  with counted have "handle unlucky busy_settings ''w'' ''1'' None Get_Health ?s2 =
      (Inr (Health ''live'' [(''COMPLETED'', 1), (''PENDING'', 1)]), ?s2)"
    by (simp only: and_reply_def bindE_Inr ret_def)
  then show ?thesis by (simp add: run app_run_def del: handle.simps)
qed

section \<open>A gauge that stays\<close>

text \<open>
  One delivery that ends its workflow empties the queue: the counts of SQLite then name no pending row, and the
  gauge of the pending ones stays at one.
\<close>

definition finished_world :: world where
  "finished_world = snd (deliver (scripted recovered_decision all_good) default_settings sample_delivery
     (snd (claim 5 ''w'' 60 sample_world)))"

lemma drained_queue_keeps_depth:
  "\<exists>g1 g2. fst (update_depth (sqlite_store pf now) initial_telemetry Map.empty sample_world) = Inr g1 \<and>
     fst (update_depth (sqlite_store pf now) initial_telemetry g1 finished_world) = Inr g2 \<and>
     g1 ''PENDING'' = Some 1 \<and> g2 ''PENDING'' = Some 1 \<and> \<not> list_ex (\<lambda>r. active_status (q_status r)) (queue finished_world)"
proof -
  have counts: "fst (queue_counts sample_world) = Inr [(''PENDING'', 1)]"
    "fst (queue_counts finished_world) = Inr [(''COMPLETED'', 1)]" by code_simp+
  let ?g1 = "[''PENDING'' \<mapsto> 1] :: gauge"
  have "queue_counts sample_world = (Inr [(''PENDING'', 1)], sample_world)"
    using counts(1) by (simp add: queue_counts_def)
  then have 1: "fst (update_depth (sqlite_store pf now) initial_telemetry Map.empty sample_world) = Inr ?g1"
    by (simp add: update_depth_def bindE_Inr emit_metric_def initial_telemetry_def ret_def)
  obtain g2 where 2: "fst (update_depth (sqlite_store pf now) initial_telemetry ?g1 finished_world) = Inr g2"
    "g2 ''PENDING'' = ?g1 ''PENDING''"
    using gauge_goes_stale [of "sqlite_store pf now" finished_world "[(''COMPLETED'', 1)]" "''PENDING''" initial_telemetry ?g1]
      counts(2) by auto
  moreover have "\<not> list_ex (\<lambda>r. active_status (q_status r)) (queue finished_world)" by code_simp
  ultimately show ?thesis using 1 by (intro exI [of _ ?g1] exI [of _ g2]) simp
qed

end
