(* ===== verification/Json_Text.thy ===== *)
theory Json_Text
  imports Json
begin

text \<open>
  \<open>json.loads\<close>, for the texts that the program reads back: a scanner for numbers and strings, and a recursive
  reader of values whose fuel is the length of the text. The characters of the model are the first 256 code
  points, so an escape of another one is no value here; nor are \<open>NaN\<close> and the infinities. \<open>loads_json_text\<close>
  shows that it reads what \<open>json.dumps\<close> with its default separators writes.
\<close>

definition json_text :: "platform \<Rightarrow> json \<Rightarrow> string" where
  \<comment> \<open>\<open>json.dumps(j)\<close>\<close>
  "json_text pf j = dumps pf '', '' '': '' False j"

section \<open>The reader\<close>

definition is_space :: "char \<Rightarrow> bool" where
  "is_space c \<longleftrightarrow> c = CHR '' '' \<or> c = CHR 0x09 \<or> c = CHR 0x0A \<or> c = CHR 0x0D"

definition skip_space :: "string \<Rightarrow> string" where
  "skip_space s = dropWhile is_space s"

definition is_digit :: "char \<Rightarrow> bool" where
  "is_digit c \<longleftrightarrow> (48 :: nat) \<le> of_char c \<and> of_char c \<le> (57 :: nat)"

definition digits_value :: "string \<Rightarrow> nat" where
  "digits_value s = foldl (\<lambda>n c. 10 * n + (of_char c - 48)) 0 s"

text \<open>A number is the longest run of the characters of numbers; it must have the form of one.\<close>

definition number_char :: "char \<Rightarrow> bool" where
  "number_char c \<longleftrightarrow> is_digit c \<or> c \<in> {CHR ''-'', CHR ''+'', CHR ''.'', CHR ''e'', CHR ''E''}"

definition int_part :: "string \<Rightarrow> bool" where
  "int_part ds \<longleftrightarrow> ds \<noteq> [] \<and> (hd ds = CHR ''0'' \<longrightarrow> length ds = 1)"

definition exponent :: "string \<Rightarrow> bool" where
  "exponent s \<longleftrightarrow> s = [] \<or> (hd s = CHR ''e'' \<or> hd s = CHR ''E'') \<and>
     (let t = tl s; ds = (if t \<noteq> [] \<and> (hd t = CHR ''+'' \<or> hd t = CHR ''-'') then tl t else t)
      in ds \<noteq> [] \<and> list_all is_digit ds)"

definition fraction :: "string \<Rightarrow> bool" where
  "fraction s \<longleftrightarrow>
     (if s \<noteq> [] \<and> hd s = CHR ''.''
      then takeWhile is_digit (tl s) \<noteq> [] \<and> exponent (dropWhile is_digit (tl s)) else exponent s)"

definition read_number :: "platform \<Rightarrow> string \<Rightarrow> json option" where
  "read_number pf s =
     (let negative = (s \<noteq> [] \<and> hd s = CHR ''-''); t = (if negative then tl s else s);
          ds = takeWhile is_digit t; rest = dropWhile is_digit t
      in if \<not> int_part ds \<or> \<not> fraction rest then None
         else if rest = [] then Some (JInt (if negative then - int (digits_value ds) else int (digits_value ds)))
         else map_option JFloat (parse_float pf s))"

definition hex_code :: "char \<Rightarrow> nat option" where
  "hex_code c =
     (let n = of_char c in
        if 48 \<le> n \<and> n \<le> 57 then Some (n - 48)
        else if 97 \<le> n \<and> n \<le> 102 then Some (n - 87)
        else if 65 \<le> n \<and> n \<le> 70 then Some (n - 55) else None)"

definition code_point :: "char \<Rightarrow> char \<Rightarrow> char \<Rightarrow> char \<Rightarrow> char option" where
  "code_point a b h l =
     (case (hex_code a, hex_code b, hex_code h, hex_code l) of
        (Some 0, Some 0, Some i, Some j) \<Rightarrow> Some (char_of (16 * i + j))
      | _ \<Rightarrow> None)"

text \<open>What follows a backslash.\<close>

definition read_escape :: "string \<Rightarrow> (char \<times> string) option" where
  "read_escape s =
     (case s of
        [] \<Rightarrow> None
      | d # u \<Rightarrow>
          if d = CHR 0x22 \<or> d = CHR 0x5C \<or> d = CHR ''/'' then Some (d, u)
          else if d = CHR ''n'' then Some (CHR 0x0A, u)
          else if d = CHR ''r'' then Some (CHR 0x0D, u)
          else if d = CHR ''t'' then Some (CHR 0x09, u)
          else if d = CHR ''f'' then Some (CHR 0x0C, u)
          else if d = CHR ''b'' then Some (CHR 0x08, u)
          else if d = CHR ''u''
            then (case u of
                a # b # h # l # v \<Rightarrow> map_option (\<lambda>c. (c, v)) (code_point a b h l)
              | _ \<Rightarrow> None)
          else None)"

lemma read_escape_shorter: "read_escape s = Some (c, u) \<Longrightarrow> length u < length s"
  by (auto simp: read_escape_def split: list.splits if_splits)

text \<open>A string, after its opening quotation mark.\<close>

function read_string :: "string \<Rightarrow> (string \<times> string) option" where
  "read_string s =
     (case s of
        [] \<Rightarrow> None
      | c # t \<Rightarrow>
          if c = CHR 0x22 then Some ([], t)
          else if c = CHR 0x5C
            then (case read_escape t of
                None \<Rightarrow> None
              | Some (d, u) \<Rightarrow> map_option (\<lambda>(x, v). (d # x, v)) (read_string u))
          else if of_char c < (32 :: nat) then None
          else map_option (\<lambda>(x, v). (c # x, v)) (read_string t))"
  by pat_completeness auto

termination
  by (relation "measure length") (auto dest: read_escape_shorter)

declare read_string.simps [simp del]

fun read_value :: "platform \<Rightarrow> nat \<Rightarrow> string \<Rightarrow> (json \<times> string) option"
and read_items :: "platform \<Rightarrow> nat \<Rightarrow> string \<Rightarrow> (json list \<times> string) option"
and read_members :: "platform \<Rightarrow> nat \<Rightarrow> string \<Rightarrow> ((string \<times> json) list \<times> string) option" where
  "read_value pf 0 s = None"
| "read_value pf (Suc n) s =
     (case s of
        [] \<Rightarrow> None
      | c # t \<Rightarrow>
          if c = CHR 0x22 then map_option (\<lambda>(x, u). (JStr x, u)) (read_string t)
          else if c = CHR ''{'' then
            (case skip_space t of
               [] \<Rightarrow> None
             | d # u \<Rightarrow>
                 if d = CHR ''}'' then Some (JObj [], u)
                 else map_option (\<lambda>(kvs, v). (JObj (fold (\<lambda>(k, j) d. AList.update k j d) kvs []), v)) (read_members pf n (d # u)))
          else if c = CHR ''['' then
            (case skip_space t of
               [] \<Rightarrow> None
             | d # u \<Rightarrow>
                 if d = CHR '']'' then Some (JArr [], u)
                 else map_option (\<lambda>(js, v). (JArr js, v)) (read_items pf n (d # u)))
          else if take 4 s = ''null'' then Some (JNull, drop 4 s)
          else if take 4 s = ''true'' then Some (JBool True, drop 4 s)
          else if take 5 s = ''false'' then Some (JBool False, drop 5 s)
          else map_option (\<lambda>j. (j, dropWhile number_char s)) (read_number pf (takeWhile number_char s)))"
| "read_items pf 0 s = None"
| "read_items pf (Suc n) s =
     (case read_value pf n s of
        None \<Rightarrow> None
      | Some (j, t) \<Rightarrow>
          (case skip_space t of
             [] \<Rightarrow> None
           | c # u \<Rightarrow>
               if c = CHR '']'' then Some ([j], u)
               else if c = CHR '','' then map_option (\<lambda>(js, v). (j # js, v)) (read_items pf n (skip_space u))
               else None))"
| "read_members pf 0 s = None"
| "read_members pf (Suc n) s =
     (case s of
        [] \<Rightarrow> None
      | q # t \<Rightarrow>
          if q \<noteq> CHR 0x22 then None
          else (case read_string t of
             None \<Rightarrow> None
           | Some (k, t) \<Rightarrow>
               (case skip_space t of
                  [] \<Rightarrow> None
                | c # u \<Rightarrow>
                    if c \<noteq> CHR '':'' then None
                    else (case read_value pf n (skip_space u) of
                       None \<Rightarrow> None
                     | Some (j, v) \<Rightarrow>
                         (case skip_space v of
                            [] \<Rightarrow> None
                          | d # w \<Rightarrow>
                              if d = CHR ''}'' then Some ([(k, j)], w)
                              else if d = CHR '','' then
                                map_option (\<lambda>(kvs, x). ((k, j) # kvs, x)) (read_members pf n (skip_space w))
                              else None)))))"

definition loads :: "platform \<Rightarrow> string \<Rightarrow> string + json" where
  "loads pf s =
     (case read_value pf (Suc (length s)) (skip_space s) of
        None \<Rightarrow> Inl ''invalid JSON''
      | Some (j, rest) \<Rightarrow> if skip_space rest = [] then Inr j else Inl ''Extra data'')"

section \<open>It reads what was written\<close>

subsection \<open>Numbers\<close>

lemma digit_char_code: "d < 10 \<Longrightarrow> of_char (digit_char d) = 48 + d"
  by (simp add: digit_char_def)

lemma is_digit_digit_char: "d < 10 \<Longrightarrow> is_digit (digit_char d)"
  by (simp add: is_digit_def digit_char_code)

lemma digits_value_snoc: "digits_value (s @ [c]) = 10 * digits_value s + (of_char c - 48)"
  by (simp add: digits_value_def)

lemma nat_digits_ok: "list_all is_digit (nat_digits n) \<and> digits_value (nat_digits n) = n \<and> nat_digits n \<noteq> []"
proof (induction n rule: nat_digits.induct)
  case (1 n)
  show ?case
  proof (cases "n < 10")
    case True
    then show ?thesis by (simp add: nat_digits.simps [of n] is_digit_digit_char digits_value_def digit_char_code)
  next
    case False
    with 1 show ?thesis
      by (simp add: nat_digits.simps [of n] is_digit_digit_char digits_value_snoc digit_char_code)
  qed
qed

lemma nat_digits_head: "0 < n \<Longrightarrow> hd (nat_digits n) \<noteq> CHR ''0''"
proof (induction n rule: nat_digits.induct)
  case (1 n)
  show ?case
  proof (cases "n < 10")
    case True
    have "of_char (CHR ''0'') = (48 :: nat)" by simp
    with True 1(2) digit_char_code [OF True] have "digit_char n \<noteq> CHR ''0''" by (metis add_cancel_left_right less_numeral_extra(3))
    with True show ?thesis by (simp add: nat_digits.simps [of n])
  next
    case False
    with 1 nat_digits_ok [of "n div 10"] show ?thesis by (simp add: nat_digits.simps [of n] hd_append)
  qed
qed

lemma nat_digits_int_part: "int_part (nat_digits n)"
proof (cases "n = 0")
  case True
  then show ?thesis by (simp add: int_part_def nat_digits.simps [of 0])
next
  case False
  then show ?thesis using nat_digits_ok [of n] nat_digits_head [of n] by (simp add: int_part_def)
qed

lemma take_all_digits: "list_all P s \<Longrightarrow> takeWhile P s = s" "list_all P s \<Longrightarrow> dropWhile P s = []"
  by (simp_all add: list_all_iff)

lemma read_digits:
  "read_number pf (nat_digits n) = Some (JInt (int n))" "read_number pf (CHR ''-'' # nat_digits n) = Some (JInt (- int n))"
proof -
  note ok = nat_digits_ok [of n]
  have "hd (nat_digits n) \<noteq> CHR ''-''" using ok by (cases "nat_digits n") (auto simp: is_digit_def)
  with ok nat_digits_int_part [of n] show "read_number pf (nat_digits n) = Some (JInt (int n))"
    by (simp add: read_number_def fraction_def exponent_def Let_def take_all_digits) (simp add: list_all_iff)
  from ok nat_digits_int_part [of n] show "read_number pf (CHR ''-'' # nat_digits n) = Some (JInt (- int n))"
    by (simp add: read_number_def fraction_def exponent_def Let_def take_all_digits) (simp add: list_all_iff)
qed

lemma nat_digits_chars: "list_all number_char (nat_digits n)"
  using nat_digits_ok [of n] by (auto simp: list_all_iff number_char_def)

lemma read_int: "read_number pf (str_int i) = Some (JInt i) \<and> list_all number_char (str_int i) \<and> str_int i \<noteq> []"
  using nat_digits_ok [of "nat i"]
  by (simp add: str_int_def read_digits nat_digits_chars) (simp add: number_char_def)

subsection \<open>Strings\<close>

lemma hex_code_digit: "n < 16 \<Longrightarrow> hex_code (hex_digit n) = Some n"
  by (simp add: hex_code_def of_char_hex_digit Let_def)

lemma code_point_char:
  "code_point (CHR ''0'') (CHR ''0'') (hex_digit (of_char c div 16)) (hex_digit (of_char c mod 16)) = Some c"
proof -
  have "(of_char c :: nat) div 16 < 16" using of_char_bound [of c] by linarith
  moreover have "hex_code (CHR ''0'') = Some 0" by (simp add: hex_code_def Let_def)
  ultimately show ?thesis by (simp add: code_point_def hex_code_digit)
qed

lemma read_string_escape: "read_string (escape_char c @ rest) = map_option (\<lambda>(x, v). (c # x, v)) (read_string rest)"
proof (cases c rule: escape_char_cases)
  case plain
  then have "\<not> (of_char c < (32 :: nat))" "c \<noteq> CHR 0x22"
    by (auto simp: escape_char_def split: if_splits)
  with plain show ?thesis by (simp add: read_string.simps [of "c # rest"])
next
  case other
  have "read_escape (CHR ''u'' # CHR ''0'' # CHR ''0'' # hex_digit (of_char c div 16) # hex_digit (of_char c mod 16) # rest) =
      Some (c, rest)"
    by (simp add: read_escape_def code_point_char)
  then show ?thesis unfolding other by (subst read_string.simps) simp
qed (simp_all add: escape_char_def read_string.simps [of "_ # _"] read_escape_def)

lemma read_string_quoted: "read_string (concat (map escape_char s) @ CHR 0x22 # rest) = Some (s, rest)"
  by (induction s) (simp_all add: read_string_escape, simp add: read_string.simps)

subsection \<open>Values\<close>

text \<open>
  What \<open>json.dumps\<close> writes without loss: dictionaries, which have distinct keys, and floats whose text reads
  back as the same float, as Python's \<open>repr\<close> of a finite float does.
\<close>

definition float_reads_back :: "platform \<Rightarrow> rat \<Rightarrow> bool" where
  "float_reads_back pf q \<longleftrightarrow> float_repr pf q \<noteq> [] \<and> list_all number_char (float_repr pf q) \<and>
     read_number pf (float_repr pf q) = Some (JFloat q)"

fun writable :: "platform \<Rightarrow> json \<Rightarrow> bool" where
  "writable pf (JFloat q) = float_reads_back pf q"
| "writable pf (JArr js) = (\<forall>j \<in> set js. writable pf j)"
| "writable pf (JObj kvs) = (distinct (map fst kvs) \<and> (\<forall>kv \<in> set kvs. writable pf (snd kv)))"
| "writable pf _ = True"

abbreviation text_of :: "platform \<Rightarrow> json \<Rightarrow> string" where
  "text_of pf \<equiv> dumps pf '', '' '': '' False"

definition member_text :: "platform \<Rightarrow> string \<times> json \<Rightarrow> string" where
  "member_text pf kv = quote (fst kv) @ '': '' @ text_of pf (snd kv)"

lemma text_of_object: "text_of pf (JObj kvs) = CHR ''{'' # join '', '' (map (member_text pf) kvs) @ ''}''"
  by (simp add: Let_def comp_def member_text_def [abs_def])

definition ends_value :: "string \<Rightarrow> bool" where
  "ends_value rest \<longleftrightarrow> rest = [] \<or> \<not> number_char (hd rest)"

definition reads :: "platform \<Rightarrow> json \<Rightarrow> bool" where
  "reads pf j \<longleftrightarrow> (\<forall>n rest. length (text_of pf j) \<le> n \<longrightarrow> ends_value rest \<longrightarrow>
     read_value pf n (text_of pf j @ rest) = Some (j, rest))"

lemma readsD: "reads pf j \<Longrightarrow> length (text_of pf j) \<le> n \<Longrightarrow> ends_value rest \<Longrightarrow>
    read_value pf n (text_of pf j @ rest) = Some (j, rest)"
  by (simp add: reads_def)

lemma ends_value_marks [simp]:
  "ends_value []" "ends_value (CHR '','' # s)" "ends_value (CHR '']'' # s)" "ends_value (CHR ''}'' # s)"
  by (simp_all add: ends_value_def number_char_def is_digit_def)

lemma skip_space_simps [simp]:
  "skip_space [] = []" "skip_space (CHR '' '' # s) = skip_space s"
  "\<not> is_space c \<Longrightarrow> skip_space (c # s) = c # s"
  by (simp_all add: skip_space_def is_space_def)

lemma read_number_text:
  assumes "read_number pf s = Some j" and "list_all number_char s" and "s \<noteq> []" and "ends_value rest"
  shows "read_value pf (Suc n) (s @ rest) = Some (j, rest)"
proof -
  obtain c t where s: "s = c # t" using assms(3) by (cases s) auto
  have "takeWhile number_char (s @ rest) = s \<and> dropWhile number_char (s @ rest) = rest"
    using assms(2,4) by (cases rest) (auto simp: list_all_iff ends_value_def takeWhile_append dropWhile_append)
  moreover have "number_char c" using assms(2) s by simp
  then have "c \<noteq> CHR 0x22" "c \<noteq> CHR ''{''" "c \<noteq> CHR ''[''" "c \<noteq> CHR ''n''" "c \<noteq> CHR ''t''" "c \<noteq> CHR ''f''"
    by (auto simp: number_char_def is_digit_def)
  ultimately show ?thesis using assms(1) by (simp add: s)
qed

lemma text_head:
  assumes "writable pf j"
  obtains c t where "text_of pf j = c # t" "\<not> is_space c" "c \<noteq> CHR '']''" "c \<noteq> CHR ''}''"
proof -
  have number: "\<exists>c t. s = c # t \<and> \<not> is_space c \<and> c \<noteq> CHR '']'' \<and> c \<noteq> CHR ''}''"
    if "list_all number_char s" "s \<noteq> []" for s
    using that by (cases s) (auto simp: number_char_def is_digit_def is_space_def)
  have "\<exists>c t. text_of pf j = c # t \<and> \<not> is_space c \<and> c \<noteq> CHR '']'' \<and> c \<noteq> CHR ''}''"
  proof (cases j)
    case (JInt i)
    then show ?thesis using number read_int [of pf i] by simp
  next
    case (JFloat q)
    then show ?thesis using number assms by (simp add: float_reads_back_def)
  qed (simp_all add: bool_text_def quote_def is_space_def Let_def)
  with that show thesis by blast
qed

lemma writable_text:
  assumes "writable pf j"
  shows "text_of pf j \<noteq> []" and "skip_space (text_of pf j @ rest) = text_of pf j @ rest"
    and "hd (text_of pf j) \<noteq> CHR '']''"
proof -
  obtain c t where "text_of pf j = c # t" "\<not> is_space c" "c \<noteq> CHR '']''" by (rule text_head [OF assms]) blast
  then show "text_of pf j \<noteq> []" "skip_space (text_of pf j @ rest) = text_of pf j @ rest" "hd (text_of pf j) \<noteq> CHR '']''"
    by simp_all
qed

lemma read_items_text:
  assumes "js \<noteq> []" and "\<forall>j \<in> set js. writable pf j \<and> reads pf j" and "length (join '', '' (map (text_of pf) js)) < n"
  shows "read_items pf n (join '', '' (map (text_of pf) js) @ CHR '']'' # rest) = Some (js, rest)"
  using assms
proof (induction js arbitrary: n)
  case (Cons j js)
  from Cons.prems(3) obtain m where n: "n = Suc m" by (cases n) auto
  have j: "reads pf j" and js: "\<forall>j \<in> set js. writable pf j \<and> reads pf j" using Cons.prems(2) by simp_all
  show ?case
  proof (cases js)
    case Nil
    have "length (text_of pf j) \<le> m" using Cons.prems(3) n Nil by simp
    from readsD [OF j this, of "CHR '']'' # rest"] show ?thesis using Nil n by (simp add: is_space_def)
  next
    case (Cons k ks)
    let ?more = "join '', '' (map (text_of pf) js)"
    have whole: "join '', '' (map (text_of pf) (j # js)) = text_of pf j @ '', '' @ ?more" using Cons by simp
    have "length (text_of pf j) \<le> m" and less: "length ?more < m" using Cons.prems(3) n whole by simp_all
    from readsD [OF j this(1), of "'', '' @ ?more @ CHR '']'' # rest"]
    have first: "read_value pf m (text_of pf j @ '', '' @ ?more @ CHR '']'' # rest) =
        Some (j, '', '' @ ?more @ CHR '']'' # rest)" by simp
    have "writable pf k" using js Cons by simp
    then obtain c t where "text_of pf k = c # t" "\<not> is_space c" by (rule text_head)
    then have "\<exists>c t. ?more = c # t \<and> \<not> is_space c" using Cons by (cases ks) auto
    then have "skip_space (CHR '' '' # ?more @ CHR '']'' # rest) = ?more @ CHR '']'' # rest" by auto
    moreover have "read_items pf m (?more @ CHR '']'' # rest) = Some (js, rest)"
      using Cons.IH [OF _ js less] Cons by simp
    ultimately show ?thesis using first by (simp only: whole n append_assoc) (simp add: is_space_def)
  qed
qed simp

lemma read_members_text:
  assumes "kvs \<noteq> []" and "\<forall>kv \<in> set kvs. writable pf (snd kv) \<and> reads pf (snd kv)"
    and "length (join '', '' (map (member_text pf) kvs)) < n"
  shows "read_members pf n (join '', '' (map (member_text pf) kvs) @ CHR ''}'' # rest) = Some (kvs, rest)"
  using assms
proof (induction kvs arbitrary: n)
  case (Cons kv kvs)
  from Cons.prems(3) obtain m where n: "n = Suc m" by (cases n) auto
  obtain k j where kv: "kv = (k, j)" by (cases kv)
  have j: "reads pf j" "writable pf j" and kvs: "\<forall>kv \<in> set kvs. writable pf (snd kv) \<and> reads pf (snd kv)"
    using Cons.prems(2) kv by simp_all
  have head: "read_members pf (Suc m) (member_text pf kv @ after) =
      (case read_value pf m (text_of pf j @ after) of
         None \<Rightarrow> None
       | Some (j, v) \<Rightarrow>
           (case skip_space v of
              [] \<Rightarrow> None
            | d # w \<Rightarrow>
                if d = CHR ''}'' then Some ([(k, j)], w)
                else if d = CHR '','' then map_option (\<lambda>(kvs, x). ((k, j) # kvs, x)) (read_members pf m (skip_space w))
                else None))" for after
    using writable_text(2) [OF j(2), of after]
    by (simp add: kv member_text_def quote_def read_string_quoted is_space_def)
  show ?case
  proof (cases kvs)
    case Nil
    have "length (text_of pf j) \<le> m" using Cons.prems(3) n Nil kv by (simp add: member_text_def)
    from readsD [OF j(1) this, of "CHR ''}'' # rest"] head [of "CHR ''}'' # rest"] show ?thesis
      using Nil n kv by (simp add: is_space_def)
  next
    case (Cons kv' kvs')
    let ?more = "join '', '' (map (member_text pf) kvs)"
    have whole: "join '', '' (map (member_text pf) (kv # kvs)) = member_text pf kv @ '', '' @ ?more" using Cons by simp
    have "length (text_of pf j) \<le> m" and less: "length ?more < m"
      using Cons.prems(3) [unfolded whole n] by (simp_all add: member_text_def kv)
    from readsD [OF j(1) this(1), of "'', '' @ ?more @ CHR ''}'' # rest"]
    have first: "read_value pf m (text_of pf j @ '', '' @ ?more @ CHR ''}'' # rest) =
        Some (j, '', '' @ ?more @ CHR ''}'' # rest)" by simp
    have "\<exists>t. ?more = CHR 0x22 # t" using Cons by (cases kvs') (simp_all add: member_text_def quote_def)
    then have "skip_space (CHR '' '' # ?more @ CHR ''}'' # rest) = ?more @ CHR ''}'' # rest" by (auto simp: is_space_def)
    moreover have "read_members pf m (?more @ CHR ''}'' # rest) = Some (kvs, rest)"
      using Cons.IH [OF _ kvs less] Cons by simp
    ultimately show ?thesis
      using first head [of "'', '' @ ?more @ CHR ''}'' # rest"]
      by (simp only: whole n append_assoc) (simp add: is_space_def kv)
  qed
qed simp

lemma collect_distinct:
  "distinct (map fst (d @ kvs)) \<Longrightarrow> fold (\<lambda>(k, j) d. AList.update k j d) kvs d = d @ kvs"
proof (induction kvs arbitrary: d)
  case (Cons kv kvs)
  obtain k j where kv: "kv = (k, j)" by (cases kv)
  have "AList.update k j d = d @ [(k, j)]" using Cons.prems kv by (induction d) auto
  with Cons.IH [of "d @ [(k, j)]"] Cons.prems kv show ?case by simp
qed simp

lemma writable_reads: "writable pf j \<Longrightarrow> reads pf j"
proof (induction j)
  case JNull
  show ?case by (auto simp: reads_def Suc_le_eq dest!: less_imp_Suc_add)
next
  case (JBool b)
  show ?case by (auto simp: reads_def bool_text_def Suc_le_eq dest!: less_imp_Suc_add)
next
  case (JInt i)
  have "\<exists>m. n = Suc m" if "length (str_int i) \<le> n" for n using that read_int [of pf i] by (cases n) auto
  then show ?case unfolding reads_def using read_int [of pf i] read_number_text [of pf "str_int i" "JInt i"] by fastforce
next
  case (JFloat q)
  have "\<exists>m. n = Suc m" if "length (float_repr pf q) \<le> n" for n
    using that JFloat by (cases n) (auto simp: float_reads_back_def)
  then show ?case unfolding reads_def
    using JFloat read_number_text [of pf "float_repr pf q" "JFloat q"] by (fastforce simp: float_reads_back_def)
next
  case (JStr s)
  show ?case
    by (auto simp: reads_def quote_def read_string_quoted Suc_le_eq dest!: less_imp_Suc_add)
next
  case (JArr js)
  show ?case unfolding reads_def
  proof (intro allI impI)
    fix n rest
    assume n: "length (text_of pf (JArr js)) \<le> n"
    then obtain m where m: "n = Suc m" by (cases n) auto
    show "read_value pf n (text_of pf (JArr js) @ rest) = Some (JArr js, rest)"
    proof (cases js)
      case Nil
      then show ?thesis by (simp add: m is_space_def)
    next
      case (Cons j ks)
      have "\<forall>j \<in> set js. writable pf j \<and> reads pf j" using JArr by simp
      moreover have "length (join '', '' (map (text_of pf) js)) < m" using n m by simp
      ultimately have items: "read_items pf m (join '', '' (map (text_of pf) js) @ CHR '']'' # rest) = Some (js, rest)"
        using Cons by (intro read_items_text) simp_all
      have "writable pf j" using JArr Cons by simp
      then obtain c t where "text_of pf j = c # t" "\<not> is_space c" "c \<noteq> CHR '']''" by (rule text_head) blast
      then have "\<exists>c t. join '', '' (map (text_of pf) js) = c # t \<and> \<not> is_space c \<and> c \<noteq> CHR '']''"
        using Cons by (cases ks) auto
      with items show ?thesis by (auto simp: m)
    qed
  qed
next
  case (JObj kvs)
  show ?case unfolding reads_def
  proof (intro allI impI)
    fix n rest
    assume n: "length (text_of pf (JObj kvs)) \<le> n"
    then obtain m where m: "n = Suc m" by (cases n) (auto simp: text_of_object)
    show "read_value pf n (text_of pf (JObj kvs) @ rest) = Some (JObj kvs, rest)"
    proof (cases kvs)
      case Nil
      then show ?thesis by (simp add: m is_space_def)
    next
      case (Cons kv kvs')
      have "\<forall>kv \<in> set kvs. writable pf (snd kv) \<and> reads pf (snd kv)"
        using JObj.prems JObj.IH by (auto simp: snds.simps)
      moreover have "length (join '', '' (map (member_text pf) kvs)) < m" using n m text_of_object [of pf kvs] by (simp del: dumps.simps)
      ultimately have members: "read_members pf m (join '', '' (map (member_text pf) kvs) @ CHR ''}'' # rest) = Some (kvs, rest)"
        using Cons by (intro read_members_text) simp_all
      have "\<exists>t. join '', '' (map (member_text pf) kvs) = CHR 0x22 # t"
        using Cons by (cases kvs') (simp_all add: member_text_def quote_def)
      moreover have "fold (\<lambda>(k, j) d. AList.update k j d) kvs [] = kvs" using collect_distinct [of "[]" kvs] JObj.prems by simp
      ultimately show ?thesis using members by (auto simp: m text_of_object is_space_def simp del: dumps.simps)
    qed
  qed
qed

theorem loads_json_text:
  assumes "writable pf j"
  shows "loads pf (json_text pf j) = Inr j"
proof -
  have "read_value pf (Suc (length (text_of pf j))) (text_of pf j @ []) = Some (j, [])"
    by (rule readsD [OF writable_reads [OF assms]]) simp_all
  then show ?thesis
    using writable_text(2) [OF assms, of "[]"] by (simp add: loads_def json_text_def)
qed

end
