(* ===== verification/Aws_Store.thy ===== *)
theory Aws_Store
  imports Tool_Gateway Config Json_Text
begin

text \<open>
  \<open>agent_resilience/aws_store.py\<close>: the store on DynamoDB and SQS. The two services are parameters: the
  record \<open>cloud\<close> has one field for each boto3 call the code makes, over a state \<open>'s\<close> of theirs; a call
  returns or raises a \<open>ClientError\<close>, which is its error code. Texts that only carry a value from a write to
  a read of an item (\<open>state_json\<close>, \<open>payload_json\<close>, \<open>result_json\<close>, ISO times) are kept as that value;
  the body of a message is its JSON text, written by \<open>json_text\<close> and read by \<open>loads\<close>.
\<close>

section \<open>The services\<close>

datatype attribute =
    A_Str string
  | A_Int int
  | A_Time int
  | A_State workflow_state
  | A_Json dict

type_synonym item = "(string \<times> attribute) list"
type_synonym item_key = "string \<times> string"

datatype condition =
    Attributes_Not_Exist "string list"
  | Attribute_Equals string attribute

record message =
  ms_body :: string
  ms_receipt :: string
  ms_attributes :: "(string \<times> string) list"

type_synonym ('s, 'a) boto_call = "('s, string, 'a) prog"

record 's cloud =
  cl_put_item :: "item \<Rightarrow> condition option \<Rightarrow> ('s, unit) boto_call"
  cl_get_item :: "item_key \<Rightarrow> ('s, item option) boto_call"
  cl_update_item :: "item_key \<Rightarrow> item \<Rightarrow> condition \<Rightarrow> ('s, unit) boto_call"
  cl_query_newest :: "string \<Rightarrow> int \<Rightarrow> ('s, item list) boto_call"
  cl_query_prefix :: "string \<Rightarrow> string \<Rightarrow> ('s, item list) boto_call"
  cl_send_message :: "string \<Rightarrow> string \<Rightarrow> ('s, string) boto_call"
  cl_receive_message :: "string \<Rightarrow> int \<Rightarrow> int \<Rightarrow> int \<Rightarrow> string list \<Rightarrow> ('s, message list) boto_call"
  cl_delete_message :: "string \<Rightarrow> string \<Rightarrow> ('s, unit) boto_call"
  cl_change_visibility :: "string \<Rightarrow> string \<Rightarrow> int \<Rightarrow> ('s, unit) boto_call"
  cl_queue_attributes :: "string \<Rightarrow> string list \<Rightarrow> ('s, (string \<times> string) list) boto_call"
  cl_uuid :: "'s \<Rightarrow> string \<times> 's"

definition conditional_check_failed :: string where
  "conditional_check_failed = ''ConditionalCheckFailedException''"

section \<open>Errors of the services\<close>

definition starts_with :: "string \<Rightarrow> string \<Rightarrow> bool" where
  "starts_with p s = (take (length p) s = p)"

definition throttling_codes :: "string list" where
  "throttling_codes =
     [''InternalError'', ''InternalServerError'', ''ProvisionedThroughputExceededException'',
      ''RequestLimitExceeded'', ''RequestThrottled'', ''ServiceUnavailable'', ''ThrottlingException'']"

definition aws_error :: "string \<Rightarrow> string \<Rightarrow> error" where
  "aws_error operation code =
     (let message = ''AWS '' @ operation @ '' failed ('' @ code @ '')''
      in if code \<in> set throttling_codes \<or> starts_with ''Throttl'' code
         then RetryableWorkflowError message else PermanentWorkflowError message)"

text \<open>\<open>try: \<dots> except ClientError as error: \<dots>\<close>\<close>

definition on_client_error :: "('s, 'a) boto_call \<Rightarrow> (string \<Rightarrow> ('s, 'a) act) \<Rightarrow> ('s, 'a) act" where
  "on_client_error m h = (\<lambda>s. case m s of (Inl code, s') \<Rightarrow> h code s' | (Inr x, s') \<Rightarrow> (Inr x, s'))"

definition aws_call :: "string \<Rightarrow> ('s, 'a) boto_call \<Rightarrow> ('s, 'a) act" where
  "aws_call operation m = on_client_error m (\<lambda>code. raise (aws_error operation code))"

section \<open>Reading items\<close>

definition attribute_of :: "item \<Rightarrow> string \<Rightarrow> error + attribute" where
  "attribute_of it k = (case map_of it k of None \<Rightarrow> Inl (KeyError k) | Some a \<Rightarrow> Inr a)"

definition item_state :: "item \<Rightarrow> error + workflow_state" where
  "item_state it = bind_sum (attribute_of it ''state_json'')
     (\<lambda>a. case a of A_State st \<Rightarrow> Inr st | _ \<Rightarrow> Inl (ValidationError ''state_json''))"

definition item_text :: "item \<Rightarrow> string \<Rightarrow> error + string" where
  "item_text it k = bind_sum (attribute_of it k) (\<lambda>a. case a of A_Str s \<Rightarrow> Inr s | _ \<Rightarrow> Inl (TypeError k))"

definition item_json :: "item \<Rightarrow> string \<Rightarrow> error + dict" where
  "item_json it k = bind_sum (attribute_of it k) (\<lambda>a. case a of A_Json d \<Rightarrow> Inr d | _ \<Rightarrow> Inl (TypeError k))"

definition item_time :: "item \<Rightarrow> string \<Rightarrow> error + int" where
  "item_time it k = bind_sum (attribute_of it k) (\<lambda>a. case a of A_Time t \<Rightarrow> Inr t | _ \<Rightarrow> Inl (TypeError k))"

text \<open>\<open>response.get("Item")\<close> where an empty item counts as none.\<close>

definition found_item :: "item option \<Rightarrow> item option" where
  "found_item r = (if r = Some [] then None else r)"

definition workflow_pk :: "string \<Rightarrow> string" where
  "workflow_pk task = ''WORKFLOW#'' @ task"

definition state_key :: "string \<Rightarrow> item_key" where
  "state_key task = (workflow_pk task, ''STATE'')"

definition approval_key :: "string \<Rightarrow> string \<Rightarrow> item_key" where
  "approval_key task action = (workflow_pk task, ''APPROVAL#'' @ action)"

definition event_key :: "string \<Rightarrow> string \<Rightarrow> item_key" where
  "event_key task event_id = (workflow_pk task, ''EVENT#'' @ event_id)"

definition result_key :: "string \<Rightarrow> item_key" where
  "result_key k = (''IDEMPOTENCY#'' @ k, ''RESULT'')"

definition keyed :: "item_key \<Rightarrow> item \<Rightarrow> item" where
  \<comment> \<open>an item literal with its key attributes\<close>
  "keyed k it = (''pk'', A_Str (fst k)) # (''sk'', A_Str (snd k)) # it"

section \<open>Events and the queue\<close>

definition aws_record_event ::
  "platform \<Rightarrow> 's cloud \<Rightarrow> int \<Rightarrow> string \<Rightarrow> string \<Rightarrow> dict \<Rightarrow> ('s, unit) act" where
  "aws_record_event pf C now task type payload s =
     (let (uuid, s') = cl_uuid C s;
          event_id = iso_datetime pf now @ ''#'' @ uuid
      in aws_call ''record audit event''
           (cl_put_item C (keyed (event_key task event_id)
              [(''entity_type'', A_Str ''EVENT''), (''event_id'', A_Str event_id), (''task_id'', A_Str task),
               (''event_type'', A_Str type), (''payload_json'', A_Json payload), (''created_at'', A_Time now)]) None) s')"

definition event_of_item :: "string \<Rightarrow> item \<Rightarrow> error + event_record" where
  "event_of_item task it =
     bind_sum (item_text it ''event_id'') (\<lambda>i.
     bind_sum (item_text it ''event_type'') (\<lambda>ty.
     bind_sum (item_json it ''payload_json'') (\<lambda>p.
     bind_sum (item_time it ''created_at'') (\<lambda>made.
     Inr \<lparr>ev_id = IdStr i, ev_task_id = task, ev_type = ty, ev_payload = p, ev_created_at = made\<rparr>))))"

definition aws_list_events :: "'s cloud \<Rightarrow> string \<Rightarrow> ('s, event_record list) act" where
  "aws_list_events C task =
     bindE (aws_call ''list audit events'' (cl_query_prefix C (workflow_pk task) ''EVENT#'')) (\<lambda>items.
     lift_sum (map_sum_list (event_of_item task) items))"

definition task_body :: "platform \<Rightarrow> string \<Rightarrow> int \<Rightarrow> dict \<Rightarrow> string" where
  "task_body pf task max_attempts payload =
     json_text pf (JObj
       [(''task_id'', JStr task), (''max_attempts'', JInt max_attempts), (''payload'', JObj payload)])"

definition aws_enqueue :: "platform \<Rightarrow> 's cloud \<Rightarrow> string \<Rightarrow> string \<Rightarrow> int \<Rightarrow> dict \<Rightarrow> ('s, delivery_id) act" where
  "aws_enqueue pf C url task max_attempts payload =
     bindE (aws_call ''enqueue task'' (cl_send_message C url (task_body pf task max_attempts payload)))
       (\<lambda>i. ret (IdStr i))"

text \<open>Field types of \<open>QueueDelivery\<close> and \<open>DeadLetterRecord\<close>.\<close>

definition text_field :: "string \<Rightarrow> json \<Rightarrow> error + string" where
  "text_field name j = (case j of JStr s \<Rightarrow> Inr s | _ \<Rightarrow> Inl (ValidationError name))"

definition dict_field :: "string \<Rightarrow> json \<Rightarrow> error + dict" where
  "dict_field name j = (case j of JObj d \<Rightarrow> Inr d | _ \<Rightarrow> Inl (ValidationError name))"

definition dict_get :: "dict \<Rightarrow> string \<Rightarrow> json \<Rightarrow> json" where
  "dict_get d k dflt = (case map_of d k of None \<Rightarrow> dflt | Some v \<Rightarrow> v)"

definition text_get :: "(string \<times> string) list \<Rightarrow> string \<Rightarrow> json \<Rightarrow> json" where
  "text_get d k dflt = (case map_of d k of None \<Rightarrow> dflt | Some v \<Rightarrow> JStr v)"

text \<open>\<open>json.loads(message["Body"])\<close>, then \<open>body["task_id"]\<close>, which takes a dictionary.\<close>

definition message_json :: "platform \<Rightarrow> message \<Rightarrow> error + json" where
  "message_json pf m = (case loads pf (ms_body m) of Inl why \<Rightarrow> Inl (ValueError why) | Inr j \<Rightarrow> Inr j)"

definition body_item :: "json \<Rightarrow> string \<Rightarrow> error + dict \<times> json" where
  "body_item j k =
     (case j of JObj d \<Rightarrow> bind_sum (py_item d k) (\<lambda>v. Inr (d, v)) | _ \<Rightarrow> Inl (TypeError k))"

definition delivery_of_message :: "platform \<Rightarrow> message \<Rightarrow> error + queue_delivery" where
  "delivery_of_message pf m =
     bind_sum (message_json pf m) (\<lambda>j.
     bind_sum (body_item j ''task_id'') (\<lambda>(body, task).
     bind_sum (py_int pf (text_get (ms_attributes m) ''ApproximateReceiveCount'' (JStr ''1''))) (\<lambda>attempts.
     bind_sum (py_int pf (dict_get body ''max_attempts'' (JInt 5))) (\<lambda>max_attempts.
     bind_sum (text_field ''task_id'' task) (\<lambda>task.
     bind_sum (dict_field ''payload'' (dict_get body ''payload'' (JObj []))) (\<lambda>payload.
     Inr \<lparr>dl_id = IdStr (ms_receipt m), dl_task_id = task, dl_attempts = attempts,
          dl_max_attempts = max_attempts, dl_payload = payload,
          dl_receipt_handle = Some (ms_receipt m)\<rparr>))))))"

definition aws_claim :: "platform \<Rightarrow> 's cloud \<Rightarrow> string \<Rightarrow> string \<Rightarrow> int \<Rightarrow> ('s, queue_delivery option) act" where
  "aws_claim pf C url worker lease_seconds =
     bindE (aws_call ''claim task''
         (cl_receive_message C url 1 1 lease_seconds [''ApproximateReceiveCount'']))
       (\<lambda>messages. case messages of
          [] \<Rightarrow> ret None
        | m # _ \<Rightarrow> bindE (lift_sum (delivery_of_message pf m)) (\<lambda>d. ret (Some d)))"

fun id_text :: "delivery_id \<Rightarrow> string" where
  "id_text (IdInt i) = str_int i"
| "id_text (IdStr s) = s"

definition receipt_of :: "queue_delivery \<Rightarrow> string" where
  "receipt_of d =
     (case dl_receipt_handle d of
        Some r \<Rightarrow> if r = [] then id_text (dl_id d) else r
      | None \<Rightarrow> id_text (dl_id d))"

definition aws_extend_lease :: "'s cloud \<Rightarrow> string \<Rightarrow> queue_delivery \<Rightarrow> int \<Rightarrow> ('s, unit) act" where
  "aws_extend_lease C url d lease_seconds =
     aws_call ''extend queue visibility'' (cl_change_visibility C url (receipt_of d) lease_seconds)"

definition aws_acknowledge :: "'s cloud \<Rightarrow> string \<Rightarrow> delivery_id \<Rightarrow> ('s, unit) act" where
  "aws_acknowledge C url did = aws_call ''acknowledge task'' (cl_delete_message C url (id_text did))"

definition dead_letter_body :: "platform \<Rightarrow> queue_delivery \<Rightarrow> string \<Rightarrow> string" where
  "dead_letter_body pf d err =
     json_text pf (JObj
       [(''task_id'', JStr (dl_task_id d)), (''payload'', JObj (dl_payload d)), (''attempts'', JInt (dl_attempts d)),
        (''max_attempts'', JInt (dl_max_attempts d)), (''error'', JStr (slice_to 2000 err))])"

definition aws_retry_delay :: "queue_delivery \<Rightarrow> rat \<Rightarrow> int" where
  "aws_retry_delay d base =
     (let x = min 900 (base * 2 ^ nat (max 0 (dl_attempts d - 1)))
      in if x < 0 then - \<lfloor>- x\<rfloor> else \<lfloor>x\<rfloor>)"

definition aws_retry_or_dead_letter ::
  "platform \<Rightarrow> 's cloud \<Rightarrow> string \<Rightarrow> string option \<Rightarrow> queue_delivery \<Rightarrow> string \<Rightarrow> rat \<Rightarrow> ('s, bool) act" where
  "aws_retry_or_dead_letter pf C url dlq d err base =
     (if dl_attempts d \<ge> dl_max_attempts d
      then (if \<not> truthy_text dlq
            then raise (PermanentWorkflowError ''SQS_DLQ_URL is required to dead-letter tasks explicitly'')
            else aws_call ''retry or dead-letter task''
              (bindE (cl_send_message C (the dlq) (dead_letter_body pf d err)) (\<lambda>_.
               bindE (cl_delete_message C url (receipt_of d)) (\<lambda>_. ret True))))
      else aws_call ''retry or dead-letter task''
             (bindE (cl_change_visibility C url (receipt_of d) (aws_retry_delay d base)) (\<lambda>_. ret False)))"

section \<open>Workflows\<close>

definition state_item :: "workflow_state \<Rightarrow> item" where
  "state_item st = keyed (state_key (task_id st))
     [(''entity_type'', A_Str ''WORKFLOW''), (''version'', A_Int (version st)), (''state_json'', A_State st),
      (''updated_at'', A_Time (updated_at st))]"

definition aws_create_workflow ::
  "platform \<Rightarrow> 's cloud \<Rightarrow> string \<Rightarrow> int \<Rightarrow> workflow_state \<Rightarrow> int \<Rightarrow> ('s, workflow_state) act" where
  "aws_create_workflow pf C url now st max_attempts =
     bindE (on_client_error (cl_put_item C (state_item st) (Some (Attributes_Not_Exist [''pk''])))
         (\<lambda>code. raise (if code = conditional_check_failed
            then PermanentWorkflowError (''workflow already exists: '' @ task_id st)
            else aws_error ''create workflow'' code))) (\<lambda>_.
     bindE (aws_record_event pf C now (task_id st) ''WORKFLOW_CREATED'' [(''goal'', JStr (goal st))]) (\<lambda>_.
     bindE (aws_enqueue pf C url (task_id st) max_attempts []) (\<lambda>_.
     ret st)))"

definition aws_get_workflow :: "'s cloud \<Rightarrow> string \<Rightarrow> ('s, workflow_state option) act" where
  "aws_get_workflow C task =
     bindE (aws_call ''read checkpoint'' (cl_get_item C (state_key task))) (\<lambda>r.
       case found_item r of
         None \<Rightarrow> ret None
       | Some it \<Rightarrow> bindE (lift_sum (item_state it)) (\<lambda>st. ret (Some st)))"

definition aws_list_workflows :: "'s cloud \<Rightarrow> int \<Rightarrow> workflow_status option \<Rightarrow> ('s, workflow_state list) act" where
  "aws_list_workflows C limit wanted =
     (let requested = max 1 (min limit 500)
      in bindE (aws_call ''list workflows''
             (cl_query_newest C ''WORKFLOW'' (if wanted \<noteq> None then 500 else requested))) (\<lambda>items.
         bindE (lift_sum (map_sum_list item_state items)) (\<lambda>states.
         ret (slice_to requested (filter (\<lambda>st. wanted = None \<or> wanted = Some (status st)) states)))))"

definition aws_save_workflow :: "'s cloud \<Rightarrow> int \<Rightarrow> workflow_state \<Rightarrow> int \<Rightarrow> ('s, workflow_state) act" where
  "aws_save_workflow C now st expected =
     (let st' = st\<lparr>version := expected + 1, updated_at := now\<rparr>
      in bindE (on_client_error
             (cl_update_item C (state_key (task_id st))
                [(''state_json'', A_State st'), (''version'', A_Int (expected + 1)), (''updated_at'', A_Time now)]
                (Attribute_Equals ''version'' (A_Int expected)))
             (\<lambda>code. raise (if code = conditional_check_failed
                then ConcurrentUpdateError (''stale checkpoint for '' @ task_id st)
                else aws_error ''save checkpoint'' code))) (\<lambda>_.
         ret st'))"

section \<open>Tool results and approvals\<close>

definition aws_arguments_hash :: "platform \<Rightarrow> dict \<Rightarrow> string" where
  "aws_arguments_hash pf arguments = sha256_hex pf (canonical pf arguments)"

definition aws_get_tool_result :: "platform \<Rightarrow> 's cloud \<Rightarrow> string \<Rightarrow> dict \<Rightarrow> ('s, dict option) act" where
  "aws_get_tool_result pf C k arguments =
     bindE (aws_call ''read idempotency result'' (cl_get_item C (result_key k))) (\<lambda>r.
       case found_item r of
         None \<Rightarrow> ret None
       | Some it \<Rightarrow>
           bindE (lift_sum (item_text it ''arguments_hash'')) (\<lambda>h.
             if h \<noteq> aws_arguments_hash pf arguments
             then raise (ValueError ''idempotency key reused with different arguments'')
             else bindE (lift_sum (item_json it ''result_json'')) (\<lambda>d. ret (Some d))))"

definition ignore_existing :: "string \<Rightarrow> ('s, unit) boto_call \<Rightarrow> ('s, unit) act" where
  \<comment> \<open>a failed \<open>attribute_not_exists\<close> is no error\<close>
  "ignore_existing operation m =
     on_client_error m (\<lambda>code. if code \<noteq> conditional_check_failed then raise (aws_error operation code) else ret ())"

definition aws_save_tool_result ::
  "platform \<Rightarrow> 's cloud \<Rightarrow> int \<Rightarrow> string \<Rightarrow> string \<Rightarrow> string \<Rightarrow> dict \<Rightarrow> dict \<Rightarrow> ('s, unit) act" where
  "aws_save_tool_result pf C now k task tool arguments result =
     ignore_existing ''save idempotency result''
       (cl_put_item C (keyed (result_key k)
          [(''entity_type'', A_Str ''TOOL_RESULT''), (''task_id'', A_Str task), (''tool_name'', A_Str tool),
           (''arguments_hash'', A_Str (aws_arguments_hash pf arguments)), (''result_json'', A_Json result),
           (''created_at'', A_Time now)])
          (Some (Attributes_Not_Exist [''pk''])))"

definition aws_create_approval :: "'s cloud \<Rightarrow> int \<Rightarrow> string \<Rightarrow> string \<Rightarrow> ('s, unit) act" where
  "aws_create_approval C now task action =
     ignore_existing ''create approval''
       (cl_put_item C (keyed (approval_key task action)
          [(''entity_type'', A_Str ''APPROVAL''), (''status'', A_Str ''PENDING''), (''created_at'', A_Time now)])
          (Some (Attributes_Not_Exist [''pk'', ''sk''])))"

definition aws_resolve_approval ::
  "'s cloud \<Rightarrow> int \<Rightarrow> string \<Rightarrow> string \<Rightarrow> bool \<Rightarrow> string \<Rightarrow> string option \<Rightarrow> ('s, unit) act" where
  "aws_resolve_approval C now task action approved actor why =
     on_client_error
       (cl_update_item C (approval_key task action)
          [(''status'', A_Str (if approved then ''APPROVED'' else ''REJECTED'')), (''actor'', A_Str actor),
           (''reason'', A_Str (case why of None \<Rightarrow> [] | Some x \<Rightarrow> x)), (''resolved_at'', A_Time now)]
          (Attribute_Equals ''status'' (A_Str ''PENDING'')))
       (\<lambda>code. raise (if code = conditional_check_failed then ValueError ''approval is not pending''
          else aws_error ''resolve approval'' code))"

definition aws_approval_status :: "'s cloud \<Rightarrow> string \<Rightarrow> string \<Rightarrow> ('s, string option) act" where
  "aws_approval_status C task action =
     bindE (aws_call ''read approval'' (cl_get_item C (approval_key task action))) (\<lambda>r.
       case found_item r of
         None \<Rightarrow> ret None
       | Some it \<Rightarrow> bindE (lift_sum (item_text it ''status'')) (\<lambda>x. ret (Some x)))"

section \<open>Queue statistics and dead letters\<close>

definition count_attribute :: "platform \<Rightarrow> (string \<times> string) list \<Rightarrow> string \<Rightarrow> error + int" where
  "count_attribute pf attributes k = py_int pf (text_get attributes k (JInt 0))"

definition aws_queue_counts ::
  "platform \<Rightarrow> 's cloud \<Rightarrow> string \<Rightarrow> string option \<Rightarrow> ('s, (string \<times> int) list) act" where
  "aws_queue_counts pf C url dlq =
     bindE (aws_call ''read queue depth'' (cl_queue_attributes C url
         [''ApproximateNumberOfMessages'', ''ApproximateNumberOfMessagesNotVisible''])) (\<lambda>main.
     bindE (lift_sum (count_attribute pf main ''ApproximateNumberOfMessages'')) (\<lambda>pending.
     bindE (lift_sum (count_attribute pf main ''ApproximateNumberOfMessagesNotVisible'')) (\<lambda>processing.
     if \<not> truthy_text dlq then ret [(''PENDING'', pending), (''PROCESSING'', processing)]
     else bindE (aws_call ''read queue depth'' (cl_queue_attributes C (the dlq) [''ApproximateNumberOfMessages''])) (\<lambda>attrs.
          bindE (lift_sum (count_attribute pf attrs ''ApproximateNumberOfMessages'')) (\<lambda>dead.
          ret [(''PENDING'', pending), (''PROCESSING'', processing), (''DEAD'', dead)])))))"

definition optional_text_field :: "string \<Rightarrow> json \<Rightarrow> error + string option" where
  "optional_text_field name j =
     (case j of JNull \<Rightarrow> Inr None | JStr s \<Rightarrow> Inr (Some s) | _ \<Rightarrow> Inl (ValidationError name))"

definition dead_letter_of_message :: "platform \<Rightarrow> message \<Rightarrow> error + dead_letter_record" where
  "dead_letter_of_message pf m =
     bind_sum (message_json pf m) (\<lambda>j.
     bind_sum (py_int pf (text_get (ms_attributes m) ''SentTimestamp'' (JStr ''0''))) (\<lambda>sent.
     bind_sum (body_item j ''task_id'') (\<lambda>(body, task).
     bind_sum (py_int pf (dict_get body ''attempts''
         (text_get (ms_attributes m) ''ApproximateReceiveCount'' (JInt 1)))) (\<lambda>attempts.
     bind_sum (py_int pf (dict_get body ''max_attempts'' (JInt 5))) (\<lambda>max_attempts.
     bind_sum (text_field ''task_id'' task) (\<lambda>task.
     bind_sum (optional_text_field ''last_error'' (dict_get body ''error'' JNull)) (\<lambda>err.
     bind_sum (dict_field ''payload'' (dict_get body ''payload'' (JObj []))) (\<lambda>payload.
     Inr \<lparr>dr_id = IdStr (ms_receipt m), dr_task_id = task, dr_attempts = attempts,
          dr_max_attempts = max_attempts, dr_last_error = err, dr_payload = payload,
          dr_updated_at = sent * 1000\<rparr>))))))))"

definition aws_list_dead_letters ::
  "platform \<Rightarrow> 's cloud \<Rightarrow> string option \<Rightarrow> int \<Rightarrow> ('s, dead_letter_record list) act" where
  "aws_list_dead_letters pf C dlq limit =
     (if \<not> truthy_text dlq then ret []
      else bindE (aws_call ''list dead letters''
             (cl_receive_message C (the dlq) (max 1 (min limit 10)) 0 0
               [''ApproximateReceiveCount'', ''SentTimestamp''])) (\<lambda>messages.
           lift_sum (map_sum_list (dead_letter_of_message pf) messages)))"

definition aws_replay_dead_letter ::
  "platform \<Rightarrow> 's cloud \<Rightarrow> string \<Rightarrow> string option \<Rightarrow> int \<Rightarrow> delivery_id \<Rightarrow> string \<Rightarrow> int \<Rightarrow> string \<Rightarrow> string \<Rightarrow>
    ('s, workflow_state option) act" where
  "aws_replay_dead_letter pf C url dlq now did task max_attempts actor why =
     (if \<not> truthy_text dlq then ret None
      else bindE (aws_get_workflow C task) (\<lambda>found.
        case found of
          None \<Rightarrow> ret None
        | Some st \<Rightarrow>
            bindE (aws_save_workflow C now (st\<lparr>status := QUEUED, last_error := None\<rparr>) (version st)) (\<lambda>st.
            bindE (aws_call ''replay dead letter''
                (bindE (cl_send_message C url (task_body pf task max_attempts [])) (\<lambda>_.
                 cl_delete_message C (the dlq) (id_text did)))) (\<lambda>_.
            bindE (aws_record_event pf C now task ''DLQ_REPLAYED'' [(''actor'', JStr actor), (''reason'', JStr why)])
              (\<lambda>_. ret (Some st))))))"

section \<open>The store\<close>

definition aws_store :: "platform \<Rightarrow> 's cloud \<Rightarrow> string \<Rightarrow> string option \<Rightarrow> int \<Rightarrow> 's runtime_store" where
  "aws_store pf C url dlq now =
     \<lparr>rs_create_workflow = aws_create_workflow pf C url now,
      rs_get_workflow = aws_get_workflow C,
      rs_list_workflows = aws_list_workflows C,
      rs_save_workflow = aws_save_workflow C now,
      rs_enqueue = aws_enqueue pf C url,
      rs_claim = aws_claim pf C url,
      rs_extend_lease = aws_extend_lease C url,
      rs_acknowledge = aws_acknowledge C url,
      rs_retry_or_dead_letter = aws_retry_or_dead_letter pf C url dlq,
      rs_record_event = aws_record_event pf C now,
      rs_list_events = aws_list_events C,
      rs_arguments_hash = aws_arguments_hash pf,
      rs_get_tool_result = aws_get_tool_result pf C,
      rs_save_tool_result = aws_save_tool_result pf C now,
      rs_create_approval = aws_create_approval C now,
      rs_resolve_approval = aws_resolve_approval C now,
      rs_approval_status = aws_approval_status C,
      rs_queue_counts = aws_queue_counts pf C url dlq,
      rs_list_dead_letters = aws_list_dead_letters pf C dlq,
      rs_replay_dead_letter = aws_replay_dead_letter pf C url dlq now\<rparr>"

definition open_aws_store :: "platform \<Rightarrow> settings \<Rightarrow> 's cloud \<Rightarrow> int \<Rightarrow> error + 's runtime_store" where
  \<comment> \<open>\<open>AWSDurableStore(config)\<close>\<close>
  "open_aws_store pf c C now =
     (case sqs_queue_url c of
        Some url \<Rightarrow> if url = [] then Inl (ValueError ''SQS_QUEUE_URL is required for the AWS runtime backend'')
          else Inr (aws_store pf C url (sqs_dlq_url c) now)
      | None \<Rightarrow> Inl (ValueError ''SQS_QUEUE_URL is required for the AWS runtime backend''))"

end
