(* ===== verification/Shared_Table.thy ===== *)
theory Shared_Table
  imports Aws_Store Runtime_Laws
begin

text \<open>
  What the AWS store does to its table, whoever else writes to it. \<open>shared_dynamo\<close>: a conditional write
  happens when its condition is true of the item at that time, others may write before any call, a call may
  fail, also after it took effect. \<open>table_guarantee\<close> then asks of a relation on states that it allows what
  others do and the kinds of writes that the store makes, and shows that every operation of the store stays
  within it; saves only as far as the saved state is allowed.
\<close>

section \<open>The table\<close>

definition key_of :: "item \<Rightarrow> item_key" where
  "key_of it =
     ((case map_of it ''pk'' of Some (A_Str s) \<Rightarrow> s | _ \<Rightarrow> []),
      (case map_of it ''sk'' of Some (A_Str s) \<Rightarrow> s | _ \<Rightarrow> []))"

lemma key_of_keyed [simp]: "key_of (keyed k it) = k"
  by (simp add: key_of_def keyed_def)

lemma map_of_keyed [simp]:
  "n \<noteq> ''pk'' \<Longrightarrow> n \<noteq> ''sk'' \<Longrightarrow> map_of (keyed k it) n = map_of it n"
  "map_of (keyed k it) ''pk'' = Some (A_Str (fst k))" "map_of (keyed k it) ''sk'' = Some (A_Str (snd k))"
  by (auto simp: keyed_def)

fun satisfied :: "condition option \<Rightarrow> item option \<Rightarrow> bool" where
  "satisfied None old = True"
| "satisfied (Some (Attributes_Not_Exist ns)) old =
     (case old of None \<Rightarrow> True | Some it \<Rightarrow> list_all (\<lambda>n. map_of it n = None) ns)"
| "satisfied (Some (Attribute_Equals n a)) old =
     (case old of None \<Rightarrow> False | Some it \<Rightarrow> map_of it n = Some a)"

definition set_attributes :: "item \<Rightarrow> item \<Rightarrow> item" where
  \<comment> \<open>\<open>SET n1=v1, \<dots>\<close>\<close>
  "set_attributes changes it = fold (\<lambda>(n, a). AList.update n a) changes it"

lemma map_of_set_attributes:
  "distinct (map fst changes) \<Longrightarrow>
    map_of (set_attributes changes it) n = (case map_of changes n of Some a \<Rightarrow> Some a | None \<Rightarrow> map_of it n)"
proof (induction changes arbitrary: it)
  case Nil
  then show ?case by (simp add: set_attributes_def)
next
  case (Cons c changes)
  obtain m a where c: "c = (m, a)" by (cases c)
  from Cons.prems c have "map_of changes m = None" by (simp add: map_of_eq_None_iff)
  moreover have "set_attributes (c # changes) it = set_attributes changes (AList.update m a it)"
    by (simp add: set_attributes_def c)
  ultimately show ?case using Cons by (auto simp: c update_conv' split: option.split)
qed

type_synonym table = "item_key \<Rightarrow> item option"

text \<open>Every item is stored under its own key, and its attributes \<open>pk\<close> and \<open>sk\<close> are that key.\<close>

definition table_ok :: "table \<Rightarrow> bool" where
  "table_ok T \<longleftrightarrow> (\<forall>k it. T k = Some it \<longrightarrow>
     map_of it ''pk'' = Some (A_Str (fst k)) \<and> map_of it ''sk'' = Some (A_Str (snd k)))"

section \<open>How a table evolves\<close>

definition checkpoint_item :: "workflow_state \<Rightarrow> int \<Rightarrow> item \<Rightarrow> bool" where
  "checkpoint_item st v it \<longleftrightarrow> map_of it ''state_json'' = Some (A_State st) \<and> map_of it ''version'' = Some (A_Int v)"

definition table_evolves :: "table \<Rightarrow> table \<Rightarrow> bool" where
  "table_evolves T U \<longleftrightarrow> (table_ok T \<longrightarrow>
     table_ok U \<and> (\<forall>k. T k \<noteq> None \<longrightarrow> U k \<noteq> None) \<and>
     (\<forall>t st v it. T (state_key t) = Some it \<longrightarrow> checkpoint_item st v it \<longrightarrow>
        (\<exists>st' v' it'. U (state_key t) = Some it' \<and> checkpoint_item st' v' it' \<and> (st' = st \<and> v' = v \<or> v < v'))) \<and>
     (\<forall>t a x it. T (approval_key t a) = Some it \<longrightarrow> map_of it ''status'' = Some (A_Str x) \<longrightarrow> x \<noteq> ''PENDING'' \<longrightarrow>
        U (approval_key t a) = Some it) \<and>
     (\<forall>k it. T (result_key k) = Some it \<longrightarrow> U (result_key k) = Some it))"

lemma table_evolves_refl: "table_evolves T T"
  by (auto simp: table_evolves_def)

lemma keys_differ [simp]:
  "state_key t \<noteq> approval_key t' a" "approval_key t a \<noteq> state_key t'"
  "state_key t \<noteq> result_key k" "result_key k \<noteq> state_key t" "approval_key t a \<noteq> result_key k"
  "result_key k \<noteq> approval_key t a"
  by (simp_all add: state_key_def approval_key_def result_key_def workflow_pk_def)

lemma keys_inject [simp]:
  "state_key t = state_key t' \<longleftrightarrow> t = t'" "approval_key t a = approval_key t' a' \<longleftrightarrow> t = t' \<and> a = a'"
  "result_key k = result_key k' \<longleftrightarrow> k = k'"
  by (auto simp: state_key_def approval_key_def result_key_def workflow_pk_def)

lemma event_keys [simp]:
  "event_key t e \<noteq> state_key t'" "event_key t e \<noteq> approval_key t' a" "event_key t e \<noteq> result_key k"
  "state_key t' \<noteq> event_key t e" "approval_key t' a \<noteq> event_key t e" "result_key k \<noteq> event_key t e"
  by (simp_all add: event_key_def state_key_def approval_key_def result_key_def workflow_pk_def)

lemma table_evolvesD:
  assumes "table_evolves T U" and "table_ok T"
  shows "table_ok U" and "T k \<noteq> None \<Longrightarrow> U k \<noteq> None"
    and "T (state_key t) = Some it \<Longrightarrow> checkpoint_item st v it \<Longrightarrow>
      \<exists>st' v' it'. U (state_key t) = Some it' \<and> checkpoint_item st' v' it' \<and> (st' = st \<and> v' = v \<or> v < v')"
    and "T (approval_key t a) = Some it \<Longrightarrow> map_of it ''status'' = Some (A_Str x) \<Longrightarrow> x \<noteq> ''PENDING'' \<Longrightarrow>
      U (approval_key t a) = Some it"
    and "T (result_key r) = Some it \<Longrightarrow> U (result_key r) = Some it"
proof -
  have all: "table_ok U \<and> (\<forall>k. T k \<noteq> None \<longrightarrow> U k \<noteq> None) \<and>
     (\<forall>t st v it. T (state_key t) = Some it \<longrightarrow> checkpoint_item st v it \<longrightarrow>
        (\<exists>st' v' it'. U (state_key t) = Some it' \<and> checkpoint_item st' v' it' \<and> (st' = st \<and> v' = v \<or> v < v'))) \<and>
     (\<forall>t a x it. T (approval_key t a) = Some it \<longrightarrow> map_of it ''status'' = Some (A_Str x) \<longrightarrow> x \<noteq> ''PENDING'' \<longrightarrow>
        U (approval_key t a) = Some it) \<and>
     (\<forall>k it. T (result_key k) = Some it \<longrightarrow> U (result_key k) = Some it)"
    using assms unfolding table_evolves_def by (rule mp)
  show "table_ok U" by (rule conjunct1 [OF all])
  show "T k \<noteq> None \<Longrightarrow> U k \<noteq> None"
    by (rule conjunct1 [OF conjunct2 [OF all], rule_format])
  show "T (state_key t) = Some it \<Longrightarrow> checkpoint_item st v it \<Longrightarrow>
      \<exists>st' v' it'. U (state_key t) = Some it' \<and> checkpoint_item st' v' it' \<and> (st' = st \<and> v' = v \<or> v < v')"
    by (rule conjunct1 [OF conjunct2 [OF conjunct2 [OF all]], rule_format])
  show "T (approval_key t a) = Some it \<Longrightarrow> map_of it ''status'' = Some (A_Str x) \<Longrightarrow> x \<noteq> ''PENDING'' \<Longrightarrow>
      U (approval_key t a) = Some it"
    by (rule conjunct1 [OF conjunct2 [OF conjunct2 [OF conjunct2 [OF all]]], rule_format])
  show "T (result_key r) = Some it \<Longrightarrow> U (result_key r) = Some it"
    by (rule conjunct2 [OF conjunct2 [OF conjunct2 [OF conjunct2 [OF all]]], rule_format])
qed

lemma table_evolves_trans:
  assumes "table_evolves T U" and "table_evolves U V"
  shows "table_evolves T V"
  unfolding table_evolves_def
proof (intro impI conjI allI)
  assume ok: "table_ok T"
  then have okU: "table_ok U" using assms(1) by (simp add: table_evolves_def)
  then show "table_ok V" using assms(2) by (simp add: table_evolves_def)
  note T = table_evolvesD [OF assms(1) ok] and U = table_evolvesD [OF assms(2) okU]
  show "V k \<noteq> None" if "T k \<noteq> None" for k by (rule U(2) [OF T(2) [OF that]])
  show "\<exists>st' v' it'. V (state_key t) = Some it' \<and> checkpoint_item st' v' it' \<and> (st' = st \<and> v' = v \<or> v < v')"
    if "T (state_key t) = Some it" "checkpoint_item st v it" for t st v it
  proof -
    from T(3) [OF that] obtain st1 v1 it1 where 1: "U (state_key t) = Some it1" "checkpoint_item st1 v1 it1"
      "st1 = st \<and> v1 = v \<or> v < v1" by blast
    from U(3) [OF 1(1,2)] obtain st2 v2 it2 where 2: "V (state_key t) = Some it2" "checkpoint_item st2 v2 it2"
      "st2 = st1 \<and> v2 = v1 \<or> v1 < v2" by blast
    from 1(3) 2(3) have "st2 = st \<and> v2 = v \<or> v < v2" by auto
    with 2(1,2) show ?thesis by blast
  qed
  show "V (approval_key t a) = Some it"
    if "T (approval_key t a) = Some it" "map_of it ''status'' = Some (A_Str x)" "x \<noteq> ''PENDING''" for t a x it
    by (rule U(4) [OF T(4) [OF that] that(2,3)])
  show "V (result_key k) = Some it" if "T (result_key k) = Some it" for k it
    by (rule U(5) [OF T(5) [OF that]])
qed

lemma evolves_new_item:
  assumes "table_ok T \<Longrightarrow> T (key_of (keyed k it)) = None"
  shows "table_evolves T (T(k \<mapsto> keyed k it))"
  using assms by (auto simp: table_evolves_def table_ok_def)

lemma evolves_event_item: "table_evolves T (T(event_key t e \<mapsto> keyed (event_key t e) it))"
  by (auto simp: table_evolves_def table_ok_def simp del: split_paired_All)

lemma not_exist_None:
  "table_ok T \<Longrightarrow> satisfied (Some (Attributes_Not_Exist (''pk'' # ns))) (T k) \<Longrightarrow> T k = None"
  by (cases "T k"; cases k) (auto simp: table_ok_def)

lemma checkpoint_item_unique:
  "checkpoint_item st v it \<Longrightarrow> checkpoint_item st' v' it \<Longrightarrow> st' = st \<and> v' = v"
  by (simp add: checkpoint_item_def)

lemma table_ok_set:
  assumes "table_ok T" and "T k = Some it" and "''pk'' \<notin> fst ` set changes" and "''sk'' \<notin> fst ` set changes"
    and "distinct (map fst changes)"
  shows "table_ok (T(k \<mapsto> set_attributes changes it))"
proof -
  have "map_of changes ''pk'' = None" "map_of changes ''sk'' = None" using assms(3,4) by (auto simp: map_of_eq_None_iff)
  with assms show ?thesis by (auto simp: table_ok_def map_of_set_attributes)
qed

definition state_changes :: "workflow_state \<Rightarrow> int \<Rightarrow> int \<Rightarrow> item" where
  "state_changes st v now = [(''state_json'', A_State st), (''version'', A_Int v), (''updated_at'', A_Time now)]"

lemma checkpoint_item_set: "checkpoint_item st v (set_attributes (state_changes st v now) it)"
  by (simp add: checkpoint_item_def state_changes_def map_of_set_attributes)

lemma evolves_save_item:
  assumes "T (state_key t) = Some it" and "map_of it ''version'' = Some (A_Int v)" and "v < v'"
  shows "table_evolves T (T(state_key t \<mapsto> set_attributes (state_changes st v' now) it))"
proof -
  let ?U = "T(state_key t \<mapsto> set_attributes (state_changes st v' now) it)"
  have ok: "table_ok T \<Longrightarrow> table_ok ?U"
    by (rule table_ok_set) (simp_all add: assms(1) state_changes_def)
  have "\<exists>st1 v1 it1. ?U (state_key t1) = Some it1 \<and> checkpoint_item st1 v1 it1 \<and> (st1 = st0 \<and> v1 = v0 \<or> v0 < v1)"
    if "T (state_key t1) = Some it0" "checkpoint_item st0 v0 it0" for t1 st0 v0 it0
  proof (cases "t1 = t")
    case True
    then have "v0 = v" using that assms(1,2) by (simp add: checkpoint_item_def)
    then show ?thesis using True assms(3) checkpoint_item_set [of st v' now it] by auto
  next
    case False
    with that show ?thesis by auto
  qed
  then show ?thesis unfolding table_evolves_def using ok by auto
qed

lemma evolves_pending_item:
  assumes "T (approval_key t a) = Some it" and "map_of it ''status'' = Some (A_Str ''PENDING'')"
    and "''pk'' \<notin> fst ` set changes" and "''sk'' \<notin> fst ` set changes" and "distinct (map fst changes)"
  shows "table_evolves T (T(approval_key t a \<mapsto> set_attributes changes it))"
proof -
  have "table_ok T \<Longrightarrow> table_ok (T(approval_key t a \<mapsto> set_attributes changes it))"
    using assms by (auto intro: table_ok_set)
  then show ?thesis using assms(1,2) by (auto simp: table_evolves_def)
qed

section \<open>A table that others write to\<close>

locale shared_dynamo =
  fixes C :: "'s cloud"
    and table :: "'s \<Rightarrow> table"
    and calls :: "'s \<Rightarrow> 'c"
    and E :: "'s \<Rightarrow> 's \<Rightarrow> bool"
  assumes put: "wp (cl_put_item C it c)
      (\<lambda>_ t. \<exists>u. E s u \<and> satisfied c (table u (key_of it)) \<and> table t = (table u)(key_of it \<mapsto> it) \<and> calls t = calls u)
      (\<lambda>_ t. E s t \<or>
        (\<exists>u. E s u \<and> satisfied c (table u (key_of it)) \<and> table t = (table u)(key_of it \<mapsto> it) \<and> calls t = calls u)) s"
    and get: "wp (cl_get_item C k) (\<lambda>r t. E s t \<and> r = table t k) (\<lambda>_. E s) s"
    and update: "wp (cl_update_item C k changes cond)
      (\<lambda>_ t. \<exists>u. E s u \<and> satisfied (Some cond) (table u k) \<and>
        (\<forall>it. table u k = Some it \<longrightarrow> table t = (table u)(k \<mapsto> set_attributes changes it)) \<and> calls t = calls u)
      (\<lambda>_ t. E s t \<or> (\<exists>u. E s u \<and> satisfied (Some cond) (table u k) \<and>
        (\<forall>it. table u k = Some it \<longrightarrow> table t = (table u)(k \<mapsto> set_attributes changes it)) \<and> calls t = calls u)) s"
    and queries: "wp (cl_query_newest C ty n) (\<lambda>_. E s) (\<lambda>_. E s) s"
      "wp (cl_query_prefix C pk prefix) (\<lambda>_. E s) (\<lambda>_. E s) s"
    and queues: "wp (cl_send_message C url body) (\<lambda>_. E s) (\<lambda>_. E s) s"
      "wp (cl_receive_message C url n x vis names) (\<lambda>_. E s) (\<lambda>_. E s) s"
      "wp (cl_delete_message C url receipt) (\<lambda>_. E s) (\<lambda>_. E s) s"
      "wp (cl_change_visibility C url receipt vis) (\<lambda>_. E s) (\<lambda>_. E s) s"
      "wp (cl_queue_attributes C url names) (\<lambda>_. E s) (\<lambda>_. E s) s"
    and uuid: "E s (snd (cl_uuid C s))"

locale table_guarantee = shared_dynamo C table calls E + guarantee Q
  for C :: "'s cloud" and table :: "'s \<Rightarrow> table" and calls :: "'s \<Rightarrow> 'c" and E and Q :: "'s \<Rightarrow> 's \<Rightarrow> bool" +
  fixes allowed :: "workflow_state \<Rightarrow> bool"
  assumes others: "E s t \<Longrightarrow> Q s t"
    and q_event: "table t = (table s)(event_key w e \<mapsto> keyed (event_key w e) it) \<Longrightarrow> calls t = calls s \<Longrightarrow> Q s t"
    and q_new: "(table_ok (table s) \<Longrightarrow> table s k = None) \<Longrightarrow> (\<And>w. k \<noteq> state_key w) \<Longrightarrow>
      table t = (table s)(k \<mapsto> keyed k it) \<Longrightarrow> calls t = calls s \<Longrightarrow> Q s t"
    and q_create: "allowed st \<Longrightarrow> (table_ok (table s) \<Longrightarrow> table s (state_key (task_id st)) = None) \<Longrightarrow>
      table t = (table s)(state_key (task_id st) \<mapsto> state_item st) \<Longrightarrow> calls t = calls s \<Longrightarrow> Q s t"
    and q_save: "allowed st \<Longrightarrow> table s (state_key (task_id st)) = Some it \<Longrightarrow> map_of it ''version'' = Some (A_Int v) \<Longrightarrow>
      table t = (table s)(state_key (task_id st) \<mapsto>
        set_attributes (state_changes (st\<lparr>version := v + 1, updated_at := now\<rparr>) (v + 1) now) it) \<Longrightarrow>
      calls t = calls s \<Longrightarrow> Q s t"
    and q_resolve: "table s (approval_key w a) = Some it \<Longrightarrow> map_of it ''status'' = Some (A_Str ''PENDING'') \<Longrightarrow>
      ''pk'' \<notin> fst ` set changes \<Longrightarrow> ''sk'' \<notin> fst ` set changes \<Longrightarrow> distinct (map fst changes) \<Longrightarrow>
      table t = (table s)(approval_key w a \<mapsto> set_attributes changes it) \<Longrightarrow> calls t = calls s \<Longrightarrow> Q s t"

section \<open>The operations\<close>

lemma wp_on_client_error [wp_rules]: "wp (on_client_error m h) Q E s = wp m Q (\<lambda>code. wp (h code) Q E) s"
  by (simp add: wp_def on_client_error_def split: prod.split sum.split)

lemma wp_aws_call [wp_rules]: "wp (aws_call operation m) Q E s = wp m Q (\<lambda>code. E (aws_error operation code)) s"
  by (simp add: aws_call_def wp_on_client_error wp_raise [abs_def])

lemma wp_ignore_existing [wp_rules]:
  "wp (ignore_existing operation m) Q E s =
    wp m Q (\<lambda>code. if code = conditional_check_failed then Q () else E (aws_error operation code)) s"
proof -
  have "(\<lambda>code. wp (if code \<noteq> conditional_check_failed then raise (aws_error operation code) else ret ()) Q E) =
      (\<lambda>code. if code = conditional_check_failed then Q () else E (aws_error operation code))"
    by (auto simp: wp_raise wp_ret fun_eq_iff)
  then show ?thesis by (simp add: ignore_existing_def wp_on_client_error)
qed

context table_guarantee
begin

lemma relates_E:
  assumes "\<And>s. wp m (\<lambda>_. E s) (\<lambda>_. E s) s"
  shows "relates Q m"
  unfolding relates_wp by (rule allI, rule wp_mono [OF assms]) (simp_all add: others)

lemma relates_aws_call: "relates Q m \<Longrightarrow> relates Q (aws_call operation m)"
  unfolding relates_wp wp_aws_call .

lemma relates_handled:
  assumes "relates Q m" and "\<And>code. relates Q (h code)"
  shows "relates Q (on_client_error m h)"
  unfolding relates_wp wp_on_client_error
proof (rule allI)
  fix s
  have "wp m (\<lambda>_. Q s) (\<lambda>_. Q s) s" using assms(1) by (rule relates_wpD)
  then show "wp m (\<lambda>_. Q s) (\<lambda>code. wp (h code) (\<lambda>_. Q s) (\<lambda>_. Q s)) s"
  proof (rule wp_mono)
    fix e t
    assume st: "Q s t"
    have "wp (h e) (\<lambda>_. Q t) (\<lambda>_. Q t) t" using assms(2) by (rule relates_wpD)
    then show "wp (h e) (\<lambda>_. Q s) (\<lambda>_. Q s) t"
      by (rule wp_mono) (blast intro: R_trans [OF st])+
  qed simp
qed

lemma relates_get: "relates Q (cl_get_item C k)"
  by (rule relates_E, rule wp_mono [OF get]) simp_all

lemma relates_put:
  assumes "\<And>s t. satisfied c (table s (key_of it)) \<Longrightarrow> table t = (table s)(key_of it \<mapsto> it) \<Longrightarrow> calls t = calls s \<Longrightarrow> Q s t"
  shows "relates Q (cl_put_item C it c)"
  unfolding relates_wp
  by (rule allI, rule wp_mono [OF put]) (use assms in \<open>blast intro: others R_trans [OF others]\<close>)+

lemma relates_update:
  assumes "\<And>s t it. satisfied (Some (Attribute_Equals a x)) (table s k) \<Longrightarrow> table s k = Some it \<Longrightarrow>
    table t = (table s)(k \<mapsto> set_attributes changes it) \<Longrightarrow> calls t = calls s \<Longrightarrow> Q s t"
  shows "relates Q (cl_update_item C k changes (Attribute_Equals a x))"
proof -
  have step: "Q s t" if "E s u" "satisfied (Some (Attribute_Equals a x)) (table u k)"
      "\<forall>it. table u k = Some it \<longrightarrow> table t = (table u)(k \<mapsto> set_attributes changes it)" "calls t = calls u" for s t u
  proof -
    from that(2) obtain it where "table u k = Some it" by (auto split: option.splits)
    with that assms [of u it t] show ?thesis by (auto intro: R_trans [OF others])
  qed
  show ?thesis
    unfolding relates_wp
    by (rule allI, rule wp_mono [OF update]) (blast intro: others step)+
qed

lemma relates_put_new:
  assumes "\<And>w. k \<noteq> state_key w"
  shows "relates Q (cl_put_item C (keyed k it) (Some (Attributes_Not_Exist (''pk'' # ns))))"
proof (rule relates_put)
  fix s t
  assume s: "satisfied (Some (Attributes_Not_Exist (''pk'' # ns))) (table s (key_of (keyed k it)))"
    and t: "table t = (table s)(key_of (keyed k it) \<mapsto> keyed k it)" and c: "calls t = calls s"
  have "table_ok (table s) \<Longrightarrow> table s k = None" using s by (intro not_exist_None) simp_all
  then show "Q s t" by (rule q_new [OF _ assms]) (use t c in simp_all)
qed

lemma relates_put_state:
  assumes "allowed st"
  shows "relates Q (cl_put_item C (state_item st) (Some (Attributes_Not_Exist [''pk''])))"
proof (rule relates_put)
  fix s t
  assume s: "satisfied (Some (Attributes_Not_Exist [''pk''])) (table s (key_of (state_item st)))"
    and t: "table t = (table s)(key_of (state_item st) \<mapsto> state_item st)" and c: "calls t = calls s"
  have k: "key_of (state_item st) = state_key (task_id st)" by (simp add: state_item_def)
  have "table_ok (table s) \<Longrightarrow> table s (state_key (task_id st)) = None"
    using s k by (intro not_exist_None) simp_all
  then show "Q s t" by (rule q_create [OF assms]) (use t c k in simp_all)
qed

lemma relates_put_event: "relates Q (cl_put_item C (keyed (event_key w e) it) None)"
  by (rule relates_put) (simp add: q_event)

lemma relates_update_state:
  assumes "allowed st"
  shows "relates Q (cl_update_item C (state_key (task_id st))
    (state_changes (st\<lparr>version := v + 1, updated_at := now\<rparr>) (v + 1) now) (Attribute_Equals ''version'' (A_Int v)))"
  by (rule relates_update) (auto intro!: q_save [OF assms])

lemma relates_update_approval:
  assumes "''pk'' \<notin> fst ` set changes" and "''sk'' \<notin> fst ` set changes" and "distinct (map fst changes)"
  shows "relates Q (cl_update_item C (approval_key w a) changes (Attribute_Equals ''status'' (A_Str ''PENDING'')))"
  by (rule relates_update) (auto intro!: q_resolve [OF _ _ assms])

lemmas still = queries [THEN relates_E] queues [THEN relates_E]

text \<open>The operations of the store.\<close>

lemma relates_record_event: "relates Q (aws_record_event pf C now t ty p)"
proof (rule relatesI)
  fix s
  let ?s = "snd (cl_uuid C s)"
  let ?id = "iso_datetime pf now @ ''#'' @ fst (cl_uuid C s)"
  have "Q ?s (snd (aws_call ''record audit event'' (cl_put_item C (keyed (event_key t ?id)
      [(''entity_type'', A_Str ''EVENT''), (''event_id'', A_Str ?id), (''task_id'', A_Str t),
       (''event_type'', A_Str ty), (''payload_json'', A_Json p), (''created_at'', A_Time now)]) None) ?s))"
    by (rule relatesD [OF relates_aws_call [OF relates_put_event]])
  from R_trans [OF others [OF uuid] this] show "Q s (snd (aws_record_event pf C now t ty p s))"
    by (simp add: aws_record_event_def split_def Let_def)
qed

lemma relates_get_workflow: "relates Q (aws_get_workflow C t)"
  unfolding aws_get_workflow_def by (intro relates_rules relates_aws_call relates_get)

lemma relates_list_workflows: "relates Q (aws_list_workflows C l x)"
  unfolding aws_list_workflows_def Let_def by (intro relates_rules relates_aws_call still)

lemma relates_save_workflow: "allowed st \<Longrightarrow> relates Q (aws_save_workflow C now st v)"
  unfolding aws_save_workflow_def Let_def state_changes_def [symmetric]
  by (intro relates_rules relates_handled relates_update_state)

lemma relates_enqueue: "relates Q (aws_enqueue pf C url t m p)"
  unfolding aws_enqueue_def by (intro relates_rules relates_aws_call still)

lemma relates_create_workflow: "allowed st \<Longrightarrow> relates Q (aws_create_workflow pf C url now st m)"
  unfolding aws_create_workflow_def
  by (intro relates_rules relates_handled relates_put_state relates_record_event relates_enqueue)

lemma relates_claim: "relates Q (aws_claim pf C url wk ls)"
  unfolding aws_claim_def by (auto intro!: relates_rules relates_aws_call still split: list.split)

lemma relates_extend_lease: "relates Q (aws_extend_lease C url d ls)"
  unfolding aws_extend_lease_def by (intro relates_aws_call still)

lemma relates_acknowledge: "relates Q (aws_acknowledge C url did)"
  unfolding aws_acknowledge_def by (intro relates_aws_call still)

lemma relates_retry: "relates Q (aws_retry_or_dead_letter pf C url dlq d e b)"
  unfolding aws_retry_or_dead_letter_def by (intro relates_rules relates_aws_call still)

lemma relates_list_events: "relates Q (aws_list_events C t)"
  unfolding aws_list_events_def by (intro relates_rules relates_aws_call still)

lemma relates_save_result: "relates Q (aws_save_tool_result pf C now k t n a r)"
  unfolding aws_save_tool_result_def ignore_existing_def
  by (intro relates_rules relates_handled relates_put_new) simp

lemma relates_get_result: "relates Q (aws_get_tool_result pf C k a)"
  unfolding aws_get_tool_result_def by (intro relates_rules relates_aws_call relates_get)

lemma relates_create_approval: "relates Q (aws_create_approval C now t a)"
  unfolding aws_create_approval_def ignore_existing_def
  by (intro relates_rules relates_handled relates_put_new) simp

lemma relates_resolve_approval: "relates Q (aws_resolve_approval C now t a yes who why)"
  unfolding aws_resolve_approval_def by (intro relates_rules relates_handled relates_update_approval) simp_all

lemma relates_approval_status: "relates Q (aws_approval_status C t a)"
  unfolding aws_approval_status_def by (intro relates_rules relates_aws_call relates_get)

lemma relates_queue_counts: "relates Q (aws_queue_counts pf C url dlq)"
  unfolding aws_queue_counts_def by (intro relates_rules relates_aws_call still)

lemma relates_list_dead_letters: "relates Q (aws_list_dead_letters pf C dlq l)"
  unfolding aws_list_dead_letters_def by (intro relates_rules relates_aws_call still)

end

lemma aws_store_simps [simp]:
  "rs_create_workflow (aws_store pf C url dlq now) = aws_create_workflow pf C url now"
  "rs_get_workflow (aws_store pf C url dlq now) = aws_get_workflow C"
  "rs_list_workflows (aws_store pf C url dlq now) = aws_list_workflows C"
  "rs_save_workflow (aws_store pf C url dlq now) = aws_save_workflow C now"
  "rs_enqueue (aws_store pf C url dlq now) = aws_enqueue pf C url"
  "rs_claim (aws_store pf C url dlq now) = aws_claim pf C url"
  "rs_extend_lease (aws_store pf C url dlq now) = aws_extend_lease C url"
  "rs_acknowledge (aws_store pf C url dlq now) = aws_acknowledge C url"
  "rs_retry_or_dead_letter (aws_store pf C url dlq now) = aws_retry_or_dead_letter pf C url dlq"
  "rs_record_event (aws_store pf C url dlq now) = aws_record_event pf C now"
  "rs_list_events (aws_store pf C url dlq now) = aws_list_events C"
  "rs_arguments_hash (aws_store pf C url dlq now) = aws_arguments_hash pf"
  "rs_get_tool_result (aws_store pf C url dlq now) = aws_get_tool_result pf C"
  "rs_save_tool_result (aws_store pf C url dlq now) = aws_save_tool_result pf C now"
  "rs_create_approval (aws_store pf C url dlq now) = aws_create_approval C now"
  "rs_resolve_approval (aws_store pf C url dlq now) = aws_resolve_approval C now"
  "rs_approval_status (aws_store pf C url dlq now) = aws_approval_status C"
  "rs_queue_counts (aws_store pf C url dlq now) = aws_queue_counts pf C url dlq"
  "rs_list_dead_letters (aws_store pf C url dlq now) = aws_list_dead_letters pf C dlq"
  "rs_replay_dead_letter (aws_store pf C url dlq now) = aws_replay_dead_letter pf C url dlq now"
  by (simp_all add: aws_store_def)

text \<open>When every state is allowed, the whole store stays within the relation.\<close>

locale total_table_guarantee = table_guarantee C table calls E Q "\<lambda>_. True"
  for C :: "'s cloud" and table :: "'s \<Rightarrow> table" and calls :: "'s \<Rightarrow> 'c" and E Q

context total_table_guarantee
begin

lemma relates_replay: "relates Q (aws_replay_dead_letter pf C url dlq now did t m who why)"
  unfolding aws_replay_dead_letter_def
  by (intro relates_rules relates_aws_call still relates_get_workflow relates_save_workflow relates_record_event TrueI)

lemma store_relates: "store_guarantee Q (aws_store pf C url dlq now)"
  by unfold_locales
     (simp_all add: relates_create_workflow relates_get_workflow relates_list_workflows relates_save_workflow relates_enqueue
       relates_claim relates_extend_lease relates_acknowledge relates_retry relates_record_event relates_list_events
       relates_create_approval relates_resolve_approval relates_approval_status relates_queue_counts
       relates_list_dead_letters relates_replay)

end

sublocale total_table_guarantee \<subseteq> aws: store_guarantee Q "aws_store pf C url dlq now" for pf url dlq now
  by (rule store_relates)

end
