(* ===== verification/Aws_Laws.thy ===== *)
theory Aws_Laws
  imports Shared_Table
begin

text \<open>
  What the AWS store keeps and promises when nobody else writes, given what DynamoDB documents: a conditional
  write either happens, with its condition true, or leaves the table alone; reads are consistent; queue calls
  do not touch the table. Any call may fail. The locale \<open>dynamo\<close> states this. It is a \<open>shared_dynamo\<close> with
  idle others, so whatever the store does - failing services included - the table only evolves: no item
  disappears, checkpoints only advance, resolved approvals and recorded results stay.
\<close>

locale dynamo =
  fixes C :: "'s cloud"
    and table :: "'s \<Rightarrow> table"
  assumes put: "wp (cl_put_item C it c)
      (\<lambda>_ t. satisfied c (table s (key_of it)) \<and> table t = (table s)(key_of it \<mapsto> it))
      (\<lambda>e t. table t = table s \<and> (e = conditional_check_failed \<longrightarrow> \<not> satisfied c (table s (key_of it)))) s"
    and get: "wp (cl_get_item C k) (\<lambda>r t. r = table s k \<and> table t = table s)
      (\<lambda>e t. table t = table s \<and> e \<noteq> conditional_check_failed) s"
    and update: "wp (cl_update_item C k changes cond)
      (\<lambda>_ t. satisfied (Some cond) (table s k) \<and>
        (\<forall>it. table s k = Some it \<longrightarrow> table t = (table s)(k \<mapsto> set_attributes changes it)))
      (\<lambda>e t. table t = table s \<and> (e = conditional_check_failed \<longrightarrow> \<not> satisfied (Some cond) (table s k))) s"
    and queries: "wp (cl_query_newest C ty n) (\<lambda>_ t. table t = table s) (\<lambda>_ t. table t = table s) s"
      "wp (cl_query_prefix C pk prefix) (\<lambda>_ t. table t = table s) (\<lambda>_ t. table t = table s) s"
    and queues: "wp (cl_send_message C url body) (\<lambda>_ t. table t = table s) (\<lambda>_ t. table t = table s) s"
      "wp (cl_receive_message C url n x vis names) (\<lambda>_ t. table t = table s) (\<lambda>_ t. table t = table s) s"
      "wp (cl_delete_message C url receipt) (\<lambda>_ t. table t = table s) (\<lambda>_ t. table t = table s) s"
      "wp (cl_change_visibility C url receipt vis) (\<lambda>_ t. table t = table s) (\<lambda>_ t. table t = table s) s"
      "wp (cl_queue_attributes C url names) (\<lambda>_ t. table t = table s) (\<lambda>_ t. table t = table s) s"
    and uuid: "table (snd (cl_uuid C s)) = table s"

sublocale dynamo \<subseteq> alone: shared_dynamo C table "\<lambda>_. ()" "\<lambda>s t. table t = table s"
proof
  fix s it c k changes cond
  show "wp (cl_put_item C it c)
      (\<lambda>_ t. \<exists>u. table u = table s \<and> satisfied c (table u (key_of it)) \<and> table t = (table u)(key_of it \<mapsto> it) \<and> () = ())
      (\<lambda>_ t. table t = table s \<or> (\<exists>u. table u = table s \<and> satisfied c (table u (key_of it)) \<and>
        table t = (table u)(key_of it \<mapsto> it) \<and> () = ())) s"
    by (rule wp_mono [OF put]) auto
  show "wp (cl_get_item C k) (\<lambda>r t. table t = table s \<and> r = table t k) (\<lambda>_ t. table t = table s) s"
    by (rule wp_mono [OF get]) auto
  show "wp (cl_update_item C k changes cond)
      (\<lambda>_ t. \<exists>u. table u = table s \<and> satisfied (Some cond) (table u k) \<and>
        (\<forall>it. table u k = Some it \<longrightarrow> table t = (table u)(k \<mapsto> set_attributes changes it)) \<and> () = ())
      (\<lambda>_ t. table t = table s \<or> (\<exists>u. table u = table s \<and> satisfied (Some cond) (table u k) \<and>
        (\<forall>it. table u k = Some it \<longrightarrow> table t = (table u)(k \<mapsto> set_attributes changes it)) \<and> () = ())) s"
    by (rule wp_mono [OF update]) auto
qed (rule queries queues uuid)+

text \<open>A relation that lets a table evolve allows every write of the store.\<close>

lemma evolving_writes:
  "table_evolves T (T(event_key w e \<mapsto> keyed (event_key w e) it))"
  "(table_ok T \<Longrightarrow> T k = None) \<Longrightarrow> table_evolves T (T(k \<mapsto> keyed k it))"
  "(table_ok T \<Longrightarrow> T (state_key (task_id st)) = None) \<Longrightarrow> table_evolves T (T(state_key (task_id st) \<mapsto> state_item st))"
  using evolves_new_item [of T k it] evolves_new_item [of T "state_key (task_id st)"]
  by (simp_all add: evolves_event_item state_item_def)

sublocale dynamo \<subseteq> tables: total_table_guarantee C table "\<lambda>_. ()" "\<lambda>s t. table t = table s"
    "\<lambda>s t. table_evolves (table s) (table t)"
  by unfold_locales
     (auto simp: table_evolves_refl evolving_writes intro: table_evolves_trans evolves_save_item evolves_pending_item)

context dynamo
begin

abbreviation evolving_table :: "'s \<Rightarrow> 's \<Rightarrow> bool" where
  "evolving_table s t \<equiv> table_evolves (table s) (table t)"

end

end
