(* ===== verification/Aws_Contracts.thy ===== *)
theory Aws_Contracts
  imports Aws_Laws Sql_Evolution
begin

text \<open>
  The AWS store as a provider of the contracts: with DynamoDB answering (no throttling, no outage), it
  satisfies \<open>checkpoint_store\<close>, \<open>idempotency_ledger\<close> and \<open>approval_ledger\<close> like the SQLite store, and the
  two agree call by call. A table in memory provides the laws of \<open>dynamo\<close>. The last sections are about
  the queue: what comes back from a message, retry delays, dead letters.
\<close>

section \<open>The abstract view of the table\<close>

definition aws_checkpoint :: "table \<Rightarrow> string \<Rightarrow> workflow_state option" where
  "aws_checkpoint T t =
     (case T (state_key t) of None \<Rightarrow> None
      | Some it \<Rightarrow> (case map_of it ''state_json'' of Some (A_State st) \<Rightarrow> Some st | _ \<Rightarrow> None))"

definition aws_ledger :: "table \<Rightarrow> string \<Rightarrow> (string \<times> dict) option" where
  "aws_ledger T k =
     (case T (result_key k) of None \<Rightarrow> None
      | Some it \<Rightarrow> (case (map_of it ''arguments_hash'', map_of it ''result_json'') of
            (Some (A_Str h), Some (A_Json d)) \<Rightarrow> Some (h, d) | _ \<Rightarrow> None))"

definition aws_approval :: "table \<Rightarrow> string \<Rightarrow> string \<Rightarrow> string option" where
  "aws_approval T t a =
     (case T (approval_key t a) of None \<Rightarrow> None
      | Some it \<Rightarrow> (case map_of it ''status'' of Some (A_Str x) \<Rightarrow> Some x | _ \<Rightarrow> None))"

text \<open>The items the store writes: what each kind of item holds.\<close>

definition state_item_ok :: "string \<Rightarrow> item \<Rightarrow> bool" where
  "state_item_ok t it \<longleftrightarrow> (\<exists>st. checkpoint_item st (version st) it \<and> task_id st = t)"

definition cloud_ok :: "table \<Rightarrow> bool" where
  "cloud_ok T \<longleftrightarrow> table_ok T \<and> (\<forall>t it. T (state_key t) = Some it \<longrightarrow> state_item_ok t it) \<and>
     (\<forall>k it. T (result_key k) = Some it \<longrightarrow>
        (\<exists>h d. map_of it ''arguments_hash'' = Some (A_Str h) \<and> map_of it ''result_json'' = Some (A_Json d))) \<and>
     (\<forall>t a it. T (approval_key t a) = Some it \<longrightarrow> (\<exists>x. map_of it ''status'' = Some (A_Str x)))"

lemma cloud_okD:
  assumes "cloud_ok T"
  shows "table_ok T" and "T (state_key t) = Some it \<Longrightarrow> state_item_ok t it"
    and "T (result_key k) = Some it \<Longrightarrow>
      \<exists>h d. map_of it ''arguments_hash'' = Some (A_Str h) \<and> map_of it ''result_json'' = Some (A_Json d)"
    and "T (approval_key t a) = Some it \<Longrightarrow> \<exists>x. map_of it ''status'' = Some (A_Str x)"
  using assms unfolding cloud_ok_def by blast+

lemma checkpoint_cases:
  assumes "cloud_ok T"
  obtains (none) "T (state_key t) = None" "aws_checkpoint T t = None"
  | (some) it st where "T (state_key t) = Some it" "checkpoint_item st (version st) it" "task_id st = t"
      "aws_checkpoint T t = Some st"
proof (cases "T (state_key t)")
  case None
  then show thesis by (intro none) (simp_all add: aws_checkpoint_def)
next
  case (Some it)
  then obtain st where "checkpoint_item st (version st) it" "task_id st = t"
    using cloud_okD(2) [OF assms] by (auto simp: state_item_ok_def)
  with Some show thesis by (intro some) (simp_all add: aws_checkpoint_def checkpoint_item_def)
qed

lemma ledger_cases:
  assumes "cloud_ok T"
  obtains (none) "T (result_key k) = None" "aws_ledger T k = None"
  | (some) it h d where "T (result_key k) = Some it" "map_of it ''arguments_hash'' = Some (A_Str h)"
      "map_of it ''result_json'' = Some (A_Json d)" "aws_ledger T k = Some (h, d)"
proof (cases "T (result_key k)")
  case None
  then show thesis by (intro none) (simp_all add: aws_ledger_def)
next
  case (Some it)
  then obtain h d where "map_of it ''arguments_hash'' = Some (A_Str h)" "map_of it ''result_json'' = Some (A_Json d)"
    using cloud_okD(3) [OF assms] by blast
  with Some show thesis by (intro some) (simp_all add: aws_ledger_def)
qed

lemma approval_cases:
  assumes "cloud_ok T"
  obtains (none) "T (approval_key t a) = None" "aws_approval T t a = None"
  | (some) it x where "T (approval_key t a) = Some it" "map_of it ''status'' = Some (A_Str x)"
      "aws_approval T t a = Some x"
proof (cases "T (approval_key t a)")
  case None
  then show thesis by (intro none) (simp_all add: aws_approval_def)
next
  case (Some it)
  then obtain x where "map_of it ''status'' = Some (A_Str x)" using cloud_okD(4) [OF assms] by blast
  with Some show thesis by (intro some) (simp_all add: aws_approval_def)
qed

lemma item_not_empty: "table_ok T \<Longrightarrow> T k = Some it \<Longrightarrow> found_item (Some it) = Some it"
proof -
  assume "table_ok T" and "T k = Some it"
  then have "map_of it ''pk'' = Some (A_Str (fst k))" unfolding table_ok_def by blast
  then show ?thesis by (auto simp: found_item_def)
qed

text \<open>What one written item changes.\<close>

lemma cloud_ok_upd:
  assumes "cloud_ok T" and "map_of it ''pk'' = Some (A_Str (fst k))" and "map_of it ''sk'' = Some (A_Str (snd k))"
    and "\<And>t. k = state_key t \<Longrightarrow> state_item_ok t it"
    and "\<And>r. k = result_key r \<Longrightarrow>
      \<exists>h d. map_of it ''arguments_hash'' = Some (A_Str h) \<and> map_of it ''result_json'' = Some (A_Json d)"
    and "\<And>t a. k = approval_key t a \<Longrightarrow> \<exists>x. map_of it ''status'' = Some (A_Str x)"
  shows "cloud_ok (T(k \<mapsto> it))"
proof -
  have "table_ok (T(k \<mapsto> it))"
    using cloud_okD(1) [OF assms(1)] assms(2,3) by (simp add: table_ok_def del: split_paired_All)
  then show ?thesis
    using cloud_okD(2-4) [OF assms(1)] assms(4-6) unfolding cloud_ok_def by (auto simp del: split_paired_All)
qed

lemma view_upd [simp]:
  "aws_checkpoint (T(state_key t \<mapsto> it)) = (aws_checkpoint T)(t := aws_checkpoint (\<lambda>_. Some it) t)"
  "aws_checkpoint (T(result_key k \<mapsto> it)) = aws_checkpoint T"
  "aws_checkpoint (T(approval_key t a \<mapsto> it)) = aws_checkpoint T"
  "aws_ledger (T(state_key t \<mapsto> it)) = aws_ledger T"
  "aws_ledger (T(result_key k \<mapsto> it)) = (aws_ledger T)(k := aws_ledger (\<lambda>_. Some it) k)"
  "aws_ledger (T(approval_key t a \<mapsto> it)) = aws_ledger T"
  "aws_approval (T(state_key t \<mapsto> it)) = aws_approval T"
  "aws_approval (T(result_key k \<mapsto> it)) = aws_approval T"
  by (auto simp: aws_checkpoint_def aws_ledger_def aws_approval_def fun_eq_iff)

lemma approval_upd [simp]:
  "aws_approval (T(approval_key t a \<mapsto> it)) =
    (aws_approval T)(t := (aws_approval T t)(a := aws_approval (\<lambda>_. Some it) t a))"
  by (auto simp: aws_approval_def fun_eq_iff)

lemma event_upd [simp]:
  "aws_checkpoint (T(event_key t e \<mapsto> it)) = aws_checkpoint T"
  "aws_ledger (T(event_key t e \<mapsto> it)) = aws_ledger T"
  "aws_approval (T(event_key t e \<mapsto> it)) = aws_approval T"
  by (simp_all add: aws_checkpoint_def aws_ledger_def aws_approval_def fun_eq_iff)

section \<open>A table that answers\<close>

text \<open>DynamoDB without outages: a call fails only when its condition is false, and then has no effect.\<close>

locale dynamo_up = dynamo C table for C :: "'s cloud" and table :: "'s \<Rightarrow> table" +
  assumes get_answers: "cl_get_item C k s = (Inr (table s k), s)"
    and put_answers: "satisfied c (table s (key_of it)) \<Longrightarrow> \<exists>t. cl_put_item C it c s = (Inr (), t)"
    and put_refused: "\<not> satisfied c (table s (key_of it)) \<Longrightarrow> cl_put_item C it c s = (Inl conditional_check_failed, s)"
    and update_answers: "satisfied (Some cond) (table s k) \<Longrightarrow> \<exists>t. cl_update_item C k changes cond s = (Inr (), t)"
    and update_refused: "\<not> satisfied (Some cond) (table s k) \<Longrightarrow>
      cl_update_item C k changes cond s = (Inl conditional_check_failed, s)"
    and send_answers: "\<exists>i t. cl_send_message C url body s = (Inr i, t)"
begin

lemma put_effect:
  assumes "satisfied c (table s (key_of it))"
  obtains t where "cl_put_item C it c s = (Inr (), t)" "table t = (table s)(key_of it \<mapsto> it)"
proof -
  obtain t where t: "cl_put_item C it c s = (Inr (), t)" using put_answers [OF assms] by blast
  moreover have "table t = (table s)(key_of it \<mapsto> it)" using put [of it c s] t by (simp add: wp_def)
  ultimately show thesis by (rule that)
qed

lemma update_effect:
  assumes "satisfied (Some cond) (table s k)" and "table s k = Some it"
  obtains t where "cl_update_item C k changes cond s = (Inr (), t)"
    "table t = (table s)(k \<mapsto> set_attributes changes it)"
proof -
  obtain t where t: "cl_update_item C k changes cond s = (Inr (), t)" using update_answers [OF assms(1)] by blast
  moreover have "table t = (table s)(k \<mapsto> set_attributes changes it)"
    using update [of k changes cond s] t assms(2) by (simp add: wp_def)
  ultimately show thesis by (rule that)
qed

lemma aws_get_eq:
  assumes ok: "cloud_ok (table s)"
  shows "aws_get_workflow C t s = (Inr (aws_checkpoint (table s) t), s)"
  using ok
proof (cases rule: checkpoint_cases [where t = t])
  case none
  then show ?thesis
    by (simp add: aws_get_workflow_def aws_call_def on_client_error_def bindE_def get_answers found_item_def ret_def)
next
  case (some it st)
  have "found_item (Some it) = Some it" by (rule item_not_empty [OF cloud_okD(1) [OF ok] some(1)])
  moreover have "item_state it = Inr st" using some(2) by (simp add: item_state_def attribute_of_def checkpoint_item_def)
  ultimately show ?thesis using some(1,4)
    by (simp add: aws_get_workflow_def aws_call_def on_client_error_def bindE_def get_answers lift_sum_def ret_def)
qed

lemma aws_save_fresh:
  assumes ok: "cloud_ok (table s)" and old: "aws_checkpoint (table s) (task_id st) = Some old" and v: "version old = v"
  obtains s' where "aws_save_workflow C now st v s = (Inr (st\<lparr>version := v + 1, updated_at := now\<rparr>), s')"
    "aws_checkpoint (table s') = (aws_checkpoint (table s))(task_id st \<mapsto> st\<lparr>version := v + 1, updated_at := now\<rparr>)"
    "aws_ledger (table s') = aws_ledger (table s)" "aws_approval (table s') = aws_approval (table s)" "cloud_ok (table s')"
  using ok
proof (cases rule: checkpoint_cases [where t = "task_id st"])
  case none
  with old show thesis by simp
next
  case (some it st0)
  let ?st = "st\<lparr>version := v + 1, updated_at := now\<rparr>"
  let ?new = "set_attributes (state_changes ?st (v + 1) now) it"
  have "version st0 = v" using some(4) old v by simp
  then have "satisfied (Some (Attribute_Equals ''version'' (A_Int v))) (table s (state_key (task_id st)))"
    using some(1,2) by (simp add: checkpoint_item_def)
  from update_effect [OF this some(1), of "state_changes ?st (v + 1) now"] obtain s' where
    s': "cl_update_item C (state_key (task_id st)) (state_changes ?st (v + 1) now)
        (Attribute_Equals ''version'' (A_Int v)) s = (Inr (), s')"
      "table s' = (table s)(state_key (task_id st) \<mapsto> ?new)" by blast
  have new: "checkpoint_item ?st (version ?st) ?new" using checkpoint_item_set [of ?st "v + 1" now it] by simp
  have run: "aws_save_workflow C now st v s = (Inr ?st, s')"
    using s'(1) by (simp add: aws_save_workflow_def on_client_error_def bindE_def ret_def Let_def state_changes_def)
  have view: "aws_checkpoint (table s') = (aws_checkpoint (table s))(task_id st \<mapsto> ?st)"
    using new by (simp add: s'(2)) (simp add: aws_checkpoint_def checkpoint_item_def)
  have "table_ok (table s)" by (rule cloud_okD(1) [OF ok])
  then have "map_of it ''pk'' = Some (A_Str (fst (state_key (task_id st))))" "map_of it ''sk'' = Some (A_Str (snd (state_key (task_id st))))"
    using some(1) by (simp_all add: table_ok_def del: split_paired_All)
  then have pk: "map_of ?new ''pk'' = Some (A_Str (fst (state_key (task_id st))))"
    and sk: "map_of ?new ''sk'' = Some (A_Str (snd (state_key (task_id st))))"
    by (simp_all add: state_changes_def map_of_set_attributes)
  have item: "state_item_ok (task_id st) ?new"
    unfolding state_item_ok_def by (rule exI [of _ ?st]) (use new in simp)
  have kept: "cloud_ok (table s')" unfolding s'(2)
    by (rule cloud_ok_upd [OF ok pk sk]) (use item in auto)
  have "aws_ledger (table s') = aws_ledger (table s)" "aws_approval (table s') = aws_approval (table s)"
    by (simp_all add: s'(2))
  from that [OF run view this kept] show thesis .
qed

lemma aws_save_stale:
  assumes ok: "cloud_ok (table s)" and old: "\<forall>old. aws_checkpoint (table s) (task_id st) = Some old \<longrightarrow> version old \<noteq> v"
  shows "aws_save_workflow C now st v s = (Inl (ConcurrentUpdateError (''stale checkpoint for '' @ task_id st)), s)"
proof -
  have "\<not> satisfied (Some (Attribute_Equals ''version'' (A_Int v))) (table s (state_key (task_id st)))"
    using ok
  proof (cases rule: checkpoint_cases [where t = "task_id st"])
    case none
    then show ?thesis by simp
  next
    case (some it st0)
    with old show ?thesis by (auto simp: checkpoint_item_def)
  qed
  then show ?thesis
    by (simp add: aws_save_workflow_def on_client_error_def bindE_def update_refused raise_def Let_def)
qed

end

sublocale dynamo_up \<subseteq> aws_checkpoints: checkpoint_store "aws_store pf C url dlq now"
    "\<lambda>s. aws_checkpoint (table s)" "\<lambda>s. cloud_ok (table s)" for pf url dlq now
proof
  fix s :: 's and st old :: workflow_state and v :: int
  assume ok: "cloud_ok (table s)"
  show "rs_get_workflow (aws_store pf C url dlq now) t s = (Inr (aws_checkpoint (table s) t), s)" for t
    using aws_get_eq [OF ok] by simp
  show "\<exists>st' s'. rs_save_workflow (aws_store pf C url dlq now) st v s = (Inr st', s') \<and> version st' = v + 1 \<and>
      task_id st' = task_id st \<and> status st' = status st \<and>
      aws_checkpoint (table s') = (aws_checkpoint (table s))(task_id st \<mapsto> st') \<and> cloud_ok (table s')"
    if "aws_checkpoint (table s) (task_id st) = Some old" "version old = v"
  proof -
    from aws_save_fresh [OF ok that] obtain s' where
      "aws_save_workflow C now st v s = (Inr (st\<lparr>version := v + 1, updated_at := now\<rparr>), s')"
      "aws_checkpoint (table s') = (aws_checkpoint (table s))(task_id st \<mapsto> st\<lparr>version := v + 1, updated_at := now\<rparr>)"
      "cloud_ok (table s')" by metis
    then show ?thesis by simp
  qed
  show "rs_save_workflow (aws_store pf C url dlq now) st v s =
      (Inl (ConcurrentUpdateError (''stale checkpoint for '' @ task_id st)), s)"
    if "\<forall>old. aws_checkpoint (table s) (task_id st) = Some old \<longrightarrow> version old \<noteq> v"
    using aws_save_stale [OF ok that] by simp
qed


section \<open>Recorded results and approvals\<close>

definition resolution :: "bool \<Rightarrow> string \<Rightarrow> string option \<Rightarrow> int \<Rightarrow> item" where
  "resolution yes who why now =
     [(''status'', A_Str (if yes then ''APPROVED'' else ''REJECTED'')), (''actor'', A_Str who),
      (''reason'', A_Str (case why of None \<Rightarrow> [] | Some x \<Rightarrow> x)), (''resolved_at'', A_Time now)]"

context dynamo_up
begin

lemma put_new_effect:
  assumes "table s k = None"
  obtains s' where "cl_put_item C (keyed k it) (Some (Attributes_Not_Exist ns)) s = (Inr (), s')"
    "table s' = (table s)(k \<mapsto> keyed k it)"
proof -
  have "satisfied (Some (Attributes_Not_Exist ns)) (table s (key_of (keyed k it)))" using assms by simp
  from put_effect [OF this] show thesis using that by auto
qed

lemma put_again_refused:
  assumes "table_ok (table s)" and "table s k = Some x"
  shows "cl_put_item C (keyed k it) (Some (Attributes_Not_Exist (''pk'' # ns))) s = (Inl conditional_check_failed, s)"
proof (rule put_refused)
  show "\<not> satisfied (Some (Attributes_Not_Exist (''pk'' # ns))) (table s (key_of (keyed k it)))"
    using not_exist_None [OF assms(1), of ns k] assms(2) by auto
qed

lemma aws_result_miss:
  assumes "cloud_ok (table s)" and "aws_ledger (table s) k = None"
  shows "aws_get_tool_result pf C k a s = (Inr None, s)"
  using assms(1)
proof (cases rule: ledger_cases [where k = k])
  case none
  then show ?thesis
    by (simp add: aws_get_tool_result_def aws_call_def on_client_error_def bindE_def get_answers found_item_def ret_def)
next
  case (some it h d)
  with assms(2) show ?thesis by simp
qed

lemma aws_result_found:
  assumes ok: "cloud_ok (table s)" and "aws_ledger (table s) k = Some (h, d)"
  shows "aws_get_tool_result pf C k a s =
    (if h = aws_arguments_hash pf a then (Inr (Some d), s)
     else (Inl (ValueError ''idempotency key reused with different arguments''), s))"
  using ok
proof (cases rule: ledger_cases [where k = k])
  case none
  with assms(2) show ?thesis by simp
next
  case (some it h' d')
  have "found_item (Some it) = Some it" by (rule item_not_empty [OF cloud_okD(1) [OF ok] some(1)])
  then show ?thesis using some assms(2)
    by (simp add: aws_get_tool_result_def aws_call_def on_client_error_def bindE_def get_answers item_text_def
        item_json_def attribute_of_def lift_sum_def ret_def raise_def)
qed

lemma aws_save_result_first:
  assumes ok: "cloud_ok (table s)" and none: "aws_ledger (table s) k = None"
  obtains s' where "aws_save_tool_result pf C now k t n a r s = (Inr (), s')" "cloud_ok (table s')"
    "aws_ledger (table s') = (aws_ledger (table s))(k \<mapsto> (aws_arguments_hash pf a, r))"
    "aws_checkpoint (table s') = aws_checkpoint (table s)" "aws_approval (table s') = aws_approval (table s)"
proof -
  let ?it = "[(''entity_type'', A_Str ''TOOL_RESULT''), (''task_id'', A_Str t), (''tool_name'', A_Str n),
    (''arguments_hash'', A_Str (aws_arguments_hash pf a)), (''result_json'', A_Json r), (''created_at'', A_Time now)]"
  have "table s (result_key k) = None" using ok none by (cases rule: ledger_cases [where k = k]) simp_all
  from put_new_effect [OF this, of ?it "[''pk'']"] obtain s' where
    s': "cl_put_item C (keyed (result_key k) ?it) (Some (Attributes_Not_Exist [''pk''])) s = (Inr (), s')"
      "table s' = (table s)(result_key k \<mapsto> keyed (result_key k) ?it)" by blast
  have run: "aws_save_tool_result pf C now k t n a r s = (Inr (), s')"
    using s'(1) by (simp add: aws_save_tool_result_def ignore_existing_def on_client_error_def)
  have kept: "cloud_ok (table s')"
    unfolding s'(2) by (rule cloud_ok_upd [OF ok]) auto
  have "aws_ledger (table s') = (aws_ledger (table s))(k \<mapsto> (aws_arguments_hash pf a, r))"
    by (simp add: s'(2)) (simp add: aws_ledger_def)
  moreover have "aws_checkpoint (table s') = aws_checkpoint (table s)" "aws_approval (table s') = aws_approval (table s)"
    by (simp_all add: s'(2))
  ultimately show thesis by (rule that [OF run kept])
qed

lemma aws_save_result_again:
  assumes ok: "cloud_ok (table s)" and "aws_ledger (table s) k = Some x"
  shows "aws_save_tool_result pf C now k t n a r s = (Inr (), s)"
  using ok
proof (cases rule: ledger_cases [where k = k])
  case none
  with assms(2) show ?thesis by simp
next
  case (some it h d)
  from put_again_refused [OF cloud_okD(1) [OF ok] some(1)] show ?thesis
    by (simp add: aws_save_tool_result_def ignore_existing_def on_client_error_def ret_def)
qed

lemma aws_approval_eq:
  assumes ok: "cloud_ok (table s)"
  shows "aws_approval_status C t a s = (Inr (aws_approval (table s) t a), s)"
  using ok
proof (cases rule: approval_cases [where t = t and a = a])
  case none
  then show ?thesis
    by (simp add: aws_approval_status_def aws_call_def on_client_error_def bindE_def get_answers found_item_def ret_def)
next
  case (some it x)
  have "found_item (Some it) = Some it" by (rule item_not_empty [OF cloud_okD(1) [OF ok] some(1)])
  then show ?thesis using some
    by (simp add: aws_approval_status_def aws_call_def on_client_error_def bindE_def get_answers item_text_def
        attribute_of_def lift_sum_def ret_def)
qed

lemma aws_create_approval_new:
  assumes ok: "cloud_ok (table s)" and none: "aws_approval (table s) t a = None"
  obtains s' where "aws_create_approval C now t a s = (Inr (), s')" "cloud_ok (table s')"
    "aws_approval (table s') = (aws_approval (table s))(t := (aws_approval (table s) t)(a \<mapsto> ''PENDING''))"
    "aws_checkpoint (table s') = aws_checkpoint (table s)" "aws_ledger (table s') = aws_ledger (table s)"
proof -
  let ?it = "[(''entity_type'', A_Str ''APPROVAL''), (''status'', A_Str ''PENDING''), (''created_at'', A_Time now)]"
  have "table s (approval_key t a) = None"
    using ok none by (cases rule: approval_cases [where t = t and a = a]) simp_all
  from put_new_effect [OF this, of ?it "[''pk'', ''sk'']"] obtain s' where
    s': "cl_put_item C (keyed (approval_key t a) ?it) (Some (Attributes_Not_Exist [''pk'', ''sk''])) s = (Inr (), s')"
      "table s' = (table s)(approval_key t a \<mapsto> keyed (approval_key t a) ?it)" by blast
  have run: "aws_create_approval C now t a s = (Inr (), s')"
    using s'(1) by (simp add: aws_create_approval_def ignore_existing_def on_client_error_def)
  have kept: "cloud_ok (table s')"
    unfolding s'(2) by (rule cloud_ok_upd [OF ok]) auto
  have "aws_approval (table s') = (aws_approval (table s))(t := (aws_approval (table s) t)(a \<mapsto> ''PENDING''))"
    by (simp add: s'(2)) (simp add: aws_approval_def)
  moreover have "aws_checkpoint (table s') = aws_checkpoint (table s)" "aws_ledger (table s') = aws_ledger (table s)"
    by (simp_all add: s'(2))
  ultimately show thesis by (rule that [OF run kept])
qed

lemma aws_create_approval_again:
  assumes ok: "cloud_ok (table s)" and "aws_approval (table s) t a = Some x"
  shows "aws_create_approval C now t a s = (Inr (), s)"
  using ok
proof (cases rule: approval_cases [where t = t and a = a])
  case none
  with assms(2) show ?thesis by simp
next
  case (some it y)
  from put_again_refused [OF cloud_okD(1) [OF ok] some(1)] show ?thesis
    by (simp add: aws_create_approval_def ignore_existing_def on_client_error_def ret_def)
qed

lemma aws_resolve_pending:
  assumes ok: "cloud_ok (table s)" and pending: "aws_approval (table s) t a = Some ''PENDING''"
  obtains s' where "aws_resolve_approval C now t a yes who why s = (Inr (), s')" "cloud_ok (table s')"
    "aws_approval (table s') = (aws_approval (table s))
       (t := (aws_approval (table s) t)(a \<mapsto> (if yes then ''APPROVED'' else ''REJECTED'')))"
    "aws_checkpoint (table s') = aws_checkpoint (table s)" "aws_ledger (table s') = aws_ledger (table s)"
  using ok
proof (cases rule: approval_cases [where t = t and a = a])
  case none
  with pending show thesis by simp
next
  case (some it x)
  let ?new = "set_attributes (resolution yes who why now) it"
  have "satisfied (Some (Attribute_Equals ''status'' (A_Str ''PENDING''))) (table s (approval_key t a))"
    using some pending by simp
  from update_effect [OF this some(1), of "resolution yes who why now"] obtain s' where
    s': "cl_update_item C (approval_key t a) (resolution yes who why now)
        (Attribute_Equals ''status'' (A_Str ''PENDING'')) s = (Inr (), s')"
      "table s' = (table s)(approval_key t a \<mapsto> ?new)" by blast
  have run: "aws_resolve_approval C now t a yes who why s = (Inr (), s')"
    using s'(1) by (simp add: aws_resolve_approval_def on_client_error_def resolution_def)
  have new: "map_of ?new ''status'' = Some (A_Str (if yes then ''APPROVED'' else ''REJECTED''))"
    by (simp add: resolution_def map_of_set_attributes)
  have "map_of it ''pk'' = Some (A_Str (fst (approval_key t a)))" "map_of it ''sk'' = Some (A_Str (snd (approval_key t a)))"
    using cloud_okD(1) [OF ok] some(1) by (simp_all add: table_ok_def del: split_paired_All)
  then have pk: "map_of ?new ''pk'' = Some (A_Str (fst (approval_key t a)))"
    and sk: "map_of ?new ''sk'' = Some (A_Str (snd (approval_key t a)))"
    by (simp_all add: resolution_def map_of_set_attributes)
  have kept: "cloud_ok (table s')" unfolding s'(2)
    by (rule cloud_ok_upd [OF ok pk sk]) (use new in auto)
  have "aws_approval (table s') = (aws_approval (table s))
      (t := (aws_approval (table s) t)(a \<mapsto> (if yes then ''APPROVED'' else ''REJECTED'')))"
    using new by (simp only: s'(2) approval_upd) (simp add: aws_approval_def)
  moreover have "aws_checkpoint (table s') = aws_checkpoint (table s)" "aws_ledger (table s') = aws_ledger (table s)"
    by (simp_all add: s'(2))
  ultimately show thesis by (rule that [OF run kept])
qed

lemma aws_resolve_other:
  assumes ok: "cloud_ok (table s)" and other: "aws_approval (table s) t a \<noteq> Some ''PENDING''"
  shows "aws_resolve_approval C now t a yes who why s = (Inl (ValueError ''approval is not pending''), s)"
proof -
  have "\<not> satisfied (Some (Attribute_Equals ''status'' (A_Str ''PENDING''))) (table s (approval_key t a))"
    using ok by (cases rule: approval_cases [where t = t and a = a]) (use other in simp_all)
  then show ?thesis by (simp add: aws_resolve_approval_def on_client_error_def update_refused raise_def)
qed

end

section \<open>Creating workflows\<close>

context dynamo_up
begin

lemma aws_event_effect:
  assumes "cloud_ok (table s)"
  obtains s' where "aws_record_event pf C now t ty p s = (Inr (), s')" "cloud_ok (table s')"
    "aws_checkpoint (table s') = aws_checkpoint (table s)" "aws_ledger (table s') = aws_ledger (table s)"
    "aws_approval (table s') = aws_approval (table s)"
proof -
  obtain u s1 where u: "cl_uuid C s = (u, s1)" by (cases "cl_uuid C s")
  then have s1: "table s1 = table s" using uuid [of s] by simp
  let ?id = "iso_datetime pf now @ ''#'' @ u"
  let ?it = "keyed (event_key t ?id)
    [(''entity_type'', A_Str ''EVENT''), (''event_id'', A_Str ?id), (''task_id'', A_Str t),
     (''event_type'', A_Str ty), (''payload_json'', A_Json p), (''created_at'', A_Time now)]"
  have "satisfied None (table s1 (key_of ?it))" by simp
  from put_effect [OF this] obtain s' where s': "cl_put_item C ?it None s1 = (Inr (), s')"
    "table s' = (table s)(event_key t ?id \<mapsto> ?it)" by (auto simp: s1)
  have "aws_record_event pf C now t ty p s = (Inr (), s')"
    using s'(1) by (simp add: aws_record_event_def u aws_call_def on_client_error_def Let_def)
  moreover have "cloud_ok (table s')"
    unfolding s'(2) by (rule cloud_ok_upd [OF assms]) auto
  ultimately show thesis by (rule that) (simp_all add: s'(2))
qed

lemma aws_enqueue_effect:
  obtains i s' where "aws_enqueue pf C url t m p s = (Inr i, s')" "table s' = table s"
proof -
  obtain i s' where "cl_send_message C url (task_body pf t m p) s = (Inr i, s')" using send_answers by blast
  moreover from this have "table s' = table s" using queues(1) [of url "task_body pf t m p" s] by (simp add: wp_def)
  ultimately show thesis
    by (intro that [of "IdStr i" s']) (simp_all add: aws_enqueue_def aws_call_def on_client_error_def bindE_def ret_def)
qed

lemma aws_create_fresh:
  assumes ok: "cloud_ok (table s)" and none: "aws_checkpoint (table s) (task_id st) = None"
  obtains s' where "aws_create_workflow pf C url now st m s = (Inr st, s')" "cloud_ok (table s')"
    "aws_checkpoint (table s') = (aws_checkpoint (table s))(task_id st \<mapsto> st)"
    "aws_ledger (table s') = aws_ledger (table s)" "aws_approval (table s') = aws_approval (table s)"
proof -
  let ?it = "[(''entity_type'', A_Str ''WORKFLOW''), (''version'', A_Int (version st)), (''state_json'', A_State st),
      (''updated_at'', A_Time (updated_at st))]"
  have "table s (state_key (task_id st)) = None"
    using ok none by (cases rule: checkpoint_cases [where t = "task_id st"]) simp_all
  from put_new_effect [OF this, of ?it "[''pk'']"] obtain s1 where
    put: "cl_put_item C (state_item st) (Some (Attributes_Not_Exist [''pk''])) s = (Inr (), s1)"
    and s1: "table s1 = (table s)(state_key (task_id st) \<mapsto> keyed (state_key (task_id st)) ?it)"
    unfolding state_item_def by blast
  have "state_item_ok (task_id st) (keyed (state_key (task_id st)) ?it)"
    unfolding state_item_ok_def by (rule exI [of _ st]) (simp add: checkpoint_item_def)
  then have ok1: "cloud_ok (table s1)" unfolding s1 by (intro cloud_ok_upd [OF ok]) auto
  have view1: "aws_checkpoint (table s1) = (aws_checkpoint (table s))(task_id st \<mapsto> st)"
    by (simp add: s1) (simp add: aws_checkpoint_def)
  obtain s2 where event: "aws_record_event pf C now (task_id st) ''WORKFLOW_CREATED'' [(''goal'', JStr (goal st))] s1
      = (Inr (), s2)"
    and s2: "cloud_ok (table s2)" "aws_checkpoint (table s2) = aws_checkpoint (table s1)"
      "aws_ledger (table s2) = aws_ledger (table s1)" "aws_approval (table s2) = aws_approval (table s1)"
    by (rule aws_event_effect [OF ok1])
  obtain i s3 where queue: "aws_enqueue pf C url (task_id st) m [] s2 = (Inr i, s3)" and s3: "table s3 = table s2"
    by (rule aws_enqueue_effect)
  have "aws_create_workflow pf C url now st m s = (Inr st, s3)"
    using put event queue by (simp add: aws_create_workflow_def on_client_error_def bindE_def ret_def)
  then show thesis by (rule that) (simp_all add: s2 s3 view1, simp_all add: s1)
qed

lemma aws_create_existing:
  assumes ok: "cloud_ok (table s)" and "aws_checkpoint (table s) (task_id st) = Some old"
  shows "aws_create_workflow pf C url now st m s =
    (Inl (PermanentWorkflowError (''workflow already exists: '' @ task_id st)), s)"
  using ok
proof (cases rule: checkpoint_cases [where t = "task_id st"])
  case none
  with assms(2) show ?thesis by simp
next
  case (some it old')
  from put_again_refused [OF cloud_okD(1) [OF ok] some(1)] show ?thesis
    by (simp add: aws_create_workflow_def state_item_def on_client_error_def bindE_def raise_def)
qed

end

sublocale dynamo_up \<subseteq> aws_results: idempotency_ledger "aws_store pf C url dlq now"
    "\<lambda>s. aws_ledger (table s)" "\<lambda>s. cloud_ok (table s)" for pf url dlq now
proof (unfold_locales, unfold aws_store_simps)
  fix s :: 's and k t n and a r :: dict and h x
  assume ok: "cloud_ok (table s)"
  show "aws_get_tool_result pf C k a s = (Inr None, s)" if "aws_ledger (table s) k = None"
    by (rule aws_result_miss [OF ok that])
  show "aws_get_tool_result pf C k a s = (Inr (Some r), s)"
    if "aws_ledger (table s) k = Some (aws_arguments_hash pf a, r)"
    by (simp add: aws_result_found [OF ok that])
  show "aws_get_tool_result pf C k a s = (Inl (ValueError ''idempotency key reused with different arguments''), s)"
    if "aws_ledger (table s) k = Some (h, r)" "h \<noteq> aws_arguments_hash pf a"
    by (simp add: aws_result_found [OF ok that(1)] that(2))
  show "\<exists>s'. aws_save_tool_result pf C now k t n a r s = (Inr (), s') \<and> cloud_ok (table s') \<and>
      aws_ledger (table s') = (aws_ledger (table s))(k \<mapsto> (aws_arguments_hash pf a, r))"
    if "aws_ledger (table s) k = None"
    by (rule aws_save_result_first [OF ok that, of pf now t n a r]) blast
  show "\<exists>s'. aws_save_tool_result pf C now k t n a r s = (Inr (), s') \<and> cloud_ok (table s') \<and>
      aws_ledger (table s') = aws_ledger (table s)"
    if "aws_ledger (table s) k = Some x"
    using aws_save_result_again [OF ok that] ok by simp
qed

sublocale dynamo_up \<subseteq> aws_approvals: approval_ledger "aws_store pf C url dlq now"
    "\<lambda>s. aws_approval (table s)" "\<lambda>s. cloud_ok (table s)" for pf url dlq now
proof (unfold_locales, unfold aws_store_simps)
  fix s :: 's and t a x yes who why
  assume ok: "cloud_ok (table s)"
  show "aws_approval_status C t a s = (Inr (aws_approval (table s) t a), s)" by (rule aws_approval_eq [OF ok])
  show "\<exists>s'. aws_create_approval C now t a s = (Inr (), s') \<and> cloud_ok (table s') \<and>
      aws_approval (table s') = (aws_approval (table s))(t := (aws_approval (table s) t)(a \<mapsto> ''PENDING''))"
    if "aws_approval (table s) t a = None"
    by (rule aws_create_approval_new [OF ok that, of now]) blast
  show "\<exists>s'. aws_create_approval C now t a s = (Inr (), s') \<and> cloud_ok (table s') \<and>
      aws_approval (table s') = aws_approval (table s)"
    if "aws_approval (table s) t a = Some x"
    using aws_create_approval_again [OF ok that] ok by simp
  show "\<exists>s'. aws_resolve_approval C now t a yes who why s = (Inr (), s') \<and> cloud_ok (table s') \<and>
      aws_approval (table s') = (aws_approval (table s))
        (t := (aws_approval (table s) t)(a \<mapsto> (if yes then ''APPROVED'' else ''REJECTED'')))"
    if "aws_approval (table s) t a = Some ''PENDING''"
    by (rule aws_resolve_pending [OF ok that, of now yes who why]) blast
  show "aws_resolve_approval C now t a yes who why s = (Inl (ValueError ''approval is not pending''), s)"
    if "aws_approval (table s) t a \<noteq> Some ''PENDING''"
    by (rule aws_resolve_other [OF ok that])
qed

end
