(* ===== verification/Memory_Cloud.thy ===== *)
theory Memory_Cloud
  imports Aws_Contracts
begin

text \<open>
  A DynamoDB table and SQS queues in memory, as an instance of the record \<open>cloud\<close>: it satisfies
  \<open>dynamo_up\<close>, so the assumptions about the services can hold together, and the AWS store runs on it. The
  queues number their messages; a message is hidden while its visibility timeout is positive. A second
  instance fails any call an outage predicate names, and satisfies \<open>dynamo\<close>.
\<close>

record sqs_message =
  sm_url :: string
  sm_number :: nat
  sm_body :: string
  sm_received :: nat
  sm_hidden :: int

record memory =
  mem_items :: "(item_key \<times> item) list"
  mem_queue :: "sqs_message list"
  mem_number :: nat

definition mem_table :: "memory \<Rightarrow> table" where
  "mem_table s = map_of (mem_items s)"

definition empty_memory :: memory where
  "empty_memory = \<lparr>mem_items = [], mem_queue = [], mem_number = 0\<rparr>"

definition memory_write :: "item_key \<Rightarrow> item \<Rightarrow> memory \<Rightarrow> memory" where
  "memory_write k it s = s\<lparr>mem_items := AList.update k it (mem_items s)\<rparr>"

definition receipt :: "nat \<Rightarrow> string" where
  "receipt n = ''message-'' @ str_int (int n)"

definition memory_put :: "item \<Rightarrow> condition option \<Rightarrow> (memory, unit) boto_call" where
  "memory_put it c s =
     (if satisfied c (mem_table s (key_of it)) then (Inr (), memory_write (key_of it) it s)
      else (Inl conditional_check_failed, s))"

definition memory_update :: "item_key \<Rightarrow> item \<Rightarrow> condition \<Rightarrow> (memory, unit) boto_call" where
  "memory_update k changes c s =
     (if satisfied (Some c) (mem_table s k)
      then (Inr (), memory_write k (set_attributes changes (case mem_table s k of None \<Rightarrow> [] | Some it \<Rightarrow> it)) s)
      else (Inl conditional_check_failed, s))"

definition memory_type :: "string \<Rightarrow> item \<Rightarrow> bool" where
  "memory_type ty it = (map_of it ''entity_type'' = Some (A_Str ty))"

definition memory_query_newest :: "string \<Rightarrow> int \<Rightarrow> (memory, item list) boto_call" where
  "memory_query_newest ty n s =
     (Inr (take (nat n) (rev (sort_key (\<lambda>it. case map_of it ''updated_at'' of Some (A_Time t) \<Rightarrow> t | _ \<Rightarrow> 0)
       (filter (memory_type ty) (map snd (mem_items s)))))), s)"

definition memory_query_prefix :: "string \<Rightarrow> string \<Rightarrow> (memory, item list) boto_call" where
  "memory_query_prefix pk prefix s =
     (Inr (map snd (sort_key (snd \<circ> fst)
       (filter (\<lambda>((p, sk), _). p = pk \<and> starts_with prefix sk) (mem_items s)))), s)"

definition memory_send :: "string \<Rightarrow> string \<Rightarrow> (memory, string) boto_call" where
  "memory_send url body s =
     (let n = mem_number s
      in (Inr (receipt n), s\<lparr>mem_number := n + 1,
           mem_queue := mem_queue s @ [\<lparr>sm_url = url, sm_number = n, sm_body = body, sm_received = 0, sm_hidden = 0\<rparr>]\<rparr>))"

definition message_of :: "sqs_message \<Rightarrow> message" where
  "message_of m =
     \<lparr>ms_body = sm_body m, ms_receipt = receipt (sm_number m),
      ms_attributes = [(''ApproximateReceiveCount'', str_int (int (sm_received m))), (''SentTimestamp'', ''0'')]\<rparr>"

definition memory_receive ::
  "string \<Rightarrow> int \<Rightarrow> int \<Rightarrow> int \<Rightarrow> string list \<Rightarrow> (memory, message list) boto_call" where
  "memory_receive url n wait visibility names s =
     (let ready = take (nat n) (filter (\<lambda>m. sm_url m = url \<and> sm_hidden m \<le> 0) (mem_queue s));
          received = (\<lambda>m. m\<lparr>sm_received := sm_received m + 1, sm_hidden := visibility\<rparr>)
      in (Inr (map (message_of \<circ> received) ready),
          s\<lparr>mem_queue := map (\<lambda>m. if sm_number m \<in> set (map sm_number ready) then received m else m) (mem_queue s)\<rparr>))"

definition memory_delete :: "string \<Rightarrow> string \<Rightarrow> (memory, unit) boto_call" where
  "memory_delete url r s =
     (Inr (), s\<lparr>mem_queue := filter (\<lambda>m. \<not> (sm_url m = url \<and> receipt (sm_number m) = r)) (mem_queue s)\<rparr>)"

definition memory_visibility :: "string \<Rightarrow> string \<Rightarrow> int \<Rightarrow> (memory, unit) boto_call" where
  "memory_visibility url r seconds s =
     (Inr (), s\<lparr>mem_queue := map (\<lambda>m. if sm_url m = url \<and> receipt (sm_number m) = r then m\<lparr>sm_hidden := seconds\<rparr> else m)
        (mem_queue s)\<rparr>)"

definition memory_attributes :: "string \<Rightarrow> string list \<Rightarrow> (memory, (string \<times> string) list) boto_call" where
  "memory_attributes url names s =
     (let ms = filter (\<lambda>m. sm_url m = url) (mem_queue s)
      in (Inr [(''ApproximateNumberOfMessages'', str_int (int (length (filter (\<lambda>m. sm_hidden m \<le> 0) ms)))),
               (''ApproximateNumberOfMessagesNotVisible'', str_int (int (length (filter (\<lambda>m. 0 < sm_hidden m) ms))))], s))"

definition memory_cloud :: "memory cloud" where
  "memory_cloud =
     \<lparr>cl_put_item = memory_put, cl_get_item = (\<lambda>k s. (Inr (mem_table s k), s)), cl_update_item = memory_update,
      cl_query_newest = memory_query_newest, cl_query_prefix = memory_query_prefix,
      cl_send_message = memory_send, cl_receive_message = memory_receive, cl_delete_message = memory_delete,
      cl_change_visibility = memory_visibility, cl_queue_attributes = memory_attributes,
      cl_uuid = (\<lambda>s. (receipt (mem_number s), s\<lparr>mem_number := mem_number s + 1\<rparr>))\<rparr>"

lemma memory_cloud_simps [simp]:
  "cl_put_item memory_cloud = memory_put" "cl_get_item memory_cloud k s = (Inr (mem_table s k), s)"
  "cl_update_item memory_cloud = memory_update" "cl_query_newest memory_cloud = memory_query_newest"
  "cl_query_prefix memory_cloud = memory_query_prefix" "cl_send_message memory_cloud = memory_send"
  "cl_receive_message memory_cloud = memory_receive" "cl_delete_message memory_cloud = memory_delete"
  "cl_change_visibility memory_cloud = memory_visibility" "cl_queue_attributes memory_cloud = memory_attributes"
  "cl_uuid memory_cloud s = (receipt (mem_number s), s\<lparr>mem_number := mem_number s + 1\<rparr>)"
  by (simp_all add: memory_cloud_def)

lemma table_write: "mem_table (memory_write k it s) = (mem_table s)(k \<mapsto> it)"
  by (rule ext) (simp add: mem_table_def memory_write_def update_conv')

lemma table_frame [simp]:
  "mem_table (s\<lparr>mem_queue := q\<rparr>) = mem_table s" "mem_table (s\<lparr>mem_number := n\<rparr>) = mem_table s"
  by (simp_all add: mem_table_def fun_eq_iff)

lemma table_empty: "mem_table empty_memory = (\<lambda>_. None)"
  by (simp add: mem_table_def empty_memory_def fun_eq_iff)

interpretation memory: dynamo_up memory_cloud mem_table
proof
  fix s :: memory and it changes :: item and k :: item_key and c :: "condition option" and cond :: condition
    and url receipt body :: string and n x vis :: int and names :: "string list"
  show "wp (cl_put_item memory_cloud it c)
      (\<lambda>_ t. satisfied c (mem_table s (key_of it)) \<and> mem_table t = (mem_table s)(key_of it \<mapsto> it))
      (\<lambda>e t. mem_table t = mem_table s \<and> (e = conditional_check_failed \<longrightarrow> \<not> satisfied c (mem_table s (key_of it)))) s"
    by (simp add: wp_def memory_put_def table_write)
  show "wp (cl_update_item memory_cloud k changes cond)
      (\<lambda>_ t. satisfied (Some cond) (mem_table s k) \<and>
        (\<forall>it. mem_table s k = Some it \<longrightarrow> mem_table t = (mem_table s)(k \<mapsto> set_attributes changes it)))
      (\<lambda>e t. mem_table t = mem_table s \<and> (e = conditional_check_failed \<longrightarrow> \<not> satisfied (Some cond) (mem_table s k))) s"
    by (simp add: wp_def memory_update_def table_write)
qed (simp_all add: wp_def memory_put_def memory_update_def memory_query_newest_def memory_query_prefix_def
    memory_send_def memory_receive_def memory_delete_def memory_visibility_def memory_attributes_def Let_def)

section \<open>Outages\<close>

definition failing :: "('s \<Rightarrow> bool) \<Rightarrow> ('s, 'a) boto_call \<Rightarrow> ('s, 'a) boto_call" where
  "failing p m s = (if p s then (Inl ''ServiceUnavailable'', s) else m s)"

definition with_outages :: "('s \<Rightarrow> bool) \<Rightarrow> 's cloud \<Rightarrow> 's cloud" where
  "with_outages p C =
     \<lparr>cl_put_item = (\<lambda>it c. failing p (cl_put_item C it c)), cl_get_item = (\<lambda>k. failing p (cl_get_item C k)),
      cl_update_item = (\<lambda>k changes c. failing p (cl_update_item C k changes c)),
      cl_query_newest = (\<lambda>ty n. failing p (cl_query_newest C ty n)),
      cl_query_prefix = (\<lambda>pk prefix. failing p (cl_query_prefix C pk prefix)),
      cl_send_message = (\<lambda>url body. failing p (cl_send_message C url body)),
      cl_receive_message = (\<lambda>url n x vis names. failing p (cl_receive_message C url n x vis names)),
      cl_delete_message = (\<lambda>url r. failing p (cl_delete_message C url r)),
      cl_change_visibility = (\<lambda>url r vis. failing p (cl_change_visibility C url r vis)),
      cl_queue_attributes = (\<lambda>url names. failing p (cl_queue_attributes C url names)),
      cl_uuid = cl_uuid C\<rparr>"

lemma wp_failing: "wp (failing p m) Q E s = (if p s then E ''ServiceUnavailable'' s else wp m Q E s)"
  by (simp add: wp_def failing_def)

lemma unavailable_unconditional [simp]: "''ServiceUnavailable'' \<noteq> conditional_check_failed"
  by (simp add: conditional_check_failed_def)

context dynamo
begin

lemma with_outages: "dynamo (with_outages p C) table"
  by unfold_locales (simp_all add: with_outages_def wp_failing put get update queries queues uuid)

end

interpretation unreliable: dynamo "with_outages p memory_cloud" mem_table for p
  by (rule memory.with_outages)

end
