(* ===== verification/Store_Agreement.thy ===== *)
theory Store_Agreement
  imports Memory_Cloud
begin

text \<open>
  The two implementations of \<open>RuntimeStore\<close> refine one abstract store of records: three maps (checkpoints,
  recorded results, approvals). A \<open>store_call\<close> is any state operation of the interface. \<open>contract_step\<close>
  specifies the calls that read and write the records; the calls of the queue, of the event log and the
  listings leave the three maps alone, and what they answer is left open, except that a listing keeps to its
  limit and status; a replay either does nothing or takes a workflow back to QUEUED. \<open>allows\<close> puts this
  together. The stores word one refusal differently (\<open>sql_raises\<close>, \<open>aws_raises\<close>). The locale
  \<open>contract_store\<close> says that a store's calls are allowed; SQLite satisfies it for every call, DynamoDB
  (\<open>dynamo_up\<close>) for every call but replays, so both answer the record calls of any such sequence alike.
\<close>

section \<open>The abstract store\<close>

record contract_state =
  ct_workflows :: "string \<Rightarrow> workflow_state option"
  ct_results :: "string \<Rightarrow> (string \<times> dict) option"
  ct_approvals :: "string \<Rightarrow> string \<Rightarrow> string option"

datatype store_call =
    Call_Create workflow_state int
  | Call_Get string
  | Call_Save workflow_state int
  | Call_Get_Result string dict
  | Call_Save_Result string string string dict dict
  | Call_Create_Approval string string
  | Call_Resolve_Approval string string bool string "string option"
  | Call_Approval_Status string string
  | Call_List int "workflow_status option"
  | Call_Enqueue string int dict
  | Call_Claim string int
  | Call_Extend queue_delivery int
  | Call_Acknowledge delivery_id
  | Call_Retry queue_delivery string rat
  | Call_Record_Event string string dict
  | Call_List_Events string
  | Call_Queue_Counts
  | Call_List_Dead_Letters int
  | Call_Replay delivery_id string int string string

datatype store_answer =
    Ans_Unit
  | Ans_Workflow "workflow_state option"
  | Ans_Result "dict option"
  | Ans_Status "string option"
  | Ans_Workflows "workflow_state list"
  | Ans_Id delivery_id
  | Ans_Delivery "queue_delivery option"
  | Ans_Flag bool
  | Ans_Events "event_record list"
  | Ans_Counts "(string \<times> int) list"
  | Ans_Dead_Letters "dead_letter_record list"

fun run_call :: "'s runtime_store \<Rightarrow> store_call \<Rightarrow> ('s, store_answer) act" where
  "run_call S (Call_Create st m) = bindE (rs_create_workflow S st m) (\<lambda>st. ret (Ans_Workflow (Some st)))"
| "run_call S (Call_Get t) = bindE (rs_get_workflow S t) (\<lambda>r. ret (Ans_Workflow r))"
| "run_call S (Call_Save st v) = bindE (rs_save_workflow S st v) (\<lambda>st. ret (Ans_Workflow (Some st)))"
| "run_call S (Call_Get_Result k a) = bindE (rs_get_tool_result S k a) (\<lambda>r. ret (Ans_Result r))"
| "run_call S (Call_Save_Result k t n a r) = bindE (rs_save_tool_result S k t n a r) (\<lambda>_. ret Ans_Unit)"
| "run_call S (Call_Create_Approval t a) = bindE (rs_create_approval S t a) (\<lambda>_. ret Ans_Unit)"
| "run_call S (Call_Resolve_Approval t a yes who why) =
     bindE (rs_resolve_approval S t a yes who why) (\<lambda>_. ret Ans_Unit)"
| "run_call S (Call_Approval_Status t a) = bindE (rs_approval_status S t a) (\<lambda>x. ret (Ans_Status x))"
| "run_call S (Call_List l x) = bindE (rs_list_workflows S l x) (\<lambda>sts. ret (Ans_Workflows sts))"
| "run_call S (Call_Enqueue t m p) = bindE (rs_enqueue S t m p) (\<lambda>i. ret (Ans_Id i))"
| "run_call S (Call_Claim wk ls) = bindE (rs_claim S wk ls) (\<lambda>d. ret (Ans_Delivery d))"
| "run_call S (Call_Extend d ls) = bindE (rs_extend_lease S d ls) (\<lambda>_. ret Ans_Unit)"
| "run_call S (Call_Acknowledge i) = bindE (rs_acknowledge S i) (\<lambda>_. ret Ans_Unit)"
| "run_call S (Call_Retry d e b) = bindE (rs_retry_or_dead_letter S d e b) (\<lambda>dead. ret (Ans_Flag dead))"
| "run_call S (Call_Record_Event t ty p) = bindE (rs_record_event S t ty p) (\<lambda>_. ret Ans_Unit)"
| "run_call S (Call_List_Events t) = bindE (rs_list_events S t) (\<lambda>es. ret (Ans_Events es))"
| "run_call S Call_Queue_Counts = bindE (rs_queue_counts S) (\<lambda>n. ret (Ans_Counts n))"
| "run_call S (Call_List_Dead_Letters l) = bindE (rs_list_dead_letters S l) (\<lambda>ds. ret (Ans_Dead_Letters ds))"
| "run_call S (Call_Replay i t m who why) =
     bindE (rs_replay_dead_letter S i t m who why) (\<lambda>r. ret (Ans_Workflow r))"

text \<open>Calls, each at its own time.\<close>

fun run_calls :: "(int \<Rightarrow> 's runtime_store) \<Rightarrow> (int \<times> store_call) list \<Rightarrow> 's \<Rightarrow> (error + store_answer) list \<times> 's" where
  "run_calls S [] s = ([], s)"
| "run_calls S ((now, c) # cs) s =
     (let (r, s') = run_call (S now) c s; (rs, s'') = run_calls S cs s' in (r # rs, s''))"

text \<open>What a record call refuses, and the exceptions of the two stores for it.\<close>

datatype refusal =
    Already_Exists string
  | Stale_Checkpoint string
  | Key_Reused
  | Not_Pending

fun sql_raises :: "refusal \<Rightarrow> error" where
  "sql_raises (Already_Exists t) = IntegrityError ''UNIQUE constraint failed: workflows.task_id''"
| "sql_raises (Stale_Checkpoint t) = ConcurrentUpdateError (''stale checkpoint for '' @ t)"
| "sql_raises Key_Reused = ValueError ''idempotency key reused with different arguments''"
| "sql_raises Not_Pending = ValueError ''approval is not pending''"

fun aws_raises :: "refusal \<Rightarrow> error" where
  "aws_raises (Already_Exists t) = PermanentWorkflowError (''workflow already exists: '' @ t)"
| "aws_raises (Stale_Checkpoint t) = ConcurrentUpdateError (''stale checkpoint for '' @ t)"
| "aws_raises Key_Reused = ValueError ''idempotency key reused with different arguments''"
| "aws_raises Not_Pending = ValueError ''approval is not pending''"

fun contract_step ::
  "platform \<Rightarrow> int \<Rightarrow> store_call \<Rightarrow> contract_state \<Rightarrow> (refusal + store_answer) option \<times> contract_state" where
  \<comment> \<open>the answer, when the specification fixes it, and the records afterwards\<close>
  "contract_step pf now (Call_Create st m) v =
     (if ct_workflows v (task_id st) = None
      then (Some (Inr (Ans_Workflow (Some st))), v\<lparr>ct_workflows := (ct_workflows v)(task_id st \<mapsto> st)\<rparr>)
      else (Some (Inl (Already_Exists (task_id st))), v))"
| "contract_step pf now (Call_Get t) v = (Some (Inr (Ans_Workflow (ct_workflows v t))), v)"
| "contract_step pf now (Call_Save st n) v =
     (if map_option version (ct_workflows v (task_id st)) = Some n
      then let st' = st\<lparr>version := n + 1, updated_at := now\<rparr>
           in (Some (Inr (Ans_Workflow (Some st'))), v\<lparr>ct_workflows := (ct_workflows v)(task_id st \<mapsto> st')\<rparr>)
      else (Some (Inl (Stale_Checkpoint (task_id st))), v))"
| "contract_step pf now (Call_Get_Result k a) v =
     (case ct_results v k of
        None \<Rightarrow> (Some (Inr (Ans_Result None)), v)
      | Some (h, r) \<Rightarrow>
          if h = sha256_hex pf (canonical pf a) then (Some (Inr (Ans_Result (Some r))), v)
          else (Some (Inl Key_Reused), v))"
| "contract_step pf now (Call_Save_Result k t n a r) v =
     (Some (Inr Ans_Unit), case ct_results v k of
        None \<Rightarrow> v\<lparr>ct_results := (ct_results v)(k \<mapsto> (sha256_hex pf (canonical pf a), r))\<rparr>
      | Some _ \<Rightarrow> v)"
| "contract_step pf now (Call_Create_Approval t a) v =
     (Some (Inr Ans_Unit), case ct_approvals v t a of
        None \<Rightarrow> v\<lparr>ct_approvals := (ct_approvals v)(t := (ct_approvals v t)(a \<mapsto> ''PENDING''))\<rparr>
      | Some _ \<Rightarrow> v)"
| "contract_step pf now (Call_Resolve_Approval t a yes who why) v =
     (if ct_approvals v t a = Some ''PENDING''
      then (Some (Inr Ans_Unit), v\<lparr>ct_approvals := (ct_approvals v)
              (t := (ct_approvals v t)(a \<mapsto> (if yes then ''APPROVED'' else ''REJECTED'')))\<rparr>)
      else (Some (Inl Not_Pending), v))"
| "contract_step pf now (Call_Approval_Status t a) v = (Some (Inr (Ans_Status (ct_approvals v t a))), v)"
| "contract_step pf now c v = (None, v)"

fun gives :: "(refusal \<Rightarrow> error) \<Rightarrow> (refusal + store_answer) option \<Rightarrow> error + store_answer \<Rightarrow> bool" where
  "gives raises None r = True"
| "gives raises (Some (Inl x)) r = (r = Inl (raises x))"
| "gives raises (Some (Inr a)) r = (r = Inr a)"

fun lists :: "bool \<Rightarrow> contract_state \<Rightarrow> int \<Rightarrow> workflow_status option \<Rightarrow> error + store_answer \<Rightarrow> bool" where
  \<comment> \<open>a listing of current checkpoints, or, when the index may lag behind, of some\<close>
  "lists current v limit wanted (Inr (Ans_Workflows sts)) =
     (length sts \<le> nat (max 1 (min limit 500)) \<and>
      (\<forall>st \<in> set sts. (wanted = None \<or> wanted = Some (status st)) \<and>
        (current \<longrightarrow> ct_workflows v (task_id st) = Some st)))"
| "lists current v limit wanted r = (\<not> current)"

text \<open>
  \<open>allows pf raises current now c v r v'\<close>: from records \<open>v\<close>, the call \<open>c\<close> may return or raise \<open>r\<close> and leave \<open>v'\<close>.
\<close>

fun allows ::
  "platform \<Rightarrow> (refusal \<Rightarrow> error) \<Rightarrow> bool \<Rightarrow> int \<Rightarrow> store_call \<Rightarrow> contract_state \<Rightarrow> error + store_answer \<Rightarrow>
    contract_state \<Rightarrow> bool" where
  "allows pf raises current now (Call_List limit wanted) v r v' = (lists current v limit wanted r \<and> v' = v)"
| "allows pf raises current now (Call_Replay i t m who why) v r v' =
     (r = Inr (Ans_Workflow None) \<and> v' = v \<or>
      (\<exists>st. ct_workflows v t = Some st \<and> r = Inr (Ans_Workflow (Some (replayed_state now st))) \<and>
         v' = v\<lparr>ct_workflows := (ct_workflows v)(t \<mapsto> replayed_state now st)\<rparr>))"
| "allows pf raises current now c v r v' =
     (gives raises (fst (contract_step pf now c v)) r \<and> v' = snd (contract_step pf now c v))"

text \<open>Calls whose answer the specification fixes.\<close>

fun record_call :: "store_call \<Rightarrow> bool" where
  "record_call (Call_Create _ _) = True"
| "record_call (Call_Get _) = True"
| "record_call (Call_Save _ _) = True"
| "record_call (Call_Get_Result _ _) = True"
| "record_call (Call_Save_Result _ _ _ _ _) = True"
| "record_call (Call_Create_Approval _ _) = True"
| "record_call (Call_Resolve_Approval _ _ _ _ _) = True"
| "record_call (Call_Approval_Status _ _) = True"
| "record_call _ = False"

fun is_replay :: "store_call \<Rightarrow> bool" where
  "is_replay (Call_Replay _ _ _ _ _) = True"
| "is_replay _ = False"

text \<open>
  Two answers to a call are the same when they are equal, or are the two stores' exceptions for a workflow
  that exists already; the answers to other than record calls are not compared.
\<close>

fun already_there :: "store_call \<Rightarrow> error + store_answer \<Rightarrow> error + store_answer \<Rightarrow> bool" where
  "already_there (Call_Create st _) r q =
     (r = Inl (sql_raises (Already_Exists (task_id st))) \<and> q = Inl (aws_raises (Already_Exists (task_id st))))"
| "already_there _ r q = False"

definition same_answer :: "int \<times> store_call \<Rightarrow> (error + store_answer) \<times> (error + store_answer) \<Rightarrow> bool" where
  "same_answer c rq \<longleftrightarrow> record_call (snd c) \<longrightarrow> fst rq = snd rq \<or> already_there (snd c) (fst rq) (snd rq)"

lemma allows_record:
  "record_call c \<Longrightarrow> allows pf raises current now c v r v' \<longleftrightarrow>
    gives raises (fst (contract_step pf now c v)) r \<and> v' = snd (contract_step pf now c v)"
  by (cases c) simp_all

lemma allows_other:
  "\<not> record_call c \<Longrightarrow> \<not> is_replay c \<Longrightarrow> allows pf raises current now c v r v' \<Longrightarrow> v' = v"
  by (cases c) simp_all

lemma sums_give:
  assumes "gives sql_raises x r" and "gives aws_raises x q" and "x = fst (contract_step pf now c v)" and "record_call c"
  shows "r = q \<or> already_there c r q"
  using assms by (cases c) (auto simp: Let_def split: if_splits option.splits prod.splits)

lemma allowed_alike:
  assumes "allows pf sql_raises True now c v r w" and "allows pf aws_raises False now c v q w'" and "\<not> is_replay c"
  shows "w' = w \<and> same_answer (now, c) (r, q)"
proof (cases "record_call c")
  case True
  with assms(1,2) sums_give [OF _ _ refl True, of pf now v r q] show ?thesis
    by (simp add: allows_record same_answer_def)
next
  case False
  with allows_other [OF False assms(3)] assms(1,2) have "w = v" "w' = v" by blast+
  with False show ?thesis by (simp add: same_answer_def)
qed

section \<open>Refinement\<close>

definition call_refined ::
  "platform \<Rightarrow> (refusal \<Rightarrow> error) \<Rightarrow> bool \<Rightarrow> int \<Rightarrow> 's runtime_store \<Rightarrow> ('s \<Rightarrow> contract_state) \<Rightarrow> ('s \<Rightarrow> bool) \<Rightarrow> 's \<Rightarrow>
    store_call \<Rightarrow> bool" where
  "call_refined pf raises current now S view invar s c \<longleftrightarrow>
     (case run_call S c s of (r, s') \<Rightarrow> allows pf raises current now c (view s) r (view s') \<and> invar s')"

lemma call_refinedI:
  "run_call S c s = (r, s') \<Longrightarrow> allows pf raises current now c (view s) r (view s') \<Longrightarrow> invar s' \<Longrightarrow>
    call_refined pf raises current now S view invar s c"
  by (simp add: call_refined_def)

locale contract_store =
  fixes S :: "int \<Rightarrow> 's runtime_store"
    and view :: "'s \<Rightarrow> contract_state"
    and invar :: "'s \<Rightarrow> bool"
    and pf :: platform
    and raises :: "refusal \<Rightarrow> error"
    and current :: bool
    and covered :: "store_call \<Rightarrow> bool"
  assumes refines: "invar s \<Longrightarrow> covered c \<Longrightarrow> call_refined pf raises current now (S now) view invar s c"
begin

lemma refines_call:
  assumes "invar s" and "covered c"
  obtains r s' where "run_call (S now) c s = (r, s')" "allows pf raises current now c (view s) r (view s')" "invar s'"
  using refines [OF assms, of now] unfolding call_refined_def by (auto split: prod.splits)

end

definition sql_view :: "world \<Rightarrow> contract_state" where
  "sql_view w = \<lparr>ct_workflows = checkpoint w, ct_results = ledger w, ct_approvals = approval_of w\<rparr>"

definition aws_view :: "table \<Rightarrow> contract_state" where
  "aws_view T = \<lparr>ct_workflows = aws_checkpoint T, ct_results = aws_ledger T, ct_approvals = aws_approval T\<rparr>"

lemma view_simps [simp]:
  "ct_workflows (sql_view w) = checkpoint w" "ct_results (sql_view w) = ledger w"
  "ct_approvals (sql_view w) = approval_of w"
  "ct_workflows (aws_view T) = aws_checkpoint T" "ct_results (aws_view T) = aws_ledger T"
  "ct_approvals (aws_view T) = aws_approval T"
  by (simp_all add: sql_view_def aws_view_def)

lemma contract_eqI:
  "ct_workflows v = ct_workflows v' \<Longrightarrow> ct_results v = ct_results v' \<Longrightarrow> ct_approvals v = ct_approvals v' \<Longrightarrow>
    v = (v' :: contract_state)"
  by simp

lemma run_call_Inr:
  "m s = (Inr x, s') \<Longrightarrow> bindE m (\<lambda>x. ret (f x)) s = (Inr (f x), s')"
  "m s = (Inl e, s') \<Longrightarrow> bindE m (\<lambda>x. ret (f x)) s = (Inl e, s')"
  by (simp_all add: bindE_def ret_def)

lemma snd_bind_ret: "snd (bindE m (\<lambda>x. ret (f x)) s) = snd (m s)"
  by (simp add: bindE_def ret_def split: prod.split sum.split)

subsection \<open>SQLite\<close>

abbreviation sql_refined :: "platform \<Rightarrow> int \<Rightarrow> world \<Rightarrow> store_call \<Rightarrow> bool" where
  "sql_refined pf now \<equiv> call_refined pf sql_raises True now (sqlite_store pf now) sql_view world_ok"

lemma sql_view_eqI:
  assumes "checkpoint w' = c" and "ledger w' = l" and "approval_of w' = a"
  shows "sql_view w' = \<lparr>ct_workflows = c, ct_results = l, ct_approvals = a\<rparr>"
  using assms by (simp add: sql_view_def)

lemma sql_refined_create:
  assumes ok: "world_ok w"
  shows "sql_refined pf now w (Call_Create st m)"
proof (cases "checkpoint w (task_id st)")
  case new: None
  have none: "find_workflow (task_id st) w = None" using new by (simp add: checkpoint_def)
  obtain w' where w': "create_workflow now st m w = (Inr st, w')" by (simp add: create_workflow_def none Let_def)
  have "world_ok w'" using relatesD [OF keeps_ok_create, of w now st m] ok w' by simp
  moreover have "sql_view w' = \<lparr>ct_workflows = (checkpoint w)(task_id st \<mapsto> st), ct_results = ledger w,
      ct_approvals = approval_of w\<rparr>"
    by (rule sql_view_eqI)
       (use checkpoint_create [OF none, of now m] create_workflow_frame [of now st m w] w' in \<open>auto intro!: view_cong\<close>)
  ultimately show ?thesis
    by (intro call_refinedI [where r = "Inr (Ans_Workflow (Some st))" and s' = w'])
       (simp_all add: w' run_call_Inr new sql_view_def)
next
  case (Some old)
  then have "create_workflow now st m w = (Inl (sql_raises (Already_Exists (task_id st))), w)"
    by (auto simp: create_workflow_def checkpoint_def)
  with Some ok show ?thesis by (simp add: call_refined_def run_call_Inr)
qed

lemma sql_refined_result:
  assumes ok: "world_ok w"
  shows "sql_refined pf now w (Call_Save_Result k t n a r)"
proof -
  obtain w' where w': "save_tool_result pf now k t n a r w = (Inr (), w')" by (simp add: save_tool_result_def)
  have "ledger w' = (case ledger w k of
      None \<Rightarrow> (ledger w)(k \<mapsto> (sha256_hex pf (canonical pf a), r)) | Some _ \<Rightarrow> ledger w)"
    using sqlite_ledger.stored_after_save [OF TrueI, of pf now k t n a r w] w'
    by (auto simp: arguments_hash_def split: option.split)
  moreover have "checkpoint w' = checkpoint w" "approval_of w' = approval_of w"
    by (rule view_cong, use w' in \<open>auto simp: save_tool_result_def\<close>)+
  moreover have "world_ok w'" using relatesD [OF keeps_ok_save_result, of w pf now k t n a r] ok w' by simp
  ultimately show ?thesis
    by (intro call_refinedI [where r = "Inr Ans_Unit" and s' = w'])
       (simp_all add: w' run_call_Inr sql_view_def split: option.split)
qed

lemma sql_refined_create_approval:
  assumes ok: "world_ok w"
  shows "sql_refined pf now w (Call_Create_Approval t a)"
proof -
  obtain w' where w': "create_approval now t a w = (Inr (), w')" by (simp add: create_approval_def)
  have "approval_of w' = (case approval_of w t a of
      None \<Rightarrow> (approval_of w)(t := (approval_of w t)(a \<mapsto> ''PENDING'')) | Some _ \<Rightarrow> approval_of w)"
    using sqlite_approvals.create_new [OF ok, of t a pf now] sqlite_approvals.create_again [OF ok, of t a _ pf now] w'
    by (auto split: option.split)
  moreover have "checkpoint w' = checkpoint w" "ledger w' = ledger w"
    by (rule view_cong, use w' in \<open>auto simp: create_approval_def\<close>)+
  moreover have "world_ok w'" using relatesD [OF keeps_ok_create_approval, of w now t a] ok w' by simp
  ultimately show ?thesis
    by (intro call_refinedI [where r = "Inr Ans_Unit" and s' = w'])
       (simp_all add: w' run_call_Inr sql_view_def split: option.split)
qed

lemma sql_refined_resolve:
  assumes ok: "world_ok w"
  shows "sql_refined pf now w (Call_Resolve_Approval t a yes who why)"
proof (cases "approval_of w t a = Some ''PENDING''")
  case True
  from sqlite_approvals.resolve_pending [OF ok this, of pf now yes who why] obtain w' where
    w': "resolve_approval now t a yes who why w = (Inr (), w')"
      "approval_of w' = (approval_of w)(t := (approval_of w t)(a \<mapsto> (if yes then ''APPROVED'' else ''REJECTED'')))"
      "world_ok w'"
    by auto
  have tables: "workflows w' = workflows w" "tool_results w' = tool_results w"
    using w'(1) by (auto simp: resolve_approval_def Let_def split: if_splits)
  have "checkpoint w' = checkpoint w" "ledger w' = ledger w"
    by (rule view_cong(1) [OF tables(1)], rule view_cong(3) [OF tables(2)])
  with w' show ?thesis
    by (intro call_refinedI [where r = "Inr Ans_Unit" and s' = w']) (simp_all add: True run_call_Inr sql_view_def)
next
  case False
  from sqlite_approvals.resolve_other [OF ok this, of pf now yes who why] False ok show ?thesis
    by (intro call_refinedI) (simp_all add: run_call_Inr)
qed

text \<open>The other calls.\<close>

lemma sql_other_tables:
  assumes "\<not> record_call c" and "\<not> is_replay c"
  shows "workflows (snd (run_call (sqlite_store pf now) c w)) = workflows w \<and>
    tool_results (snd (run_call (sqlite_store pf now) c w)) = tool_results w \<and>
    approvals (snd (run_call (sqlite_store pf now) c w)) = approvals w"
  using assms
  by (cases c) (auto simp: snd_bind_ret list_workflows_def Let_def enqueue_def insert_queue_row_def claim_def extend_lease_def
    acknowledge_def retry_or_dead_letter_def record_event_def record_event_row_def list_events_def queue_counts_def
    list_dead_letters_def split: option.split)

lemma sql_keeps_ok: "keeps world_ok (run_call (sqlite_store pf now) c)"
  by (cases c) (simp_all add: keeping.relates_rules keeps_world_ok, simp_all add: relates_def bindE_def ret_def
    get_workflow_def get_tool_result_def approval_status_def list_workflows_def Let_def list_events_def queue_counts_def
    list_dead_letters_def split: option.split)

lemma sql_refined_list:
  assumes ok: "world_ok w"
  shows "sql_refined pf now w (Call_List l x)"
proof -
  have "length (slice_to (max 1 (min l 500)) sts) \<le> nat (max 1 (min l 500))" for sts :: "workflow_state list"
    by (simp add: slice_to_def)
  moreover have "checkpoint w (task_id st) = Some st" if "st \<in> wr_state ` set (workflows w)" for st
    using that ok find_workflow_iff [OF ok] by (auto simp: checkpoint_def world_ok_def workflows_ok_def)
  then have "checkpoint w (task_id st) = Some st \<and> (x = None \<or> x = Some (status st))"
    if "st \<in> set (slice_to n (filter (\<lambda>st. x = None \<or> x = Some (status st))
      (map wr_state (take k (sort_key (\<lambda>r. - wr_updated_at r) (workflows w))))))" for st n k
    using that by (auto simp: slice_to_def dest!: in_set_takeD)
  moreover obtain sts where sts: "list_workflows l x w = (Inr sts, w)"
    "sts = slice_to (max 1 (min l 500)) (filter (\<lambda>st. x = None \<or> x = Some (status st))
      (map wr_state (take (nat (if x \<noteq> None then 500 else max 1 (min l 500))) (sort_key (\<lambda>r. - wr_updated_at r) (workflows w)))))"
    by (simp add: list_workflows_def Let_def)
  ultimately have "lists True (sql_view w) l x (Inr (Ans_Workflows sts))"
    unfolding lists.simps view_simps sts(2) by blast
  with sts(1) ok show ?thesis by (simp add: call_refined_def run_call_Inr)
qed

lemma sql_refined_replay:
  assumes ok: "world_ok w"
  shows "sql_refined pf now w (Call_Replay i t m who why)"
proof -
  let ?out = "replay_dead_letter pf now i t m who why w"
  have "world_ok (snd ?out)" using relatesD [OF keeps_ok_replay] ok by blast
  moreover have "?out = (Inr None, w) \<or>
      (\<exists>st. checkpoint w t = Some st \<and> fst ?out = Inr (Some (replayed_state now st)) \<and>
        sql_view (snd ?out) = (sql_view w)\<lparr>ct_workflows := (checkpoint w)(t \<mapsto> replayed_state now st)\<rparr>)"
  proof (cases "find (dead_row pf i t) (queue w) = None \<or> checkpoint w t = None")
    case True
    then show ?thesis by (auto simp: replay_eq [OF ok] split: option.split)
  next
    case False
    then obtain row st where found: "find (dead_row pf i t) (queue w) = Some row" "checkpoint w t = Some st" by auto
    then have t: "task_id (replayed_state now st) = t"
      using ok by (auto simp: checkpoint_def replayed_state_def dest: world_ok_row)
    let ?w1 = "put_workflow now (replayed_state now st) w"
    have "checkpoint (snd ?out) = checkpoint ?w1" "ledger (snd ?out) = ledger w" "approval_of (snd ?out) = approval_of w"
      by (rule view_cong, simp add: replay_eq [OF ok] found Let_def record_event_row_def)+
    with found t show ?thesis by (simp add: replay_eq [OF ok] Let_def sql_view_def checkpoint_put)
  qed
  ultimately show ?thesis
    by (cases ?out) (auto simp: call_refined_def bindE_def ret_def)
qed

lemma sql_refined_other:
  assumes "\<not> record_call c" and "\<not> is_replay c" and "world_ok w" and "\<And>l x. c \<noteq> Call_List l x"
  shows "sql_refined pf now w c"
proof -
  obtain r w' where run: "run_call (sqlite_store pf now) c w = (r, w')" by (cases "run_call (sqlite_store pf now) c w")
  then have "sql_view w' = sql_view w"
    using sql_other_tables [OF assms(1,2), of pf now w] view_cong(1-3) [of w' w] by (simp add: sql_view_def)
  moreover have "world_ok w'" using relatesD [OF sql_keeps_ok, of w pf now c] run assms(3) by simp
  moreover have "allows pf sql_raises True now c (sql_view w) r (sql_view w)"
  proof (cases c)
    case (Call_List l x)
    with assms(4) show ?thesis by blast
  qed (use assms(1,2) in simp_all)
  ultimately show ?thesis by (intro call_refinedI [OF run]) simp_all
qed

interpretation sqlite_contract: contract_store "sqlite_store pf" sql_view world_ok pf sql_raises True "\<lambda>_. True" for pf
proof
  fix w :: world and c :: store_call and now :: int
  assume ok: "world_ok w"
  show "sql_refined pf now w c"
  proof (cases c)
    case (Call_Save st v)
    show ?thesis using ok world_ok_put [OF ok]
      by (auto simp: Call_Save call_refined_def save_workflow_eq bindE_def ret_def Let_def sql_view_def checkpoint_put)
  next
    case (Call_Get_Result k a)
    show ?thesis using ok
      by (auto simp: Call_Get_Result call_refined_def get_tool_result_def ledger_def bindE_def ret_def
          arguments_hash_def split: option.split)
  next
    case (Call_Get t)
    then show ?thesis using ok by (simp add: call_refined_def run_call_Inr get_workflow_checkpoint)
  next
    case (Call_Approval_Status t a)
    then show ?thesis using ok by (simp add: call_refined_def run_call_Inr approval_status_eq)
  qed (use ok in \<open>simp_all add: sql_refined_create sql_refined_result sql_refined_create_approval sql_refined_resolve
    sql_refined_list sql_refined_replay sql_refined_other\<close>)
qed

subsection \<open>DynamoDB\<close>

sublocale dynamo \<subseteq> unmoved: guarantee "\<lambda>s t. table t = table s"
  by unfold_locales simp_all

context dynamo
begin

abbreviation unmoved :: "('s, 'e, 'a) prog \<Rightarrow> bool" where
  "unmoved \<equiv> relates (\<lambda>s t. table t = table s)"

lemma unmoved_aws_call: "unmoved m \<Longrightarrow> unmoved (aws_call operation m)"
  unfolding relates_wp wp_aws_call .

lemma unmoved_services:
  "unmoved (cl_query_newest C ty n)" "unmoved (cl_query_prefix C pk prefix)" "unmoved (cl_send_message C url body)"
  "unmoved (cl_receive_message C url n x vis names)" "unmoved (cl_delete_message C url rcpt)"
  "unmoved (cl_change_visibility C url rcpt vis)" "unmoved (cl_queue_attributes C url names)"
  unfolding relates_wp by (simp_all add: queries queues)

lemma unmoved_list: "unmoved (aws_list_workflows C l x)"
  unfolding aws_list_workflows_def Let_def by (intro unmoved.relates_rules unmoved_aws_call unmoved_services)

lemma unmoved_calls:
  "unmoved (aws_enqueue pf C url t m p)" "unmoved (aws_claim pf C url wk ls)" "unmoved (aws_extend_lease C url d ls)"
  "unmoved (aws_acknowledge C url i)" "unmoved (aws_retry_or_dead_letter pf C url dlq d e b)"
  "unmoved (aws_list_events C t)" "unmoved (aws_queue_counts pf C url dlq)" "unmoved (aws_list_dead_letters pf C dlq l)"
  unfolding aws_enqueue_def aws_claim_def aws_extend_lease_def aws_acknowledge_def aws_retry_or_dead_letter_def
    aws_list_events_def aws_queue_counts_def aws_list_dead_letters_def
  by (auto intro!: unmoved.relates_rules unmoved_aws_call unmoved_services split: list.split)

end

context dynamo_up
begin

abbreviation aws_refined :: "platform \<Rightarrow> string \<Rightarrow> string option \<Rightarrow> int \<Rightarrow> 's \<Rightarrow> store_call \<Rightarrow> bool" where
  "aws_refined pf url dlq now \<equiv>
     call_refined pf aws_raises False now (aws_store pf C url dlq now) (\<lambda>s. aws_view (table s)) (\<lambda>s. cloud_ok (table s))"

lemma aws_refined_create:
  assumes ok: "cloud_ok (table s)"
  shows "aws_refined pf url dlq now s (Call_Create st m)"
proof (cases "aws_checkpoint (table s) (task_id st)")
  case None
  show ?thesis
    by (rule aws_create_fresh [OF ok None, of pf url now m], rule call_refinedI)
       (simp_all add: None run_call_Inr aws_view_def)
next
  case (Some old)
  then show ?thesis by (simp add: call_refined_def run_call_Inr aws_create_existing [OF ok Some] ok)
qed

lemma aws_refined_save:
  assumes ok: "cloud_ok (table s)"
  shows "aws_refined pf url dlq now s (Call_Save st v)"
proof (cases "map_option version (aws_checkpoint (table s) (task_id st)) = Some v")
  case True
  then obtain old where old: "aws_checkpoint (table s) (task_id st) = Some old" "version old = v" by auto
  show ?thesis
    by (rule aws_save_fresh [OF ok old, of now], rule call_refinedI)
       (use True in \<open>simp_all add: run_call_Inr aws_view_def Let_def\<close>)
next
  case False
  then have stale: "\<forall>old. aws_checkpoint (table s) (task_id st) = Some old \<longrightarrow> version old \<noteq> v" by auto
  have "run_call (aws_store pf C url dlq now) (Call_Save st v) s =
      (Inl (ConcurrentUpdateError (''stale checkpoint for '' @ task_id st)), s)"
    by (simp add: run_call_Inr aws_save_stale [OF ok stale])
  then show ?thesis by (rule call_refinedI) (use stale ok in auto)
qed

lemma aws_refined_get_result:
  assumes ok: "cloud_ok (table s)"
  shows "aws_refined pf url dlq now s (Call_Get_Result k a)"
proof (cases "aws_ledger (table s) k")
  case None
  then show ?thesis by (simp add: call_refined_def run_call_Inr aws_result_miss [OF ok None] ok)
next
  case (Some hr)
  then obtain h r where hr: "aws_ledger (table s) k = Some (h, r)" by (cases hr) simp
  then show ?thesis
    by (simp add: call_refined_def bindE_def ret_def aws_result_found [OF ok hr] aws_arguments_hash_def ok)
qed

lemma aws_refined_save_result:
  assumes ok: "cloud_ok (table s)"
  shows "aws_refined pf url dlq now s (Call_Save_Result k t n a r)"
proof (cases "aws_ledger (table s) k")
  case None
  show ?thesis
    by (rule aws_save_result_first [OF ok None, of pf now t n a r], rule call_refinedI)
       (use None in \<open>simp_all add: run_call_Inr aws_view_def aws_arguments_hash_def\<close>)
next
  case (Some x)
  then show ?thesis by (simp add: call_refined_def run_call_Inr aws_save_result_again [OF ok Some] ok)
qed

lemma aws_refined_create_approval:
  assumes ok: "cloud_ok (table s)"
  shows "aws_refined pf url dlq now s (Call_Create_Approval t a)"
proof (cases "aws_approval (table s) t a")
  case None
  show ?thesis
    by (rule aws_create_approval_new [OF ok None, of now], rule call_refinedI)
       (use None in \<open>simp_all add: run_call_Inr aws_view_def\<close>)
next
  case (Some x)
  then show ?thesis by (simp add: call_refined_def run_call_Inr aws_create_approval_again [OF ok Some] ok)
qed

lemma aws_refined_resolve:
  assumes ok: "cloud_ok (table s)"
  shows "aws_refined pf url dlq now s (Call_Resolve_Approval t a yes who why)"
proof (cases "aws_approval (table s) t a = Some ''PENDING''")
  case True
  show ?thesis
    by (rule aws_resolve_pending [OF ok True, of now yes who why], rule call_refinedI)
       (use True in \<open>simp_all add: run_call_Inr aws_view_def\<close>)
next
  case False
  from aws_resolve_other [OF ok False] False show ?thesis by (simp add: call_refined_def run_call_Inr ok)
qed

lemma aws_refined_reads:
  assumes ok: "cloud_ok (table s)"
  shows "aws_refined pf url dlq now s (Call_Get t)" "aws_refined pf url dlq now s (Call_Approval_Status t a)"
  by (simp_all add: call_refined_def run_call_Inr aws_get_eq [OF ok] aws_approval_eq [OF ok] ok)

lemma aws_refined_event:
  assumes ok: "cloud_ok (table s)"
  shows "aws_refined pf url dlq now s (Call_Record_Event t ty p)"
  by (rule aws_event_effect [OF ok, of pf now t ty p], rule call_refinedI) (simp_all add: run_call_Inr aws_view_def)

lemma aws_refined_list:
  assumes ok: "cloud_ok (table s)"
  shows "aws_refined pf url dlq now s (Call_List l x)"
proof -
  obtain r s' where run: "aws_list_workflows C l x s = (r, s')" by (cases "aws_list_workflows C l x s")
  then have "table s' = table s" using relatesD [OF unmoved_list [of l x], of s] by simp
  moreover have "length sts \<le> nat (max 1 (min l 500)) \<and> (\<forall>st \<in> set sts. x = None \<or> x = Some (status st))"
    if "r = Inr sts" for sts
    using run that
    by (auto simp: aws_list_workflows_def bindE_def ret_def lift_sum_def Let_def slice_to_def dest!: in_set_takeD
        split: prod.splits sum.splits)
  ultimately show ?thesis using run ok
    by (cases r) (simp_all add: call_refined_def run_call_Inr)
qed

lemma unmoved_run:
  assumes "\<not> record_call c" and "\<not> is_replay c" and "\<And>t ty p. c \<noteq> Call_Record_Event t ty p"
  shows "unmoved (run_call (aws_store pf C url dlq now) c)"
proof (cases c)
  case (Call_Record_Event t ty p)
  with assms(3) show ?thesis by blast
qed (use assms(1,2) in \<open>simp_all add: unmoved.relates_rules unmoved_calls unmoved_list\<close>)

lemma aws_refined_other:
  assumes "\<not> record_call c" and "\<not> is_replay c" and "cloud_ok (table s)"
    and "\<And>l x. c \<noteq> Call_List l x" and "\<And>t ty p. c \<noteq> Call_Record_Event t ty p"
  shows "aws_refined pf url dlq now s c"
proof -
  obtain r s' where run: "run_call (aws_store pf C url dlq now) c s = (r, s')"
    by (cases "run_call (aws_store pf C url dlq now) c s")
  have same: "table s' = table s"
    using relatesD [OF unmoved_run [OF assms(1,2,5), of pf url dlq now], of s] run by simp
  have "allows pf aws_raises False now c (aws_view (table s)) r (aws_view (table s))"
  proof (cases c)
    case (Call_List l x)
    with assms(4) show ?thesis by blast
  qed (use assms(1,2) in simp_all)
  with same assms(3) show ?thesis by (intro call_refinedI [OF run]) simp_all
qed

lemmas aws_refined_rules = aws_refined_create aws_refined_reads aws_refined_save aws_refined_get_result aws_refined_save_result
  aws_refined_create_approval aws_refined_resolve aws_refined_event aws_refined_list aws_refined_other

end

sublocale dynamo_up \<subseteq> aws_contract: contract_store "aws_store pf C url dlq" "\<lambda>s. aws_view (table s)"
    "\<lambda>s. cloud_ok (table s)" pf aws_raises False "\<lambda>c. \<not> is_replay c" for pf url dlq
proof
  fix s :: 's and c :: store_call and now :: int
  assume ok: "cloud_ok (table s)" and "\<not> is_replay c"
  then show "aws_refined pf url dlq now s c" by (cases c) (simp_all add: aws_refined_rules)
qed

section \<open>The stores agree\<close>

context dynamo_up
begin

lemma agrees_with_sqlite:
  assumes "world_ok w" and "cloud_ok (table s)" and "aws_view (table s) = sql_view w"
    and "\<forall>c \<in> set cs. \<not> is_replay (snd c)"
  shows "\<exists>rs w' qs s'. run_calls (sqlite_store pf) cs w = (rs, w') \<and>
    run_calls (aws_store pf C url dlq) cs s = (qs, s') \<and> aws_view (table s') = sql_view w' \<and>
    length rs = length cs \<and> length qs = length cs \<and> list_all2 same_answer cs (zip rs qs)"
  using assms
proof (induction cs arbitrary: w s)
  case Nil
  then show ?case by simp
next
  case (Cons nc cs)
  obtain now c where nc: "nc = (now, c)" by (cases nc)
  then have c: "\<not> is_replay c" using Cons.prems(4) by simp
  obtain r w1 where sql: "run_call (sqlite_store pf now) c w = (r, w1)"
    "allows pf sql_raises True now c (sql_view w) r (sql_view w1)" "world_ok w1"
    by (rule sqlite_contract.refines_call [OF Cons.prems(1) TrueI])
  obtain q s1 where aws: "run_call (aws_store pf C url dlq now) c s = (q, s1)"
    "allows pf aws_raises False now c (aws_view (table s)) q (aws_view (table s1))" "cloud_ok (table s1)"
    by (rule aws_contract.refines_call [OF Cons.prems(2) c])
  have same: "aws_view (table s1) = sql_view w1" "same_answer nc (r, q)"
    using allowed_alike [OF sql(2) _ c] aws(2) Cons.prems(3) nc by simp_all
  have "\<forall>c \<in> set cs. \<not> is_replay (snd c)" using Cons.prems(4) by simp
  from Cons.IH [OF sql(3) aws(3) same(1) this] obtain rs w' qs s' where
    "run_calls (sqlite_store pf) cs w1 = (rs, w')" "run_calls (aws_store pf C url dlq) cs s1 = (qs, s')"
    "aws_view (table s') = sql_view w'" "length rs = length cs" "length qs = length cs" "list_all2 same_answer cs (zip rs qs)"
    by blast
  with sql(1) aws(1) same(2) show ?case by (simp add: nc)
qed

end

text \<open>
  C15: The SQLite store refines the abstract store of records, in every one of its operations: a call that
  reads or writes records returns or refuses as specified for the view of the tables, a second creation of a
  workflow included, and leaves tables whose view is the specified one; a listing has current checkpoints
  of the status asked for, within its limit; the other calls of the queue and the event log leave the
  records alone; and a replay of a dead letter does nothing or takes its workflow back to QUEUED under the
  next version. The tables stay well formed.
\<close>

theorem sqlite_refines_contract:
  assumes "world_ok w"
  shows "\<exists>r w'. run_call (sqlite_store pf now) c w = (r, w') \<and>
    allows pf sql_raises True now c (sql_view w) r (sql_view w') \<and> world_ok w'"
  using sqlite_contract.refines_call [OF assms TrueI] by metis

definition saved_sample :: workflow_state where
  "saved_sample = (new_workflow ''t'' ''restore checkout'' ''s'' 0)\<lparr>status := RUNNING\<rparr>"

theorem sqlite_refines_contract_witness:
  "\<exists>r w'. run_call (sqlite_store sample_platform 7) (Call_Save saved_sample 1) sample_world = (r, w') \<and>
    allows sample_platform sql_raises True 7 (Call_Save saved_sample 1) (sql_view sample_world) r (sql_view w') \<and> world_ok w'"
  by (rule sqlite_refines_contract [OF sample_world_ok])

text \<open>
  C14: Given a DynamoDB that answers, and started from the same records, the AWS store and the SQLite store
  keep the same records - checkpoints, recorded results and approvals - over every sequence of operations
  other than replays of dead letters, each at its own time; and every call that reads or writes records
  gets the same answer or the same refusal from both, but that a second creation of a workflow is an
  \<open>IntegrityError\<close> in one and a \<open>PermanentWorkflowError\<close> in the other. What the calls of the queue, of the
  event log and the listings answer is not compared.
\<close>

theorem stores_agree:
  assumes "dynamo_up C table" and "world_ok w" and "cloud_ok (table s)" and "aws_view (table s) = sql_view w"
    and "\<forall>c \<in> set cs. \<not> is_replay (snd c)"
  shows "\<exists>rs w' qs s'. run_calls (sqlite_store pf) cs w = (rs, w') \<and>
    run_calls (aws_store pf C url dlq) cs s = (qs, s') \<and> aws_view (table s') = sql_view w' \<and>
    length rs = length cs \<and> length qs = length cs \<and> list_all2 same_answer cs (zip rs qs)"
  by (rule dynamo_up.agrees_with_sqlite [OF assms])

text \<open>A sequence of calls on an empty database and an empty table.\<close>

definition sample_calls :: "(int \<times> store_call) list" where
  "sample_calls =
     [(1, Call_Create (new_workflow ''t'' ''restore checkout'' ''s'' 0) 5), (2, Call_Create saved_sample 5),
      (3, Call_Claim ''w'' 30), (4, Call_Save saved_sample 0), (5, Call_Save saved_sample 0), (6, Call_Create_Approval ''t'' ''a''),
      (7, Call_Resolve_Approval ''t'' ''a'' True ''ops'' None), (8, Call_Resolve_Approval ''t'' ''a'' False ''ops'' None),
      (9, Call_Approval_Status ''t'' ''a''), (9, Call_Save_Result ''k'' ''t'' ''restart_service'' [] [(''ok'', JBool True)]),
      (10, Call_Get_Result ''k'' []), (11, Call_Enqueue ''t'' 5 []), (12, Call_Queue_Counts)]"

lemma empty_views: "aws_view (mem_table empty_memory) = sql_view empty_world" "cloud_ok (mem_table empty_memory)"
  by (simp_all add: table_empty aws_view_def sql_view_def aws_checkpoint_def aws_ledger_def aws_approval_def checkpoint_def
      find_workflow_def ledger_def find_result_def approval_of_def find_approval_def empty_world_def fun_eq_iff
      cloud_ok_def table_ok_def)

theorem stores_agree_witness:
  "\<exists>rs w' qs s'. run_calls (sqlite_store sample_platform) sample_calls empty_world = (rs, w') \<and>
    run_calls (aws_store sample_platform memory_cloud ''queue'' None) sample_calls empty_memory = (qs, s') \<and>
    aws_view (mem_table s') = sql_view w' \<and> length rs = length sample_calls \<and> length qs = length sample_calls \<and>
    list_all2 same_answer sample_calls (zip rs qs)"
proof (rule stores_agree)
  show "\<forall>c \<in> set sample_calls. \<not> is_replay (snd c)" by (simp add: sample_calls_def)
qed (rule memory.dynamo_up_axioms world_ok_empty empty_views)+

end
