(* ===== verification/Aws_System.thy ===== *)
theory Aws_System
  imports Store_Agreement
begin

text \<open>
  The whole program over the AWS store: the runtime, the worker's heartbeat and every route of the API,
  with services that may fail at any call. Then what the store does with messages: what it sends is what
  it reads back, retry delays and dead letters.
\<close>

section \<open>Any run over the AWS store\<close>

context dynamo
begin

lemma aws_runtime_guarantee:
  assumes "wf_store R = aws_store pf C url dlq now"
    and "\<forall>st tool args n. relates evolving_table (wf_backend R st tool args n)"
    and "\<forall>st. relates evolving_table (en_decide (wf_engine R) st)"
    and "relates evolving_table (en_take_usage (wf_engine R))"
    and "\<forall>x. relates evolving_table (wf_sleep R x)"
  shows "runtime_guarantee evolving_table R"
proof (rule runtime_guarantee.intro)
  show "store_guarantee evolving_table (wf_store R)"
    unfolding assms(1) by (rule tables.store_relates)
  show "runtime_guarantee_axioms evolving_table R"
  proof
    show "relates evolving_table (gateway_execute (wf_platform R) (wf_store R) (wf_backend R) st tool args)"
      for st tool args
      unfolding gateway_execute_def Let_def assms(1) aws_store_simps
      by (intro tables.relates_rules tables.relates_get_result assms(2) [rule_format])
         (auto intro!: tables.relates_rules tables.relates_save_result split: json.split list.split)
  qed (use assms in blast)+
qed

lemma aws_runs_evolve:
  assumes "\<And>i. wf_store (R i) = aws_store pf C url dlq (now i)"
    and "\<And>i st tool args n. relates evolving_table (wf_backend (R i) st tool args n)"
    and "\<And>i st. relates evolving_table (en_decide (wf_engine (R i)) st)"
    and "\<And>i. relates evolving_table (en_take_usage (wf_engine (R i)))"
    and "\<And>i x. relates evolving_table (wf_sleep (R i) x)"
  shows "evolving_table s (snd (run_once (R i) c wk s)) \<and> evolving_table s (snd (heartbeat (R i) c wk d s)) \<and>
    evolving_table s (snd (serve R c wk n s)) \<and>
    evolving_table s (snd (handle (R i) c wk suffix auth call s))"
proof -
  have g: "runtime_guarantee evolving_table (R i)" for i
    by (rule aws_runtime_guarantee [OF assms(1)]) (use assms(2-5) in blast)+
  show ?thesis
    using relatesD [OF runtime_guarantee.relates_run_once [OF g]] relatesD [OF runtime_guarantee.relates_heartbeat [OF g]]
      relatesD [OF relates_serve [OF g]] relatesD [OF runtime_guarantee.relates_handle [OF g]]
    by (intro conjI)
qed

end

text \<open>
  C16: Over the AWS store, with services that may fail at any call: whatever a worker turn, a serving
  worker, a heartbeat or a request does - returning or raising - no item of the table disappears, a
  checkpoint is unchanged or has a larger version, and resolved approvals and recorded results stay as they are.
\<close>

theorem aws_records_kept:
  assumes "dynamo C table" and "\<And>i. wf_store (R i) = aws_store pf C url dlq (now i)"
    and "\<And>i st tool args n. relates (\<lambda>s t. table_evolves (table s) (table t)) (wf_backend (R i) st tool args n)"
    and "\<And>i st. relates (\<lambda>s t. table_evolves (table s) (table t)) (en_decide (wf_engine (R i)) st)"
    and "\<And>i. relates (\<lambda>s t. table_evolves (table s) (table t)) (en_take_usage (wf_engine (R i)))"
    and "\<And>i x. relates (\<lambda>s t. table_evolves (table s) (table t)) (wf_sleep (R i) x)"
  shows "table_evolves (table s) (table (snd (run_once (R i) c wk s))) \<and>
    table_evolves (table s) (table (snd (heartbeat (R i) c wk d s))) \<and>
    table_evolves (table s) (table (snd (serve R c wk n s))) \<and>
    table_evolves (table s) (table (snd (handle (R i) c wk suffix auth call s)))"
  by (rule dynamo.aws_runs_evolve [where R = R and now = now, OF assms])

definition memory_runtime :: "memory cloud \<Rightarrow> string option \<Rightarrow> settings \<Rightarrow> int \<Rightarrow> memory workflow_runtime" where
  "memory_runtime C dlq c now =
     make_runtime sample_platform c (aws_store sample_platform C ''queue'' dlq now) (deterministic_engine sample_platform)
       (scenario_backend sample_platform scenario_fixtures) (\<lambda>_. ret ()) now"

lemma relates_memory_runtime:
  "relates (\<lambda>s t. table_evolves (mem_table s) (mem_table t)) (wf_backend (memory_runtime C dlq c now) st tool args n)"
  "relates (\<lambda>s t. table_evolves (mem_table s) (mem_table t)) (en_decide (wf_engine (memory_runtime C dlq c now)) st)"
  "relates (\<lambda>s t. table_evolves (mem_table s) (mem_table t)) (en_take_usage (wf_engine (memory_runtime C dlq c now)))"
  "relates (\<lambda>s t. table_evolves (mem_table s) (mem_table t)) (wf_sleep (memory_runtime C dlq c now) x)"
  by (simp_all add: memory_runtime_def scenario_backend_def deterministic_engine_def relates_def lift_sum_def ret_def
      table_evolves_refl)

definition failing_cloud :: "memory cloud" where
  "failing_cloud = with_outages (\<lambda>s. 2 < mem_number s) memory_cloud"

theorem aws_records_kept_witness:
  "table_evolves (mem_table empty_memory) (mem_table (snd (handle (memory_runtime failing_cloud None default_settings 0)
     default_settings ''w'' ''1'' None (Post_Incident \<lparr>ci_goal = ''restore checkout'', ci_scenario_id = ''s''\<rparr>) empty_memory)))"
proof (rule aws_records_kept [where R = "\<lambda>i. memory_runtime failing_cloud None default_settings (int i)" and i = 0 and
    now = int, simplified, THEN conjunct2, THEN conjunct2, THEN conjunct2])
  show "dynamo failing_cloud mem_table" unfolding failing_cloud_def by (rule unreliable.dynamo_axioms)
  show "wf_store (memory_runtime failing_cloud None default_settings (int i)) =
      aws_store sample_platform failing_cloud ''queue'' None (int i)" for i
    by (simp add: memory_runtime_def)
qed (simp_all add: relates_memory_runtime)

section \<open>Messages\<close>

text \<open>
  C19: A JSON value whose floats and keys are Python's is read back from the text that \<open>json.dumps\<close> writes of
  it, every character escaped as it must be; so what the store puts into a queue is what it takes out: the text
  that \<open>enqueue\<close> sends becomes the delivery of that task, with its limit and payload, and the text of a dead
  letter becomes a record of that delivery, its error cut to 2000 characters. A text that is no JSON object is
  no delivery: it raises.
\<close>

theorem messages_round_trip:
  assumes "parse_int pf number = Some n" and "writable pf (JObj payload)" and "writable pf (JObj (dl_payload d))"
    and "\<forall>j. loads pf other \<noteq> Inr (JObj j)"
  shows "loads pf (json_text pf (JObj payload)) = Inr (JObj payload) \<and>
    delivery_of_message pf \<lparr>ms_body = task_body pf task m payload, ms_receipt = r,
      ms_attributes = [(''ApproximateReceiveCount'', number)]\<rparr> =
    Inr \<lparr>dl_id = IdStr r, dl_task_id = task, dl_attempts = n, dl_max_attempts = m, dl_payload = payload,
      dl_receipt_handle = Some r\<rparr> \<and>
    dead_letter_of_message pf \<lparr>ms_body = dead_letter_body pf d err, ms_receipt = r,
      ms_attributes = [(''SentTimestamp'', number)]\<rparr> =
    Inr \<lparr>dr_id = IdStr r, dr_task_id = dl_task_id d, dr_attempts = dl_attempts d, dr_max_attempts = dl_max_attempts d,
      dr_last_error = Some (slice_to 2000 err), dr_payload = dl_payload d, dr_updated_at = n * 1000\<rparr> \<and>
    delivery_of_message pf \<lparr>ms_body = other, ms_receipt = r, ms_attributes = attributes\<rparr> \<in> range Inl"
proof -
  have "message_json pf \<lparr>ms_body = task_body pf task m payload, ms_receipt = r, ms_attributes = attributes\<rparr> =
      Inr (JObj [(''task_id'', JStr task), (''max_attempts'', JInt m), (''payload'', JObj payload)])" for attributes
    unfolding message_json_def task_body_def message.simps using assms(2) by (subst loads_json_text) simp_all
  moreover have "message_json pf \<lparr>ms_body = dead_letter_body pf d err, ms_receipt = r, ms_attributes = attributes\<rparr> =
      Inr (JObj [(''task_id'', JStr (dl_task_id d)), (''payload'', JObj (dl_payload d)), (''attempts'', JInt (dl_attempts d)),
        (''max_attempts'', JInt (dl_max_attempts d)), (''error'', JStr (slice_to 2000 err))])" for attributes
    unfolding message_json_def dead_letter_body_def message.simps using assms(3) by (subst loads_json_text) simp_all
  moreover have "delivery_of_message pf \<lparr>ms_body = other, ms_receipt = r, ms_attributes = attributes\<rparr> \<in> range Inl"
    using assms(4) by (auto simp: delivery_of_message_def message_json_def body_item_def split: sum.split json.split)
  ultimately show ?thesis
    using assms(1) loads_json_text [OF assms(2)]
    by (simp add: delivery_of_message_def dead_letter_of_message_def body_item_def py_item_def
      py_int_def dict_get_def text_get_def text_field_def dict_field_def optional_text_field_def)
qed

definition last_delivery :: queue_delivery where
  "last_delivery = \<lparr>dl_id = IdStr (receipt 0), dl_task_id = ''t'', dl_attempts = 1, dl_max_attempts = 1, dl_payload = [],
     dl_receipt_handle = Some (receipt 0)\<rparr>"

definition half_platform :: platform where
  "half_platform = sample_platform\<lparr>parse_int := \<lambda>_. Some 3, parse_float := \<lambda>_. Some (1 / 2)\<rparr>"

definition marked_payload :: dict where
  "marked_payload = [(''note'', JStr [CHR 0x22, CHR 0x0A, CHR 0x5C]), (''load'', JArr [JFloat (1 / 2), JNull])]"

theorem messages_round_trip_witness:
  "delivery_of_message half_platform \<lparr>ms_body = task_body half_platform ''t'' 5 marked_payload, ms_receipt = ''r'',
      ms_attributes = [(''ApproximateReceiveCount'', ''3'')]\<rparr> =
    Inr \<lparr>dl_id = IdStr ''r'', dl_task_id = ''t'', dl_attempts = 3, dl_max_attempts = 5, dl_payload = marked_payload,
      dl_receipt_handle = Some ''r''\<rparr>"
proof (rule messages_round_trip [THEN conjunct2, THEN conjunct1])
  show "parse_int half_platform ''3'' = Some 3" by (simp add: half_platform_def)
  show "writable half_platform (JObj marked_payload)" by code_simp
  show "writable half_platform (JObj (dl_payload last_delivery))" by code_simp
  have "loads half_platform [] = Inl ''invalid JSON''" by code_simp
  then show "\<forall>j. loads half_platform [] \<noteq> Inr (JObj j)" by simp
qed

section \<open>Retries and dead letters\<close>

lemma aws_retry_delay_bounds:
  assumes "0 \<le> base"
  shows "0 \<le> aws_retry_delay d base \<and> aws_retry_delay d base \<le> 900"
proof -
  have "0 \<le> min 900 (base * 2 ^ nat (max 0 (dl_attempts d - 1)))" using assms by simp
  moreover have "\<lfloor>min 900 (base * 2 ^ nat (max 0 (dl_attempts d - 1)))\<rfloor> \<le> \<lfloor>900 :: rat\<rfloor>"
    by (rule floor_mono) simp
  ultimately show ?thesis by (simp add: aws_retry_delay_def Let_def)
qed

lemma deliver_retryable:
  assumes "process R (dl_task_id d) s = (Inl e, s')" and "is_retryable e"
  shows "deliver R c d s = on_retryable R c d e s'"
  using assms by (simp add: deliver_def try_catch_def bindE_def)

lemma run_once_deliver_Inl:
  assumes "rs_claim (wf_store R) wk (queue_lease_seconds c) s = (Inr (Some d), s1)" and "deliver R c d s1 = (Inl e, s2)"
    and "wf_heartbeat R = None"
  shows "run_once R c wk s = (Inl e, s2)"
  using assms by (simp add: run_once_def bindE_def)

text \<open>
  C21: Without a dead-letter queue, a delivery of the AWS store that fails for the time being at its last
  attempt ends the worker: neither the message nor the workflow is touched, and the turn raises.
\<close>

theorem missing_dlq_stops_worker:
  assumes "wf_store R = aws_store pf C url dlq now" and "\<not> truthy_text dlq"
    and "aws_claim pf C url wk (queue_lease_seconds c) s = (Inr (Some d), s1)" and "dl_max_attempts d \<le> dl_attempts d"
    and "process R (dl_task_id d) s1 = (Inl e, s2)" and "is_retryable e" and "wf_heartbeat R = None"
  shows "run_once R c wk s =
      (Inl (PermanentWorkflowError ''SQS_DLQ_URL is required to dead-letter tasks explicitly''), s2) \<and>
    serve (\<lambda>_. R) c wk (Suc n) s =
      (Inl (PermanentWorkflowError ''SQS_DLQ_URL is required to dead-letter tasks explicitly''), s2)"
proof -
  have "deliver R c d s1 =
      (Inl (PermanentWorkflowError ''SQS_DLQ_URL is required to dead-letter tasks explicitly''), s2)"
    using assms(1,2,4) deliver_retryable [OF assms(5,6), of c]
    by (simp add: on_retryable_def aws_retry_or_dead_letter_def bindE_def raise_def)
  with assms(1,3,7) have "run_once R c wk s =
      (Inl (PermanentWorkflowError ''SQS_DLQ_URL is required to dead-letter tasks explicitly''), s2)"
    by (intro run_once_deliver_Inl [of R wk c s d s1]) simp_all
  then show ?thesis by (simp add: bindE_def)
qed

text \<open>A cloud that takes one claim and is out from then on, and a message that has no attempt left.\<close>

definition claimed_then_out :: "memory cloud" where
  "claimed_then_out = with_outages (\<lambda>s. list_ex (\<lambda>m. 0 < sm_hidden m) (mem_queue s)) memory_cloud"

definition number_platform :: platform where
  "number_platform = sample_platform\<lparr>parse_int := \<lambda>s. if s = ''1'' then Some 1 else None\<rparr>"

definition last_attempt :: memory where
  "last_attempt = snd (memory_send ''queue'' (task_body number_platform ''t'' 1 []) empty_memory)"

definition out_runtime :: "memory workflow_runtime" where
  "out_runtime = (memory_runtime claimed_then_out None default_settings 0)
     \<lparr>wf_store := aws_store number_platform claimed_then_out ''queue'' None 0\<rparr>"

definition last_claim :: "(error + queue_delivery option) \<times> memory" where
  "last_claim = aws_claim number_platform claimed_then_out ''queue'' ''w'' (queue_lease_seconds default_settings) last_attempt"

theorem missing_dlq_stops_worker_witness:
  "run_once out_runtime default_settings ''w'' last_attempt =
    (Inl (PermanentWorkflowError ''SQS_DLQ_URL is required to dead-letter tasks explicitly''), snd last_claim)"
proof (rule missing_dlq_stops_worker [THEN conjunct1])
  show "wf_store out_runtime = aws_store number_platform claimed_then_out ''queue'' None 0" by (simp add: out_runtime_def)
  show "aws_claim number_platform claimed_then_out ''queue'' ''w'' (queue_lease_seconds default_settings) last_attempt =
      (Inr (Some last_delivery), snd last_claim)"
    by code_simp
  show "process out_runtime (dl_task_id last_delivery) (snd last_claim) =
      (Inl (RetryableWorkflowError ''AWS read checkpoint failed (ServiceUnavailable)''), snd last_claim)"
    by code_simp
qed (simp_all add: last_delivery_def truthy_text_def out_runtime_def memory_runtime_def)

section \<open>Where the stores differ\<close>

text \<open>
  Outside the calls of \<open>Store_Agreement\<close> the AWS store behaves differently: every enqueue is a new message, and
  a replay takes any workflow back to QUEUED, whether or not a dead letter of it exists.
\<close>

definition finished_memory :: memory where
  "finished_memory = snd (aws_create_workflow sample_platform memory_cloud ''queue'' 0
     ((new_workflow ''t'' ''restore checkout'' ''s'' 0)\<lparr>status := COMPLETED\<rparr>) 5 empty_memory)"

lemma aws_enqueue_duplicates:
  "length (mem_queue (snd (aws_enqueue sample_platform memory_cloud ''queue'' ''t'' 5 [] finished_memory))) =
    length (mem_queue finished_memory) + 1"
  by (simp add: aws_enqueue_def aws_call_def on_client_error_def bindE_def memory_send_def ret_def Let_def)

lemma aws_replay_unchecked:
  "map_option status (aws_checkpoint (mem_table (snd (aws_replay_dead_letter sample_platform memory_cloud ''queue''
     (Some ''dlq'') 1 (IdStr ''none'') ''t'' 5 ''ann'' ''retry'' finished_memory))) ''t'') = Some QUEUED"
  by code_simp

end
