(* ===== verification/Aws_Safety.thy ===== *)
theory Aws_Safety
  imports Aws_System Interruption Guarded_Runs
begin

text \<open>
  Safety over the AWS store, with any number of processes on one table. \<open>aws_safe\<close>: every item is stored
  under its key, every checkpoint is \<open>good\<close>, and whatever an external system was asked to do was validated,
  is no blocked tool and, when it restarts a production service, has an approval item in state APPROVED
  under its action id. \<open>logged_dynamo\<close> is a shared table beside the log of those calls; \<open>logged_runtime\<close> is
  a runtime over it, and every run of it is guarded. Then the system: the processes interleave at every call
  of a service, responses get lost, calls fail, a process ends at any call, and the queues may do anything.
\<close>

section \<open>Safe tables\<close>

definition approved_item :: "string \<Rightarrow> string \<Rightarrow> table \<Rightarrow> bool" where
  "approved_item t a T \<longleftrightarrow>
     (\<exists>it. T (approval_key t a) = Some it \<and> map_of it ''status'' = Some (A_Str ''APPROVED''))"

definition good_items :: "platform \<Rightarrow> table \<Rightarrow> bool" where
  "good_items pf T \<longleftrightarrow> (\<forall>t it st. T (state_key t) = Some it \<longrightarrow> map_of it ''state_json'' = Some (A_State st) \<longrightarrow>
     good pf st \<and> task_id st = t)"

definition aws_safe :: "platform \<Rightarrow> table \<Rightarrow> invocation list \<Rightarrow> bool" where
  "aws_safe pf T L \<longleftrightarrow> table_ok T \<and> good_items pf T \<and>
     (\<forall>iv \<in> set L. permitted_by approved_item pf (iv_task_id iv) (iv_tool iv) (iv_arguments iv) T)"

definition aws_progresses :: "platform \<Rightarrow> table \<Rightarrow> invocation list \<Rightarrow> table \<Rightarrow> invocation list \<Rightarrow> bool" where
  "aws_progresses pf T L U M \<longleftrightarrow> table_evolves T U \<and> (aws_safe pf T L \<longrightarrow> aws_safe pf U M)"

lemma aws_progresses_refl: "aws_progresses pf T L T L"
  by (simp add: aws_progresses_def table_evolves_refl)

lemma aws_progresses_trans:
  "aws_progresses pf T L U M \<Longrightarrow> aws_progresses pf U M V N \<Longrightarrow> aws_progresses pf T L V N"
  by (auto simp: aws_progresses_def intro: table_evolves_trans)

lemma approved_item_stays: "table_evolves T U \<Longrightarrow> table_ok T \<Longrightarrow> approved_item t a T \<Longrightarrow> approved_item t a U"
  unfolding approved_item_def by (blast dest: table_evolvesD(4) [where x = "''APPROVED''"] intro: list.distinct)

lemma permitted_item_stays:
  "table_evolves T U \<Longrightarrow> table_ok T \<Longrightarrow> permitted_by approved_item pf t tool args T \<Longrightarrow>
    permitted_by approved_item pf t tool args U"
  by (auto simp: permitted_by_def intro: approved_item_stays)

lemma aws_progressesI:
  assumes "table_evolves T U" and "good_items pf T \<Longrightarrow> good_items pf U"
  shows "aws_progresses pf T L U L"
  using assms permitted_item_stays [OF assms(1)] table_evolvesD(1) [OF assms(1)]
  by (auto simp: aws_progresses_def aws_safe_def)

lemma good_items_other: "(\<And>w. k \<noteq> state_key w) \<Longrightarrow> good_items pf T \<Longrightarrow> good_items pf (T(k \<mapsto> it))"
  by (auto simp: good_items_def)

lemma good_items_state:
  "good_items pf T \<Longrightarrow> good pf st \<Longrightarrow> map_of it ''state_json'' = Some (A_State st) \<Longrightarrow>
    good_items pf (T(state_key (task_id st) \<mapsto> it))"
  by (auto simp: good_items_def)

lemma state_item_json: "map_of (state_item st) ''state_json'' = Some (A_State st)"
  by (simp add: state_item_def)

lemma aws_safe_called:
  "aws_safe pf T L \<Longrightarrow> permitted_by approved_item pf (iv_task_id iv) (iv_tool iv) (iv_arguments iv) T \<Longrightarrow>
    aws_safe pf T (L @ [iv])"
  by (auto simp: aws_safe_def)

section \<open>A shared table beside the log of the external calls\<close>

locale logged_dynamo = shared_dynamo C table log E
  for C :: "'s cloud" and table :: "'s \<Rightarrow> table" and log :: "'s \<Rightarrow> invocation list" and E +
  fixes pf :: platform
  assumes others_progress: "E s t \<Longrightarrow> aws_progresses pf (table s) (log s) (table t) (log t)"
begin

lemma others_evolve: "E s t \<Longrightarrow> table_evolves (table s) (table t)"
  using others_progress by (simp add: aws_progresses_def)

end

sublocale logged_dynamo \<subseteq> evolving: total_table_guarantee C table log E "\<lambda>s t. table_evolves (table s) (table t)"
  by unfold_locales
     (auto simp: table_evolves_refl evolving_writes others_evolve
       intro: table_evolves_trans evolves_save_item evolves_pending_item)

sublocale logged_dynamo \<subseteq> kept: table_guarantee C table log E
    "\<lambda>s t. aws_progresses pf (table s) (log s) (table t) (log t)" "good pf"
proof (unfold_locales, goal_cases)
  case 1
  show ?case by (rule aws_progresses_refl)
next
  case (2 s t u)
  then show ?case by (rule aws_progresses_trans)
next
  case (3 s t)
  then show ?case by (rule others_progress)
next
  case (4 t s w e it)
  then show ?case by (auto intro!: aws_progressesI evolving_writes(1) good_items_other)
next
  case (5 s k t it)
  then show ?case by (auto intro!: aws_progressesI evolving_writes(2) good_items_other)
next
  case (6 st s t)
  then show ?case
    by (auto intro!: aws_progressesI evolving_writes(3) good_items_state state_item_json)
next
  case (7 st s it v t now)
  have "good_items pf (table s) \<Longrightarrow> good_items pf ((table s)(state_key (task_id st) \<mapsto>
      set_attributes (state_changes (st\<lparr>version := v + 1, updated_at := now\<rparr>) (v + 1) now) it))"
    using 7(1) good_items_state [of pf "table s" "st\<lparr>version := v + 1, updated_at := now\<rparr>"]
    by (simp add: map_of_set_attributes state_changes_def)
  with 7 show ?case by (auto intro!: aws_progressesI evolves_save_item)
next
  case (8 s w a it changes t)
  then show ?case by (auto intro!: aws_progressesI evolves_pending_item good_items_other)
qed


section \<open>What the operations return\<close>

context logged_dynamo
begin

abbreviation "sound s \<equiv> aws_safe pf (table s) (log s)"

lemma others_sound: "E s t \<Longrightarrow> sound s \<Longrightarrow> sound t"
  using others_progress by (simp add: aws_progresses_def)

lemma sound_kept: "relates (\<lambda>s t. aws_progresses pf (table s) (log s) (table t) (log t)) m \<Longrightarrow> ensures sound m (\<lambda>_. True)"
  by (rule keeps_ensures) (simp add: relates_def aws_progresses_def)

lemma sound_get:
  "ensures sound (aws_get_workflow C w) (\<lambda>found. \<forall>st. found = Some st \<longrightarrow> good pf st \<and> task_id st = w)"
proof (rule ensuresI)
  fix s
  assume s: "sound s"
  have found: "wp (case found_item r of None \<Rightarrow> ret None
        | Some it \<Rightarrow> bindE (lift_sum (item_state it)) (\<lambda>st. ret (Some st)))
      (\<lambda>found u. sound u \<and> (\<forall>st. found = Some st \<longrightarrow> good pf st \<and> task_id st = w)) (\<lambda>_. sound) t"
    if "E s t \<and> r = table t (state_key w)" for r t
  proof -
    have t: "sound t" using others_sound s that by blast
    have "good pf st \<and> task_id st = w" if "found_item r = Some it" "item_state it = Inr st" for it st
      using t that \<open>E s t \<and> r = table t (state_key w)\<close>
      by (auto simp: aws_safe_def good_items_def found_item_def item_state_def attribute_of_def
          split: if_splits option.splits attribute.splits)
    with t show ?thesis
      by (auto simp: wp_ret wp_bindE wp_lift_sum split: option.split sum.split)
  qed
  show "wp (aws_get_workflow C w) (\<lambda>found u. sound u \<and> (\<forall>st. found = Some st \<longrightarrow> good pf st \<and> task_id st = w))
      (\<lambda>_. sound) s"
    unfolding aws_get_workflow_def wp_bindE wp_aws_call
    by (rule wp_mono [OF get]) (blast intro: found others_sound s)+
qed

lemma save_returns: "wp (aws_save_workflow C now st v) (\<lambda>st' _. \<exists>v u. st' = st\<lparr>version := v, updated_at := u\<rparr>) (\<lambda>_ _. True) s"
  unfolding aws_save_workflow_def Let_def wp_bindE wp_on_client_error wp_raise wp_ret
  by (rule wp_mono [OF wp_top]) blast+

lemma sound_save:
  assumes "good pf st"
  shows "ensures sound (aws_save_workflow C now st v) (\<lambda>st'. \<exists>v u. st' = st\<lparr>version := v, updated_at := u\<rparr>)"
proof (rule ensuresI)
  fix s
  assume "sound s"
  from ensuresD [OF sound_kept [OF kept.relates_save_workflow [OF assms]] this]
  have "wp (aws_save_workflow C now st v) (\<lambda>_. sound) (\<lambda>_. sound) s" by simp
  from wp_conj [OF this save_returns]
  show "wp (aws_save_workflow C now st v) (\<lambda>st' t. sound t \<and> (\<exists>v u. st' = st\<lparr>version := v, updated_at := u\<rparr>)) (\<lambda>_. sound) s"
    by (rule wp_mono) auto
qed

lemma sound_status:
  assumes s: "sound s"
  shows "wp (aws_approval_status C w a) (\<lambda>x u. sound u \<and> (x = Some ''APPROVED'' \<longrightarrow> approved_item w a (table u)))
    (\<lambda>_. sound) s"
proof -
  have found: "wp (case found_item r of None \<Rightarrow> ret None
        | Some it \<Rightarrow> bindE (lift_sum (item_text it ''status'')) (\<lambda>x. ret (Some x)))
      (\<lambda>x u. sound u \<and> (x = Some ''APPROVED'' \<longrightarrow> approved_item w a (table u))) (\<lambda>_. sound) t"
    if "E s t \<and> r = table t (approval_key w a)" for r t
  proof -
    have "sound t" using others_sound s that by blast
    moreover have "approved_item w a (table t)" if "found_item r = Some it" "item_text it ''status'' = Inr ''APPROVED''" for it
      using that \<open>E s t \<and> r = table t (approval_key w a)\<close>
      by (auto simp: approved_item_def found_item_def item_text_def attribute_of_def
          split: if_splits option.splits attribute.splits)
    ultimately show ?thesis
      by (auto simp: wp_ret wp_bindE wp_lift_sum split: option.split sum.split)
  qed
  show ?thesis
    unfolding aws_approval_status_def wp_bindE wp_aws_call
    by (rule wp_mono [OF get]) (blast intro: found others_sound s)+
qed

lemma sound_replay: "ensures sound (aws_replay_dead_letter pf C url dlq now did t m who why) (\<lambda>_. True)"
proof -
  have "good pf (st\<lparr>status := QUEUED, last_error := None\<rparr>)" if "good pf st" for st
    by (rule good_cong [OF that]) simp_all
  note saved = ensures_weaken [OF sound_save [OF this]]
  show ?thesis
    unfolding aws_replay_dead_letter_def
    by (intro ensures_if ensures_ret TrueI ensures_bindE [OF sound_get] ensures_case_option ensures_seq [OF saved]
        ensures_seq [OF sound_kept [OF kept.relates_aws_call]] ensures_seq [OF sound_kept [OF kept.relates_record_event]]
        kept.relates_rules kept.still) simp_all
qed

end

section \<open>A runtime over the shared table\<close>

lemma contended_relates:
  "guarantee G \<Longrightarrow> surroundings_within G env \<Longrightarrow> (\<And>now. relates G (m now)) \<Longrightarrow>
    relates (\<lambda>s t. G (fst s) (fst t)) (contended env m)"
  by (rule interruptible_relates [OF interruptible_contended])

lemma contended_ensures:
  "surroundings_within E env \<Longrightarrow> (\<And>s t. E s t \<Longrightarrow> I s \<Longrightarrow> I t) \<Longrightarrow> (\<And>now. ensures I (m now) Q) \<Longrightarrow>
    ensures (\<lambda>s. I (fst s)) (contended env m) Q"
  by (rule interruptible_ensures [OF interruptible_contended])

lemma contended_guarantee:
  assumes S: "\<And>now. store_guarantee G (S now)" and env: "surroundings_within G env"
  shows "store_guarantee (\<lambda>s t. G (fst s) (fst t)) (contended_store env S)"
proof -
  have G: "guarantee G" by (rule store_guarantee.axioms(1) [OF S])
  note R = contended_relates [OF G env]
  show ?thesis
    by (rule store_guarantee.intro, unfold_locales)
       (auto simp: contended_store_def intro!: R store_guarantee.store_rules [OF S] intro: guarantee.R_refl [OF G] guarantee.R_trans [OF G])
qed

text \<open>
  A runtime whose store calls the services through such a table, and whose tools leave a record of every
  call. What the rest of the system does meanwhile keeps the records and the safety invariant.
\<close>

locale logged_runtime = logged_dynamo C table log E pf
  for C :: "'s cloud" and table :: "'s \<Rightarrow> table" and log :: "'s \<Rightarrow> invocation list" and E and pf +
  fixes R :: "('s \<times> nat) workflow_runtime"
    and env :: "'s surroundings"
    and url :: string
    and dlq :: "string option"
  assumes platform: "wf_platform R = pf"
    and store_eq: "wf_store R = contended_store env (aws_store pf C url dlq)"
    and env: "surroundings_within E env"
    and called: "table_evolves (table (fst s)) (table (fst (snd (wf_backend R st tool args n s)))) \<and>
      (sound (fst s) \<longrightarrow> permitted_by approved_item pf (task_id st) tool args (table (fst s)) \<longrightarrow>
        sound (fst (snd (wf_backend R st tool args n s))))"
    and detector: "max_tool_calls (wf_loop_detector R) = max_tool_calls default_loop_detector"
    and awaits:
      "relates (\<lambda>s t. aws_progresses pf (table (fst s)) (log (fst s)) (table (fst t)) (log (fst t))) (en_decide (wf_engine R) st)"
      "relates (\<lambda>s t. aws_progresses pf (table (fst s)) (log (fst s)) (table (fst t)) (log (fst t))) (en_take_usage (wf_engine R))"
      "relates (\<lambda>s t. aws_progresses pf (table (fst s)) (log (fst s)) (table (fst t)) (log (fst t))) (wf_sleep R x)"
begin

lemma env_evolves: "surroundings_within (\<lambda>s t. table_evolves (table s) (table t)) env"
  using env others_evolve by (auto simp: surroundings_within_def)

lemmas interrupted_relates = contended_relates [OF evolving.guarantee_axioms env_evolves]

lemma interrupted_ensures: "(\<And>now. ensures sound (m now) Q) \<Longrightarrow> ensures (\<lambda>s. sound (fst s)) (contended env m) Q"
  by (rule contended_ensures [where I = sound, OF env]) (use others_sound in blast)+

lemma evolving_pairs: "guarantee (\<lambda>s t :: 's \<times> nat. table_evolves (table (fst s)) (table (fst t)))"
  by unfold_locales (auto simp: table_evolves_refl intro: table_evolves_trans)

lemma evolving_awaits:
  "relates (\<lambda>s t. aws_progresses pf (table (fst s)) (log (fst s)) (table (fst t)) (log (fst t))) m \<Longrightarrow>
    relates (\<lambda>s t. table_evolves (table (fst s)) (table (fst t))) m"
  by (simp add: relates_def aws_progresses_def)

lemma evolving_gateway:
  "relates (\<lambda>s t. table_evolves (table (fst s)) (table (fst t)))
     (gateway_execute (wf_platform R) (wf_store R) (wf_backend R) st tool args)"
proof -
  note rules = guarantee.relates_rules [OF evolving_pairs]
  have results: "relates (\<lambda>s t. table_evolves (table (fst s)) (table (fst t))) (rs_get_tool_result (wf_store R) k p)"
    "relates (\<lambda>s t. table_evolves (table (fst s)) (table (fst t))) (rs_save_tool_result (wf_store R) k w n p r)" for k p w n r
    by (auto simp: store_eq contended_store_def
        intro!: interrupted_relates evolving.relates_get_result evolving.relates_save_result)
  have "relates (\<lambda>s t. table_evolves (table (fst s)) (table (fst t))) (wf_backend R st tool v n)" for v n
    by (rule relatesI) (use called in blast)
  then show ?thesis
    unfolding gateway_execute_def Let_def
    by (intro rules results) (auto intro!: rules results split: json.split list.split)
qed

lemma sound_awaits:
  "relates (\<lambda>s t. aws_progresses pf (table (fst s)) (log (fst s)) (table (fst t)) (log (fst t))) m \<Longrightarrow>
    ensures (\<lambda>s. sound (fst s)) m (\<lambda>_. True)"
  by (rule keeps_ensures) (simp add: relates_def aws_progresses_def)

end

sublocale logged_runtime \<subseteq> evolving_runs: runtime_guarantee "\<lambda>s t. table_evolves (table (fst s)) (table (fst t))" R
proof (rule runtime_guarantee.intro)
  show "store_guarantee (\<lambda>s t. table_evolves (table (fst s)) (table (fst t))) (wf_store R)"
    unfolding store_eq by (rule contended_guarantee [OF evolving.store_relates env_evolves])
  show "runtime_guarantee_axioms (\<lambda>s t. table_evolves (table (fst s)) (table (fst t))) R"
    by unfold_locales (rule evolving_gateway evolving_awaits awaits | (rule evolving_awaits, rule awaits))+
qed

context logged_runtime
begin

lemma sound_operation:
  "(\<And>now. relates (\<lambda>s t. aws_progresses pf (table s) (log s) (table t) (log t)) (m now)) \<Longrightarrow>
    ensures (\<lambda>s. sound (fst s)) (contended env m) (\<lambda>_. True)"
  by (rule interrupted_ensures [OF sound_kept])

lemma sound_approval:
  assumes "sound (fst s)"
  shows "wp (rs_approval_status (wf_store R) w a)
    (\<lambda>x u. sound (fst u) \<and> (x = Some ''APPROVED'' \<longrightarrow> approved_item w a (table (fst u)))) (\<lambda>_ u. sound (fst u)) s"
proof -
  have "wp (contended env (\<lambda>now. aws_approval_status C w a))
      (\<lambda>x u. sound (fst u) \<and> (x = Some ''APPROVED'' \<longrightarrow> approved_item w a (table (fst u)))) (\<lambda>_ u. sound (fst u)) s"
    using interruptible_contended [OF env, of "\<lambda>now. aws_approval_status C w a"]
  proof (cases rule: interruptible_cases [where s = s])
    case (1 s')
    with assms show ?thesis by (simp add: wp_def)
  next
    case (2 u now s')
    with sound_status [OF others_sound [OF 2(1) assms], of w a] show ?thesis
      by (simp add: wp_def split: prod.splits sum.splits)
  qed
  then show ?thesis by (simp add: store_eq contended_store_def)
qed

end

sublocale logged_runtime \<subseteq> guarded: guarded_runtime "\<lambda>s t. table_evolves (table (fst s)) (table (fst t))" R
    "\<lambda>s. sound (fst s)" "\<lambda>w a s. approved_item w a (table (fst s))"
proof (unfold_locales, goal_cases)
  case (1 s t w a)
  then show ?case by (auto simp: aws_safe_def intro: approved_item_stays)
next
  case 2
  show ?case by (rule detector)
next
  case (3 st tool args)
  show ?case by (simp add: gateway_action_id_def action_key_def store_eq contended_store_def platform aws_arguments_hash_def arguments_hash_def)
next
  case (4 st m)
  then show ?case by (simp add: store_eq contended_store_def platform sound_operation kept.relates_create_workflow)
next
  case (5 st v)
  then show ?case by (simp add: store_eq contended_store_def platform interrupted_ensures sound_save)
next
  case (6 w)
  show ?case by (simp add: store_eq contended_store_def platform interrupted_ensures sound_get)
next
  case (7 s w a)
  then show ?case by (rule sound_approval)
next
  case (8 s st tool args n)
  then have "sound (fst (snd (wf_backend R st tool args n s)))"
    using called [of s st tool args n] by (simp add: permitted_by_def platform)
  then show ?case by (cases "wf_backend R st tool args n s") (simp add: wp_def split: sum.split)
next
  case (9 k p)
  show ?case
    by (simp add: store_eq contended_store_def interrupted_relates evolving.relates_get_result)
qed (simp_all add: store_eq contended_store_def sound_operation kept.relates_get_result kept.relates_save_result
    kept.relates_enqueue kept.relates_claim kept.relates_acknowledge kept.relates_extend_lease kept.relates_retry
    kept.relates_queue_counts kept.relates_list_dead_letters kept.relates_record_event kept.relates_list_events
    kept.relates_list_workflows kept.relates_create_approval kept.relates_resolve_approval
    interrupted_ensures sound_replay sound_awaits awaits)

context logged_runtime
begin

lemma run_progresses:
  assumes "ensures (\<lambda>s. sound (fst s)) m (\<lambda>_. True)" and "relates (\<lambda>s t. table_evolves (table (fst s)) (table (fst t))) m"
  shows "relates (\<lambda>s t. aws_progresses pf (table (fst s)) (log (fst s)) (table (fst t)) (log (fst t))) m"
  using ensures_keeps [OF assms(1)] assms(2) by (simp add: relates_def aws_progresses_def)

lemmas progress_handle = run_progresses [OF guarded.keeps_handle evolving_runs.relates_handle]
lemmas progress_run_once = run_progresses [OF guarded.keeps_run_once evolving_runs.relates_run_once]
lemmas progress_heartbeat = run_progresses [OF guarded.keeps_heartbeat evolving_runs.relates_heartbeat]

end

end
