(* ===== verification/Aws_Runs.thy ===== *)
theory Aws_Runs
  imports Aws_Safety Examples
begin

text \<open>
  The AWS deployment as a system of processes on one table: requests, deliveries and heartbeats that
  interleave at every call of a service and of a tool. Any call of a service may be cut off, fail, or take
  effect while its response is lost; the queues may redeliver, delay or lose messages. Every step keeps the
  safety invariant of \<open>Aws_Safety\<close> and lets the table evolve.
\<close>

section \<open>Services that others use\<close>

type_synonym 's aws_world = "'s \<times> invocation list"
  \<comment> \<open>the services, and the log of what external systems were asked to do\<close>

type_synonym 's disturbances = "nat \<Rightarrow> ('s aws_world \<Rightarrow> 's aws_world) \<times> string option"
  \<comment> \<open>before a call: what the others do, and the error reported instead of its response\<close>

definition disturbed_call :: "'s disturbances \<Rightarrow> ('s, 'a) boto_call \<Rightarrow> ('s aws_world \<times> nat, 'a) boto_call" where
  "disturbed_call D m = (\<lambda>(d, n). case n of
      0 \<Rightarrow> (Inl ''Killed'', (d, 0))
    | Suc k \<Rightarrow>
        (case D k of (others, lost) \<Rightarrow> case others d of (s, L) \<Rightarrow> case m s of (r, s') \<Rightarrow>
          (case lost of None \<Rightarrow> r | Some code \<Rightarrow> Inl code, ((s', L), k))))"

definition disturbed_cloud :: "'s disturbances \<Rightarrow> 's cloud \<Rightarrow> ('s aws_world \<times> nat) cloud" where
  "disturbed_cloud D C =
     \<lparr>cl_put_item = (\<lambda>it c. disturbed_call D (cl_put_item C it c)), cl_get_item = (\<lambda>k. disturbed_call D (cl_get_item C k)),
      cl_update_item = (\<lambda>k changes c. disturbed_call D (cl_update_item C k changes c)),
      cl_query_newest = (\<lambda>ty n. disturbed_call D (cl_query_newest C ty n)),
      cl_query_prefix = (\<lambda>pk prefix. disturbed_call D (cl_query_prefix C pk prefix)),
      cl_send_message = (\<lambda>url body. disturbed_call D (cl_send_message C url body)),
      cl_receive_message = (\<lambda>url n x vis names. disturbed_call D (cl_receive_message C url n x vis names)),
      cl_delete_message = (\<lambda>url r. disturbed_call D (cl_delete_message C url r)),
      cl_change_visibility = (\<lambda>url r vis. disturbed_call D (cl_change_visibility C url r vis)),
      cl_queue_attributes = (\<lambda>url names. disturbed_call D (cl_queue_attributes C url names)),
      cl_uuid = (\<lambda>((s, L), n). case cl_uuid C s of (u, s') \<Rightarrow> (u, ((s', L), n)))\<rparr>"

definition disturbances_within :: "('s aws_world \<Rightarrow> 's aws_world \<Rightarrow> bool) \<Rightarrow> 's disturbances \<Rightarrow> bool" where
  "disturbances_within P D \<longleftrightarrow> (\<forall>k d. P d (fst (D k) d))"

lemma disturbances_within_mono [mono]:
  "(\<And>x y. P x y \<longrightarrow> Q x y) \<Longrightarrow> disturbances_within P D \<longrightarrow> disturbances_within Q D"
  by (auto simp: disturbances_within_def)

definition progress_of :: "platform \<Rightarrow> ('s \<Rightarrow> table) \<Rightarrow> 's aws_world \<Rightarrow> 's aws_world \<Rightarrow> bool" where
  "progress_of pf table d d' \<longleftrightarrow> aws_progresses pf (table (fst d)) (snd d) (table (fst d')) (snd d')"

interpretation deployments: guarantee "progress_of pf table" for pf and table :: "'s \<Rightarrow> table"
  by unfold_locales (auto simp: progress_of_def aws_progresses_refl intro: aws_progresses_trans)

text \<open>A call that is disturbed happens after steps of the others, or not at all; any error may be reported.\<close>

lemma wp_disturbed_call:
  assumes "\<And>k s L. n = Suc k \<Longrightarrow> fst (D k) d = (s, L) \<Longrightarrow>
      wp m (\<lambda>x t. Q x ((t, L), k) \<and> (\<forall>e. F e ((t, L), k))) (\<lambda>e t. \<forall>e. F e ((t, L), k)) s"
    and "n = 0 \<Longrightarrow> F ''Killed'' (d, 0)"
  shows "wp (disturbed_call D m) Q F (d, n)"
proof (cases n)
  case 0
  with assms(2) show ?thesis by (simp add: wp_def disturbed_call_def)
next
  case (Suc k)
  obtain others lost where D: "D k = (others, lost)" by (cases "D k")
  obtain s L where sL: "others d = (s, L)" by (cases "others d")
  from assms(1) [OF Suc, of s L] D sL Suc show ?thesis
    by (auto simp: wp_def disturbed_call_def split: prod.splits sum.splits option.splits)
qed

lemma progress_before:
  assumes "disturbances_within (progress_of pf table) D" and "fst (D k) d = (s, L)"
  shows "progress_of pf table d (s, L)"
  using assms unfolding disturbances_within_def by metis

lemma disturbed_quiet:
  assumes "disturbances_within (progress_of pf table) D"
    and "\<And>s. wp m (\<lambda>_ t. table t = table s) (\<lambda>_ t. table t = table s) s"
  shows "wp (disturbed_call D m) (\<lambda>_ y. progress_of pf table (fst x) (fst y)) (\<lambda>_ y. progress_of pf table (fst x) (fst y)) x"
proof -
  obtain d n where x: "x = (d, n)" by (cases x)
  show ?thesis
    unfolding x
  proof (rule wp_disturbed_call)
    fix k s L
    assume "n = Suc k" "fst (D k) d = (s, L)"
    note before = progress_before [OF assms(1) this(2)]
    show "wp m (\<lambda>x t. progress_of pf table (fst (d, n)) (fst ((t, L), k)) \<and> (\<forall>e. progress_of pf table (fst (d, n)) (fst ((t, L), k))))
        (\<lambda>e t. \<forall>e. progress_of pf table (fst (d, n)) (fst ((t, L), k))) s"
      by (rule wp_mono [OF assms(2)]) (use before in \<open>simp_all add: progress_of_def\<close>)
  qed (simp add: deployments.R_refl)
qed

text \<open>A conditional write happens after steps of the others, its condition true then, or not at all.\<close>

definition written :: "platform \<Rightarrow> ('s \<Rightarrow> table) \<Rightarrow> (table \<Rightarrow> table \<Rightarrow> bool) \<Rightarrow> 's aws_world \<times> nat \<Rightarrow> 's aws_world \<times> nat \<Rightarrow> bool" where
  "written pf table W x y \<longleftrightarrow>
     (\<exists>u :: 's aws_world \<times> nat. progress_of pf table (fst x) (fst u) \<and> W (table (fst (fst u))) (table (fst (fst y))) \<and> snd (fst y) = snd (fst u))"

lemma disturbed_write:
  assumes "disturbances_within (progress_of pf table) D"
    and "\<And>s. wp m (\<lambda>_ t. W (table s) (table t)) (\<lambda>_ t. table t = table s) s"
  shows "wp (disturbed_call D m) (\<lambda>_. written pf table W x)
    (\<lambda>_ y. progress_of pf table (fst x) (fst y) \<or> written pf table W x y) x"
proof -
  obtain d n where x: "x = (d, n)" by (cases x)
  show ?thesis
    unfolding x
  proof (rule wp_disturbed_call)
    fix k s L
    assume "n = Suc k" "fst (D k) d = (s, L)"
    note before = progress_before [OF assms(1) this(2)]
    show "wp m (\<lambda>x t. written pf table W (d, n) ((t, L), k) \<and>
          (\<forall>e. progress_of pf table (fst (d, n)) (fst ((t, L), k)) \<or> written pf table W (d, n) ((t, L), k)))
        (\<lambda>e t. \<forall>e. progress_of pf table (fst (d, n)) (fst ((t, L), k)) \<or> written pf table W (d, n) ((t, L), k)) s"
    proof (rule wp_mono [OF assms(2)])
      fix x t
      assume "W (table s) (table t)"
      with before have "written pf table W (d, n) ((t, L), k)"
        unfolding written_def by (intro exI [of _ "((s, L), k)"]) simp
      then show "written pf table W (d, n) ((t, L), k) \<and>
          (\<forall>e. progress_of pf table (fst (d, n)) (fst ((t, L), k)) \<or> written pf table W (d, n) ((t, L), k))"
        by blast
    next
      fix e t
      assume "table t = table s"
      with before show "\<forall>e. progress_of pf table (fst (d, n)) (fst ((t, L), k)) \<or> written pf table W (d, n) ((t, L), k)"
        by (simp add: progress_of_def)
    qed
  qed (simp add: deployments.R_refl)
qed

lemma disturbed_get:
  assumes "disturbances_within (progress_of pf table) D"
    and "\<And>s. wp m (\<lambda>r t. r = table s k \<and> table t = table s) (\<lambda>_ t. table t = table s) s"
  shows "wp (disturbed_call D m) (\<lambda>r y. progress_of pf table (fst x) (fst y) \<and> r = table (fst (fst y)) k)
    (\<lambda>_ y. progress_of pf table (fst x) (fst y)) x"
proof -
  obtain d n where x: "x = (d, n)" by (cases x)
  show ?thesis
    unfolding x
  proof (rule wp_disturbed_call)
    fix i s L
    assume "n = Suc i" "fst (D i) d = (s, L)"
    note before = progress_before [OF assms(1) this(2)]
    show "wp m (\<lambda>r t. (progress_of pf table (fst (d, n)) (fst ((t, L), i)) \<and> r = table (fst (fst ((t, L), i))) k) \<and>
          (\<forall>e. progress_of pf table (fst (d, n)) (fst ((t, L), i))))
        (\<lambda>e t. \<forall>e. progress_of pf table (fst (d, n)) (fst ((t, L), i))) s"
      by (rule wp_mono [OF assms(2)]) (use before in \<open>simp_all add: progress_of_def\<close>)
  qed (simp add: deployments.R_refl)
qed

lemma disturbed_logged:
  fixes C :: "'s cloud" and table :: "'s \<Rightarrow> table"
  assumes d: "dynamo C table" and D: "disturbances_within (progress_of pf table) D"
  shows "logged_dynamo (disturbed_cloud D C) (\<lambda>x. table (fst (fst x))) (\<lambda>x. snd (fst x))
    (\<lambda>x y. progress_of pf table (fst x) (fst y)) pf"
proof (unfold_locales, goal_cases)
  case (1 it c x)
  have "wp (cl_put_item C it c) (\<lambda>_ t. satisfied c (table s (key_of it)) \<and> table t = (table s)(key_of it \<mapsto> it))
      (\<lambda>_ t. table t = table s) s" for s
    by (rule wp_mono [OF dynamo.put [OF d]]) simp_all
  from disturbed_write [OF D, where W = "\<lambda>T U. satisfied c (T (key_of it)) \<and> U = T(key_of it \<mapsto> it)", OF this]
  show ?case unfolding disturbed_cloud_def cloud.simps written_def by (rule wp_mono) auto
next
  case (2 k x)
  have "wp (cl_get_item C k) (\<lambda>r t. r = table s k \<and> table t = table s) (\<lambda>_ t. table t = table s) s" for s
    by (rule wp_mono [OF dynamo.get [OF d]]) simp_all
  from disturbed_get [OF D this] show ?case unfolding disturbed_cloud_def cloud.simps by (rule wp_mono) auto
next
  case (3 k changes cond x)
  have "wp (cl_update_item C k changes cond) (\<lambda>_ t. satisfied (Some cond) (table s k) \<and>
        (\<forall>it. table s k = Some it \<longrightarrow> table t = (table s)(k \<mapsto> set_attributes changes it))) (\<lambda>_ t. table t = table s) s" for s
    by (rule wp_mono [OF dynamo.update [OF d]]) simp_all
  from disturbed_write [OF D, where W = "\<lambda>T U. satisfied (Some cond) (T k) \<and>
      (\<forall>it. T k = Some it \<longrightarrow> U = T(k \<mapsto> set_attributes changes it))", OF this]
  show ?case unfolding disturbed_cloud_def cloud.simps written_def by (rule wp_mono) auto
next
  case (11 x)
  show ?case
    using dynamo.uuid [OF d, of "fst (fst x)"]
    by (auto simp: disturbed_cloud_def progress_of_def aws_progresses_refl split: prod.split)
next
  case (12 x y)
  then show ?case by (simp add: progress_of_def)
qed (simp_all add: disturbed_cloud_def disturbed_quiet [OF D] dynamo.queries [OF d] dynamo.queues [OF d])

section \<open>Steps of the deployment\<close>

type_synonym 's aws_run = "('s aws_world \<times> nat) \<times> nat"
  \<comment> \<open>with the calls of services and the store operations and tool calls that a run is still given\<close>

definition deployed_awaits ::
  "('s aws_world \<Rightarrow> 's aws_world \<Rightarrow> bool) \<Rightarrow> 's aws_run engine \<Rightarrow> (rat \<Rightarrow> ('s aws_run, unit) act) \<Rightarrow> bool" where
  "deployed_awaits P E sleep \<longleftrightarrow>
     (\<forall>st s. P (fst (fst s)) (fst (fst (snd (en_decide E st s))))) \<and>
     (\<forall>s. P (fst (fst s)) (fst (fst (snd (en_take_usage E s))))) \<and>
     (\<forall>x s. P (fst (fst s)) (fst (fst (snd (sleep x s)))))"

lemma deployed_awaits_mono [mono]:
  "(\<And>x y. P x y \<longrightarrow> Q x y) \<Longrightarrow> deployed_awaits P E sleep \<longrightarrow> deployed_awaits Q E sleep"
  by (auto simp: deployed_awaits_def)

definition lifted :: "'s aws_world surroundings \<Rightarrow> ('s aws_world \<times> nat) surroundings" where
  "lifted env k = (fst (env k), apfst (snd (env k)))"

definition logged ::
  "(workflow_state \<Rightarrow> tool_name \<Rightarrow> dict \<Rightarrow> int \<Rightarrow> 's \<Rightarrow> error + json) \<Rightarrow> ('s aws_world \<times> nat) backend" where
  "logged answer st tool args n = (\<lambda>((s, L), i).
     (answer st tool args n s, ((s, L @ [\<lparr>iv_task_id = task_id st, iv_tool = tool, iv_arguments = args\<rparr>]), i)))"

definition deployed_runtime ::
  "platform \<Rightarrow> settings \<Rightarrow> 's cloud \<Rightarrow> string \<Rightarrow> string option \<Rightarrow> 's aws_run engine \<Rightarrow>
    (workflow_state \<Rightarrow> tool_name \<Rightarrow> dict \<Rightarrow> int \<Rightarrow> 's \<Rightarrow> error + json) \<Rightarrow> (rat \<Rightarrow> ('s aws_run, unit) act) \<Rightarrow> int \<Rightarrow>
    's aws_world surroundings \<Rightarrow> 's disturbances \<Rightarrow> 's aws_run workflow_runtime" where
  "deployed_runtime pf c C url dlq E answer sleep now env D =
     make_runtime pf c (contended_store (lifted env) (aws_store pf (disturbed_cloud D C) url dlq)) E
       (\<lambda>st tool args n. contended (lifted env) (\<lambda>_. logged answer st tool args n)) sleep now"

text \<open>
  One step: a request, a delivery or a heartbeat of some process, cut off after so many operations and so
  many calls; before each of them, and while it awaits, the others take any number of steps. Or the
  services change something else than the table, for instance the queues.
\<close>

inductive deployed_step ::
  "platform \<Rightarrow> settings \<Rightarrow> 's cloud \<Rightarrow> ('s \<Rightarrow> table) \<Rightarrow> 's aws_world \<Rightarrow> 's aws_world \<Rightarrow> bool" for pf c C table where
  request: "deployed_awaits (deployed_step pf c C table)\<^sup>*\<^sup>* E sleep \<Longrightarrow>
    surroundings_within (deployed_step pf c C table)\<^sup>*\<^sup>* env \<Longrightarrow> disturbances_within (deployed_step pf c C table)\<^sup>*\<^sup>* D \<Longrightarrow>
    deployed_step pf c C table d (fst (fst (snd (handle
      ((deployed_runtime pf c C url dlq E answer sleep now env D)\<lparr>wf_heartbeat := hb\<rparr>) c wk suffix auth call ((d, i), j)))))"
| delivery: "deployed_awaits (deployed_step pf c C table)\<^sup>*\<^sup>* E sleep \<Longrightarrow>
    surroundings_within (deployed_step pf c C table)\<^sup>*\<^sup>* env \<Longrightarrow> disturbances_within (deployed_step pf c C table)\<^sup>*\<^sup>* D \<Longrightarrow>
    deployed_step pf c C table d (fst (fst (snd (run_once
      ((deployed_runtime pf c C url dlq E answer sleep now env D)\<lparr>wf_heartbeat := hb\<rparr>) c wk ((d, i), j)))))"
| beat: "deployed_awaits (deployed_step pf c C table)\<^sup>*\<^sup>* E sleep \<Longrightarrow>
    surroundings_within (deployed_step pf c C table)\<^sup>*\<^sup>* env \<Longrightarrow> disturbances_within (deployed_step pf c C table)\<^sup>*\<^sup>* D \<Longrightarrow>
    deployed_step pf c C table d (fst (fst (snd (heartbeat
      (deployed_runtime pf c C url dlq E answer sleep now env D) c wk del ((d, i), j)))))"
| services: "table s' = table s \<Longrightarrow> deployed_step pf c C table (s, L) (s', L)"

lemma deployed_platform [simp]: "wf_platform (deployed_runtime pf c C url dlq E answer sleep now env D) = pf"
  by (simp add: deployed_runtime_def)

lemma deployed_steady [simp]:
  "(deployed_runtime pf c C url dlq E answer sleep now env D)\<lparr>wf_heartbeat := None\<rparr> =
    deployed_runtime pf c C url dlq E answer sleep now env D"
  by (simp add: deployed_runtime_def)

section \<open>What every step keeps\<close>

lemma logged_call:
  assumes env: "surroundings_within (progress_of pf table) env"
  shows "table_evolves (table (fst (fst (fst x))))
      (table (fst (fst (fst (snd (contended (lifted env) (\<lambda>_. logged answer st tool args n) x)))))) \<and>
    (aws_safe pf (table (fst (fst (fst x)))) (snd (fst (fst x))) \<longrightarrow>
     permitted_by approved_item pf (task_id st) tool args (table (fst (fst (fst x)))) \<longrightarrow>
     aws_safe pf (table (fst (fst (fst (snd (contended (lifted env) (\<lambda>_. logged answer st tool args n) x))))))
       (snd (fst (fst (snd (contended (lifted env) (\<lambda>_. logged answer st tool args n) x))))))"
proof -
  obtain d i j where x: "x = ((d, i), j)" by (cases x) auto
  show ?thesis
  proof (cases j)
    case 0
    then show ?thesis by (simp add: x contended_def table_evolves_refl)
  next
    case (Suc k)
    obtain s L where sL: "snd (env k) d = (s, L)" by (cases "snd (env k) d")
    then have "progress_of pf table d (s, L)" using env unfolding surroundings_within_def by metis
    then have p: "table_evolves (table (fst d)) (table s)"
      "aws_safe pf (table (fst d)) (snd d) \<Longrightarrow> aws_safe pf (table s) L"
      by (simp_all add: progress_of_def aws_progresses_def)
    have "aws_safe pf (table s) (L @ [\<lparr>iv_task_id = task_id st, iv_tool = tool, iv_arguments = args\<rparr>])"
      if "aws_safe pf (table (fst d)) (snd d)" "permitted_by approved_item pf (task_id st) tool args (table (fst d))"
      using that p permitted_item_stays [OF p(1)] by (auto intro!: aws_safe_called simp: aws_safe_def)
    with p(1) show ?thesis by (simp add: x Suc contended_def lifted_def logged_def sL)
  qed
qed

lemma deployed_logged_runtime:
  assumes C: "dynamo C table" and E: "deployed_awaits (progress_of pf table) E sleep"
    and env: "surroundings_within (progress_of pf table) env" and D: "disturbances_within (progress_of pf table) D"
  shows "logged_runtime (disturbed_cloud D C) (\<lambda>x. table (fst (fst x))) (\<lambda>x. snd (fst x))
    (\<lambda>x y. progress_of pf table (fst x) (fst y)) pf
    ((deployed_runtime pf c C url dlq E answer sleep now env D)\<lparr>wf_heartbeat := hb\<rparr>) (lifted env) url dlq"
proof (rule logged_runtime.intro [OF disturbed_logged [OF C D]], unfold_locales, goal_cases)
  case 3
  show ?case using env by (auto simp: surroundings_within_def lifted_def)
next
  case (4 s st tool args n)
  show ?case using logged_call [OF env] by (simp add: deployed_runtime_def)
qed (use E in \<open>simp_all add: deployed_runtime_def deployed_awaits_def relates_def progress_of_def\<close>)

lemma deployed_run_progresses:
  assumes "dynamo C table" and "deployed_awaits (progress_of pf table) E sleep"
    and "surroundings_within (progress_of pf table) env" and "disturbances_within (progress_of pf table) D"
  shows "progress_of pf table d (fst (fst (snd (handle
      ((deployed_runtime pf c C url dlq E answer sleep now env D)\<lparr>wf_heartbeat := hb\<rparr>) c wk suffix auth call ((d, i), j)))))"
    and "progress_of pf table d (fst (fst (snd (run_once
      ((deployed_runtime pf c C url dlq E answer sleep now env D)\<lparr>wf_heartbeat := hb\<rparr>) c wk ((d, i), j)))))"
    and "progress_of pf table d (fst (fst (snd (heartbeat
      (deployed_runtime pf c C url dlq E answer sleep now env D) c wk del ((d, i), j)))))"
proof -
  note L = deployed_logged_runtime [OF assms]
  note steady_L = L [where hb = None, unfolded deployed_steady]
  show "progress_of pf table d (fst (fst (snd (handle
      ((deployed_runtime pf c C url dlq E answer sleep now env D)\<lparr>wf_heartbeat := hb\<rparr>) c wk suffix auth call ((d, i), j)))))"
    using relatesD [OF logged_runtime.progress_handle [OF L], of "((d, i), j)"] by (simp add: progress_of_def)
  show "progress_of pf table d (fst (fst (snd (run_once
      ((deployed_runtime pf c C url dlq E answer sleep now env D)\<lparr>wf_heartbeat := hb\<rparr>) c wk ((d, i), j)))))"
    using relatesD [OF logged_runtime.progress_run_once [OF L], of "((d, i), j)"] by (simp add: progress_of_def)
  show "progress_of pf table d (fst (fst (snd (heartbeat
      (deployed_runtime pf c C url dlq E answer sleep now env D) c wk del ((d, i), j)))))"
    using relatesD [OF logged_runtime.progress_heartbeat [OF steady_L], of "((d, i), j)"] by (simp add: progress_of_def)
qed

lemma deployed_star_within:
  assumes "guarantee P"
  shows "deployed_awaits (\<lambda>x y. X x y \<and> P x y)\<^sup>*\<^sup>* E sleep \<Longrightarrow> deployed_awaits P E sleep"
    and "surroundings_within (\<lambda>x y. X x y \<and> P x y)\<^sup>*\<^sup>* env \<Longrightarrow> surroundings_within P env"
    and "disturbances_within (\<lambda>x y. X x y \<and> P x y)\<^sup>*\<^sup>* D \<Longrightarrow> disturbances_within P D"
  using star_within [OF assms, of X]
  by (simp_all add: deployed_awaits_def surroundings_within_def disturbances_within_def)

lemma deployed_step_progresses:
  fixes C :: "'s cloud" and table :: "'s \<Rightarrow> table"
  assumes "dynamo C table" and "deployed_step pf c C table d d'"
  shows "progress_of pf table d d'"
  using assms(2)
proof (induction rule: deployed_step.induct)
  case (services s' s L)
  then show ?case by (simp add: progress_of_def aws_progresses_refl)
qed (rule deployed_run_progresses [OF assms(1)]; erule deployed_star_within [OF deployments.guarantee_axioms])+

lemma deployed_progresses:
  fixes C :: "'s cloud" and table :: "'s \<Rightarrow> table"
  assumes "dynamo C table" and "(deployed_step pf c C table)\<^sup>*\<^sup>* d d'"
  shows "progress_of pf table d d'"
  using assms(2)
  by (induction rule: rtranclp_induct)
     (auto intro: deployments.R_refl deployments.R_trans deployed_step_progresses [OF assms(1)])

lemma empty_table_safe: "aws_safe pf (\<lambda>_. None) []"
  by (simp add: aws_safe_def table_ok_def good_items_def)

section \<open>The properties\<close>

text \<open>
  C17: The AWS deployment, its processes interleaved at every call of a service, with failing services, lost
  responses and crashes: from an empty table on, whatever an external system received was validated and is
  no blocked tool, and a production restart has an approval item in state APPROVED under exactly the action
  id of its workflow and arguments.
\<close>

theorem deployed_restart_needs_approval:
  assumes "dynamo C table" and "(deployed_step pf c C table)\<^sup>*\<^sup>* (s, []) (s', L)" and "table s = (\<lambda>_. None)"
    and "iv \<in> set L"
  shows "iv_tool iv \<noteq> DELETE_DATABASE \<and>
    validate_arguments (argument_model_of (iv_tool iv)) (iv_arguments iv) = Some (iv_arguments iv) \<and>
    (iv_tool iv = RESTART_SERVICE \<and> reads_production (iv_arguments iv) \<longrightarrow>
      (\<exists>it. table s' (approval_key (iv_task_id iv) (action_key pf (iv_task_id iv) RESTART_SERVICE (iv_arguments iv))) = Some it \<and>
        map_of it ''status'' = Some (A_Str ''APPROVED'')))"
proof -
  have "aws_safe pf (table s') L"
    using deployed_progresses [OF assms(1,2)] assms(3) by (simp add: progress_of_def aws_progresses_def empty_table_safe)
  with assms(4) have "permitted_by approved_item pf (iv_task_id iv) (iv_tool iv) (iv_arguments iv) (table s')"
    by (simp add: aws_safe_def)
  then show ?thesis by (auto simp: permitted_by_def validated_def approved_item_def production_restart_def)
qed

text \<open>A concrete run: the responses of two calls get lost, the requests are made again.\<close>

definition hasty_engine :: "memory aws_run engine" where
  "hasty_engine =
     \<lparr>en_decide = (\<lambda>st. ret (use_tool RESTART_SERVICE ''restart'' None)), en_take_usage = ret (0, 0)\<rparr>"

definition hasty_runtime :: "memory disturbances \<Rightarrow> memory aws_run workflow_runtime" where
  "hasty_runtime D = deployed_runtime number_platform default_settings memory_cloud ''queue'' None hasty_engine
     (\<lambda>st tool args n s. Inr (JObj [(''ok'', JBool True)])) (\<lambda>_. ret ()) 0 (quiet 0) D"

definition hasty_request :: "memory disturbances \<Rightarrow> call \<Rightarrow> memory aws_world \<Rightarrow> memory aws_world" where
  "hasty_request D call d = fst (fst (snd (handle (hasty_runtime D) default_settings ''w'' ''1'' None call ((d, 40), 40))))"

definition calm :: "memory disturbances" where
  "calm = (\<lambda>_. (\<lambda>d. d, None))"

definition loses :: "nat \<Rightarrow> memory disturbances" where
  \<comment> \<open>the response of one call is lost\<close>
  "loses k = (\<lambda>i. (\<lambda>d. d, if i = k then Some ''RequestTimeout'' else None))"

definition waiting_deployment :: "memory aws_world" where
  "waiting_deployment = hasty_request calm Post_Run_Once (hasty_request calm new_incident (empty_memory, []))"

definition approve_it :: call where
  "approve_it = Post_Approve ''incident-1'' \<lparr>ap_actor = ''ann'', ap_reason = None\<rparr>"

definition approved_deployment :: "memory aws_world" where
  "approved_deployment = hasty_request calm approve_it waiting_deployment"

definition restarted_deployment :: "memory aws_world" where
  "restarted_deployment = hasty_request (loses 33) Post_Run_Once approved_deployment"

lemma hasty_step:
  assumes "\<And>k. fst (D k) = (\<lambda>d. d)"
  shows "deployed_step number_platform default_settings memory_cloud mem_table d (hasty_request D call d)"
  unfolding hasty_request_def hasty_runtime_def
  by (intro deployed_step.request [where hb = None, unfolded deployed_steady])
     (simp_all add: assms deployed_awaits_def hasty_engine_def ret_def quiet_within disturbances_within_def)

lemma hasty_steps:
  "(deployed_step number_platform default_settings memory_cloud mem_table)\<^sup>*\<^sup>* (empty_memory, []) waiting_deployment"
  "(deployed_step number_platform default_settings memory_cloud mem_table)\<^sup>*\<^sup>* (empty_memory, []) restarted_deployment"
proof -
  note step = r_into_rtranclp [where r = "deployed_step number_platform default_settings memory_cloud mem_table", OF hasty_step]
  have quiet: "fst (calm k) = (\<lambda>d. d)" "fst (loses i k) = (\<lambda>d. d)" for i k by (simp_all add: calm_def loses_def)
  show w: "(deployed_step number_platform default_settings memory_cloud mem_table)\<^sup>*\<^sup>* (empty_memory, []) waiting_deployment"
    unfolding waiting_deployment_def by (rule rtranclp_trans [OF step step]) (rule quiet)+
  have a: "(deployed_step number_platform default_settings memory_cloud mem_table)\<^sup>*\<^sup>* waiting_deployment approved_deployment"
    unfolding approved_deployment_def by (rule step) (rule quiet)
  have "(deployed_step number_platform default_settings memory_cloud mem_table)\<^sup>*\<^sup>* approved_deployment restarted_deployment"
    unfolding restarted_deployment_def by (rule step) (rule quiet)
  from rtranclp_trans [OF rtranclp_trans [OF w a] this]
  show "(deployed_step number_platform default_settings memory_cloud mem_table)\<^sup>*\<^sup>* (empty_memory, []) restarted_deployment" .
qed

lemma restarted_log:
  "snd restarted_deployment =
    [\<lparr>iv_task_id = ''incident-1'', iv_tool = RESTART_SERVICE, iv_arguments = checkout_arguments\<rparr>]"
  by code_simp

theorem deployed_restart_needs_approval_witness:
  "\<exists>it. mem_table (fst restarted_deployment) (approval_key ''incident-1''
      (action_key number_platform ''incident-1'' RESTART_SERVICE checkout_arguments)) = Some it \<and>
    map_of it ''status'' = Some (A_Str ''APPROVED'')"
proof -
  let ?iv = "\<lparr>iv_task_id = ''incident-1'', iv_tool = RESTART_SERVICE, iv_arguments = checkout_arguments\<rparr>"
  have production: "reads_production checkout_arguments"
    by (simp add: checkout_arguments_def reads_production_def lower_char_def)
  have "(deployed_step number_platform default_settings memory_cloud mem_table)\<^sup>*\<^sup>* (empty_memory, [])
      (fst restarted_deployment, [?iv])"
    unfolding restarted_log [symmetric] prod.collapse by (rule hasty_steps(2))
  from deployed_restart_needs_approval [OF memory.dynamo_axioms this table_empty, of ?iv] production
  show ?thesis by simp
qed

text \<open>
  C18: In the AWS deployment every checkpoint in the table is stored under its own task id, is well typed,
  has completed fewer than twenty tool calls, and when it waits for approval names a production restart and
  the action id that the approval endpoints resolve.
\<close>

theorem deployed_checkpoints_good:
  assumes "dynamo C table" and "(deployed_step pf c C table)\<^sup>*\<^sup>* (s, []) (s', L)" and "table s = (\<lambda>_. None)"
    and "table s' (state_key t) = Some it" and "map_of it ''state_json'' = Some (A_State st)"
  shows "task_id st = t \<and> typed_state st \<and> tool_calls st < 20 \<and>
    (status st = WAITING_FOR_APPROVAL \<longrightarrow>
      (\<exists>p. pending_action st = Some p \<and> pa_tool p = RESTART_SERVICE \<and> reads_production (pa_arguments p) \<and>
        action_id p = action_key pf t RESTART_SERVICE (pa_arguments p)))"
proof -
  have "aws_safe pf (table s') L"
    using deployed_progresses [OF assms(1,2)] assms(3) by (simp add: progress_of_def aws_progresses_def empty_table_safe)
  with assms(4,5) have g: "good pf st" "task_id st = t" by (auto simp: aws_safe_def good_items_def)
  have "tool_calls st < 20"
    using g(1) by (simp add: good_def within_budget_def reserved_calls_def default_loop_detector_def split: if_splits)
  moreover have "\<exists>p. pending_action st = Some p \<and> pa_tool p = RESTART_SERVICE \<and> reads_production (pa_arguments p) \<and>
      action_id p = action_key pf t RESTART_SERVICE (pa_arguments p)" if "status st = WAITING_FOR_APPROVAL"
    using g that by (auto simp: good_def production_restart_def split: option.splits)
  ultimately show ?thesis using g good_typed [OF g(1)] by blast
qed

theorem deployed_checkpoints_good_witness:
  "\<exists>st. aws_checkpoint (mem_table (fst waiting_deployment)) ''incident-1'' = Some st \<and> status st = WAITING_FOR_APPROVAL \<and>
    typed_state st \<and> tool_calls st < 20"
proof -
  have "map_option status (aws_checkpoint (mem_table (fst waiting_deployment)) ''incident-1'') = Some WAITING_FOR_APPROVAL"
    by code_simp
  then obtain st where st: "aws_checkpoint (mem_table (fst waiting_deployment)) ''incident-1'' = Some st"
    "status st = WAITING_FOR_APPROVAL" by auto
  then obtain it where it: "mem_table (fst waiting_deployment) (state_key ''incident-1'') = Some it"
    "map_of it ''state_json'' = Some (A_State st)"
    by (auto simp: aws_checkpoint_def split: option.splits attribute.splits)
  have "(deployed_step number_platform default_settings memory_cloud mem_table)\<^sup>*\<^sup>* (empty_memory, [])
      (fst waiting_deployment, snd waiting_deployment)"
    unfolding prod.collapse by (rule hasty_steps(1))
  note good = deployed_checkpoints_good [where table = mem_table, OF memory.dynamo_axioms this table_empty it]
  show ?thesis by (rule exI [of _ st]) (simp add: st good [THEN conjunct2, THEN conjunct1] good [THEN conjunct2, THEN conjunct2, THEN conjunct1])
qed

end
