(* ===== verification/Aws_Operations.thy ===== *)
theory Aws_Operations
  imports Decision Aws_Store
begin

text \<open>
  \<open>agent_resilience/aws_tools.py\<close>: the tool backend on CloudWatch and ECS. The five boto3 calls it makes are
  parameters (record \<open>operations\<close>), each with the part of the response that the code reads; a call returns or
  fails with a \<open>ClientError\<close>, which is its code, or with a \<open>BotoCoreError\<close>, which is its class name.
\<close>

section \<open>The services\<close>

datatype tool_fault = Client_Fault string | Transport_Fault string

type_synonym ('s, 'a) tool_call = "('s, tool_fault, 'a) prog"

record alarm =
  al_name :: string
  al_state :: string
  al_reason :: "string option"
  al_updated :: "int option"

record datapoint =
  dp_timestamp :: int
  dp_values :: "(string \<times> rat) list"

record log_event =
  le_timestamp :: int
  le_message :: string

record deployment =
  de_id :: "string option"
  de_status :: "string option"
  de_rollout_state :: "string option"

record ecs_service =
  ec_status :: "string option"
  ec_desired :: "int option"
  ec_running :: "int option"
  ec_pending :: "int option"
  ec_deployments :: "deployment list option"

record services_response =
  sr_failures :: "string option list"
  sr_services :: "ecs_service list"

record 's operations =
  op_describe_alarms :: "string \<Rightarrow> int \<Rightarrow> ('s, alarm list) tool_call"
  op_metric_statistics ::
    "string \<Rightarrow> string \<Rightarrow> (string \<times> string) list \<Rightarrow> int \<Rightarrow> int \<Rightarrow> int \<Rightarrow> string \<Rightarrow> ('s, datapoint list) tool_call"
  op_filter_log_events :: "string \<Rightarrow> int \<Rightarrow> string \<Rightarrow> int \<Rightarrow> ('s, log_event list) tool_call"
  op_describe_services :: "string \<Rightarrow> string \<Rightarrow> ('s, services_response) tool_call"
  op_update_service :: "string \<Rightarrow> string \<Rightarrow> ('s, ecs_service) tool_call"

section \<open>Faults\<close>

definition retryable_codes :: "string list" where
  "retryable_codes =
     [''InternalError'', ''InternalFailure'', ''RequestLimitExceeded'', ''ServiceUnavailable'',
      ''ServiceUnavailableException'']"

fun classify_fault :: "tool_fault \<Rightarrow> tool_name \<Rightarrow> error" where
  \<comment> \<open>\<open>_classify\<close>\<close>
  "classify_fault (Client_Fault code) tool =
     (let message = ''AWS tool '' @ tool_value tool @ '' failed ('' @ code @ '')''
      in if starts_with ''Throttl'' code \<or> code \<in> set retryable_codes
         then RetryableWorkflowError message else PermanentWorkflowError message)"
| "classify_fault (Transport_Fault name) tool =
     RetryableWorkflowError (''AWS tool '' @ tool_value tool @ '' transport failure ('' @ name @ '')'')"

text \<open>A call inside the \<open>try\<close> of \<open>execute\<close>.\<close>

definition tool_op :: "tool_name \<Rightarrow> ('s, 'a) tool_call \<Rightarrow> ('s, 'a) act" where
  "tool_op tool m =
     (\<lambda>s. case m s of (Inl e, s') \<Rightarrow> (Inl (classify_fault e tool), s') | (Inr x, s') \<Rightarrow> (Inr x, s'))"

section \<open>Reading evidence\<close>

text \<open>\<open>arguments[k]\<close>: the gateway passes validated arguments, whose service and environment are texts.\<close>

definition argument :: "dict \<Rightarrow> string \<Rightarrow> error + string" where
  "argument arguments k =
     bind_sum (py_item arguments k) (\<lambda>v. case v of JStr s \<Rightarrow> Inr s | _ \<Rightarrow> Inl (TypeError k))"

definition dump_alarm :: "platform \<Rightarrow> int \<Rightarrow> alarm \<Rightarrow> json" where
  "dump_alarm pf now a =
     JObj [(''name'', JStr (al_name a)), (''state'', JStr (al_state a)),
           (''reason'', JStr (case al_reason a of None \<Rightarrow> [] | Some x \<Rightarrow> x)),
           (''updated_at'', JStr (iso_datetime pf (case al_updated a of None \<Rightarrow> now | Some t \<Rightarrow> t)))]"

definition read_alert :: "platform \<Rightarrow> 's operations \<Rightarrow> int \<Rightarrow> dict \<Rightarrow> ('s, dict) act" where
  "read_alert pf W now arguments =
     bindE (lift_sum (argument arguments ''service'')) (\<lambda>service.
     bindE (tool_op READ_ALERT (op_describe_alarms W service 25)) (\<lambda>alarms.
     ret [(''service'', JStr service), (''alarms'', JArr (map (dump_alarm pf now) alarms)),
          (''in_alarm'', JBool (list_ex (\<lambda>a. al_state a = ''ALARM'') alarms))]))"

fun latest_point :: "datapoint \<Rightarrow> datapoint list \<Rightarrow> datapoint" where
  \<comment> \<open>\<open>max(points, key=\<dots>)\<close>: the first of the latest points\<close>
  "latest_point p [] = p"
| "latest_point p (q # qs) = latest_point (if dp_timestamp p < dp_timestamp q then q else p) qs"

definition point_value :: "string \<Rightarrow> datapoint \<Rightarrow> rat" where
  "point_value statistic p =
     (case map_of (dp_values p) statistic of
        Some v \<Rightarrow> v
      | None \<Rightarrow> (case map_of (dp_values p) ''Average'' of Some v \<Rightarrow> v | None \<Rightarrow> 0))"

definition metric_value :: "string \<Rightarrow> datapoint list \<Rightarrow> rat option" where
  "metric_value statistic points =
     (case points of [] \<Rightarrow> None | p # ps \<Rightarrow> Some (point_value statistic (latest_point p ps)))"

text \<open>Fifteen minutes, in microseconds.\<close>

definition window :: int where
  "window = 15 * 60 * 1000000"

record service_metrics =
  sm_service :: string
  sm_environment :: string
  sm_error_rate :: "rat option"
  sm_latency :: "rat option"

fun json_of_metric :: "rat option \<Rightarrow> json" where
  "json_of_metric None = JNull"
| "json_of_metric (Some q) = JFloat q"

definition dump_metrics :: "service_metrics \<Rightarrow> dict" where
  "dump_metrics m =
     [(''service'', JStr (sm_service m)), (''environment'', JStr (sm_environment m)), (''window_minutes'', JInt 15),
      (''error_rate_percent'', json_of_metric (sm_error_rate m)), (''p95_latency_ms'', json_of_metric (sm_latency m))]"

definition metric_of ::
  "settings \<Rightarrow> 's operations \<Rightarrow> int \<Rightarrow> tool_name \<Rightarrow> string \<Rightarrow> string \<Rightarrow> string \<Rightarrow> string \<Rightarrow> ('s, rat option) act" where
  "metric_of c W now tool service environment metric statistic =
     bindE (tool_op tool (op_metric_statistics W (service_metric_namespace c) metric
         [(''ServiceName'', service), (''Environment'', environment)] (now - window) now 60 statistic))
       (\<lambda>points. ret (metric_value statistic points))"

definition inspect_metrics ::
  "settings \<Rightarrow> 's operations \<Rightarrow> int \<Rightarrow> tool_name \<Rightarrow> dict \<Rightarrow> ('s, service_metrics) act" where
  "inspect_metrics c W now tool arguments =
     bindE (lift_sum (argument arguments ''service'')) (\<lambda>service.
     bindE (lift_sum (argument arguments ''environment'')) (\<lambda>environment.
     bindE (metric_of c W now tool service environment ''ErrorRate'' ''Average'') (\<lambda>rate.
     bindE (metric_of c W now tool service environment ''Latency'' ''p95'') (\<lambda>latency.
     ret \<lparr>sm_service = service, sm_environment = environment, sm_error_rate = rate, sm_latency = latency\<rparr>))))"

definition rstrip_slash :: "string \<Rightarrow> string" where
  "rstrip_slash s = rev (dropWhile (\<lambda>ch. ch = CHR ''/'') (rev s))"

definition query_logs :: "settings \<Rightarrow> 's operations \<Rightarrow> int \<Rightarrow> dict \<Rightarrow> ('s, dict) act" where
  "query_logs c W now arguments =
     bindE (lift_sum (argument arguments ''service'')) (\<lambda>service.
       let group = rstrip_slash (cloudwatch_log_group_prefix c) @ ''/'' @ service
       in bindE (tool_op QUERY_LOGS (op_filter_log_events W group ((now - window) div 1000)
              ''?ERROR ?Exception ?timeout ?503'' 50)) (\<lambda>events.
          ret [(''log_group'', JStr group), (''matches'', JInt (int (length events))),
               (''events'', JArr (map (\<lambda>e. JObj [(''timestamp'', JInt (le_timestamp e)),
                  (''message'', JStr (slice_to 2000 (le_message e)))]) events))]))"

section \<open>The service\<close>

definition service_name :: "settings \<Rightarrow> string \<Rightarrow> string" where
  "service_name c requested = ecs_service_prefix c @ requested"

record health_report =
  sh_service :: string
  sh_status :: "string option"
  sh_desired :: int
  sh_running :: int
  sh_pending :: int
  sh_deployments :: "deployment list"

definition dump_deployment :: "deployment \<Rightarrow> json" where
  "dump_deployment d =
     JObj [(''id'', json_of_option (de_id d)), (''status'', json_of_option (de_status d)),
           (''rollout_state'', json_of_option (de_rollout_state d))]"

definition dump_health :: "settings \<Rightarrow> health_report \<Rightarrow> dict" where
  "dump_health c h =
     [(''cluster'', JStr (ecs_cluster c)), (''service'', JStr (sh_service h)), (''status'', json_of_option (sh_status h)),
      (''desired_count'', JInt (sh_desired h)), (''running_count'', JInt (sh_running h)),
      (''pending_count'', JInt (sh_pending h)), (''deployments'', JArr (map dump_deployment (sh_deployments h)))]"

definition get_count :: "int option \<Rightarrow> int" where
  "get_count n = (case n of None \<Rightarrow> 0 | Some k \<Rightarrow> k)"

definition service_health :: "settings \<Rightarrow> 's operations \<Rightarrow> tool_name \<Rightarrow> dict \<Rightarrow> ('s, health_report) act" where
  "service_health c W tool arguments =
     bindE (lift_sum (argument arguments ''service'')) (\<lambda>requested.
       let service = service_name c requested
       in bindE (tool_op tool (op_describe_services W (ecs_cluster c) service)) (\<lambda>response.
          case sr_failures response of
            why # _ \<Rightarrow> raise (PermanentWorkflowError
              (''ECS service lookup failed: '' @ (case why of None \<Rightarrow> ''unknown'' | Some x \<Rightarrow> x)))
          | [] \<Rightarrow>
              (case sr_services response of
                 [] \<Rightarrow> raise (PermanentWorkflowError (''ECS service not found: '' @ service))
               | item # _ \<Rightarrow>
                   ret \<lparr>sh_service = service, sh_status = ec_status item, sh_desired = get_count (ec_desired item),
                        sh_running = get_count (ec_running item), sh_pending = get_count (ec_pending item),
                        sh_deployments = take 5 (case ec_deployments item of None \<Rightarrow> [] | Some ds \<Rightarrow> ds)\<rparr>)))"

definition restart_service :: "settings \<Rightarrow> 's operations \<Rightarrow> dict \<Rightarrow> ('s, dict) act" where
  "restart_service c W arguments =
     bindE (lift_sum (argument arguments ''service'')) (\<lambda>requested.
       let service = service_name c requested
       in bindE (tool_op RESTART_SERVICE (op_update_service W (ecs_cluster c) service)) (\<lambda>response.
          bindE (case ec_deployments response of
                   None \<Rightarrow> ret \<lparr>de_id = None, de_status = None, de_rollout_state = None\<rparr>
                 | Some [] \<Rightarrow> raise (IndexError ''list index out of range'')
                 | Some (d # _) \<Rightarrow> ret d) (\<lambda>deployment.
          bindE (lift_sum (argument arguments ''environment'')) (\<lambda>environment.
          ret [(''cluster'', JStr (ecs_cluster c)), (''service'', JStr service), (''environment'', JStr environment),
               (''deployment_id'', json_of_option (de_id deployment)),
               (''deployment_status'', json_of_option (de_status deployment)), (''restarted'', JBool True)]))))"

definition rollout_complete :: "health_report \<Rightarrow> bool" where
  "rollout_complete h =
     (sh_running h \<ge> sh_desired h \<and> sh_pending h = 0 \<and> length (sh_deployments h) = 1 \<and>
      (let state = de_rollout_state (hd (sh_deployments h)) in state = None \<or> state = Some ''COMPLETED''))"

definition verify_recovery :: "settings \<Rightarrow> 's operations \<Rightarrow> int \<Rightarrow> dict \<Rightarrow> ('s, dict) act" where
  "verify_recovery c W now arguments =
     bindE (service_health c W VERIFY_RECOVERY arguments) (\<lambda>health.
       if \<not> rollout_complete health
       then raise (RetryableWorkflowError ''ECS replacement deployment is not stable yet'')
       else bindE (inspect_metrics c W now VERIFY_RECOVERY arguments) (\<lambda>metrics.
         if (case sm_error_rate metrics of None \<Rightarrow> True | Some rate \<Rightarrow> rate \<ge> 1)
         then raise (RetryableWorkflowError ''healthy post-restart CloudWatch evidence is not available yet'')
         else ret [(''service'', JObj (dump_health c health)), (''metrics'', JObj (dump_metrics metrics)),
                   (''recovered'', JBool True)]))"

section \<open>The backend\<close>

definition aws_execute :: "platform \<Rightarrow> settings \<Rightarrow> 's operations \<Rightarrow> int \<Rightarrow> tool_name \<Rightarrow> dict \<Rightarrow> ('s, dict) act" where
  "aws_execute pf c W now tool arguments =
     (case tool of
        READ_ALERT \<Rightarrow> read_alert pf W now arguments
      | INSPECT_METRICS \<Rightarrow> bindE (inspect_metrics c W now INSPECT_METRICS arguments) (\<lambda>m. ret (dump_metrics m))
      | QUERY_LOGS \<Rightarrow> query_logs c W now arguments
      | DEPENDENCY_HEALTH \<Rightarrow> bindE (service_health c W DEPENDENCY_HEALTH arguments) (\<lambda>h. ret (dump_health c h))
      | RESTART_SERVICE \<Rightarrow> restart_service c W arguments
      | VERIFY_RECOVERY \<Rightarrow> verify_recovery c W now arguments
      | _ \<Rightarrow> raise (PermanentWorkflowError (''AWS backend does not implement '' @ tool_value tool)))"

definition aws_backend :: "platform \<Rightarrow> settings \<Rightarrow> 's operations \<Rightarrow> int \<Rightarrow> 's backend" where
  "aws_backend pf c W now st tool arguments attempt =
     bindE (aws_execute pf c W now tool arguments) (\<lambda>d. ret (JObj d))"

end
