(* ===== verification/Aws_Operations_Laws.thy ===== *)
theory Aws_Operations_Laws
  imports Aws_Operations
begin

text \<open>
  What the AWS tool backend promises: which call changes the cluster, what a returned verification means to the
  deterministic engine, and which errors can escape from it.
\<close>

section \<open>Errors of a program\<close>

definition fails_only :: "('e \<Rightarrow> bool) \<Rightarrow> ('s, 'e, 'a) prog \<Rightarrow> bool" where
  "fails_only E m \<longleftrightarrow> (\<forall>s. wp m (\<lambda>_ _. True) (\<lambda>e _. E e) s)"

lemma fails_onlyD: "fails_only E m \<Longrightarrow> m s = (Inl e, s') \<Longrightarrow> E e"
  unfolding fails_only_def wp_def by (drule spec [of _ s]) simp

lemma fails_only_ret: "fails_only E (ret x)"
  by (simp add: fails_only_def wp_ret)

lemma fails_only_raise: "E e \<Longrightarrow> fails_only E (raise e)"
  by (simp add: fails_only_def wp_raise)

lemma fails_only_lift: "(\<And>e. r = Inl e \<Longrightarrow> E e) \<Longrightarrow> fails_only E (lift_sum r)"
  by (cases r) (simp_all add: fails_only_def wp_lift_sum)

lemma fails_only_bindE: "fails_only E m \<Longrightarrow> (\<And>x. fails_only E (f x)) \<Longrightarrow> fails_only E (bindE m f)"
  unfolding fails_only_def wp_bindE by (auto intro: wp_mono)

lemma fails_only_if: "(b \<Longrightarrow> fails_only E m) \<Longrightarrow> (\<not> b \<Longrightarrow> fails_only E n) \<Longrightarrow> fails_only E (if b then m else n)"
  by simp

lemma fails_only_option:
  "fails_only E m \<Longrightarrow> (\<And>y. fails_only E (f y)) \<Longrightarrow> fails_only E (case x of None \<Rightarrow> m | Some y \<Rightarrow> f y)"
  by (cases x) auto

lemma fails_only_list:
  "fails_only E m \<Longrightarrow> (\<And>y ys. fails_only E (f y ys)) \<Longrightarrow> fails_only E (case x of [] \<Rightarrow> m | y # ys \<Rightarrow> f y ys)"
  by (cases x) auto

lemma wp_tool_op [wp_rules]: "wp (tool_op tool m) Q E s = wp m Q (\<lambda>e. E (classify_fault e tool)) s"
  by (simp add: wp_def tool_op_def split: prod.split sum.split)

definition workflow_error :: "error \<Rightarrow> bool" where
  \<comment> \<open>an exception that the runtime and the worker handle\<close>
  "workflow_error e \<longleftrightarrow> is_retryable e \<or> is_permanent e"

lemma classified: "workflow_error (classify_fault e tool)"
  by (cases e) (simp_all add: workflow_error_def Let_def)

lemma fails_only_tool_op: "(\<And>e. E (classify_fault e tool)) \<Longrightarrow> fails_only E (tool_op tool m)"
  unfolding fails_only_def wp_tool_op by (auto intro: wp_mono [OF wp_top])

lemmas fails_only_rules = fails_only_ret fails_only_lift fails_only_bindE fails_only_if fails_only_option
  fails_only_list fails_only_tool_op fails_only_raise

section \<open>Validated arguments\<close>

lemma validated_arguments:
  assumes "validate_arguments am a = Some v"
  obtains service environment where "argument v ''service'' = Inr service" "argument v ''environment'' = Inr environment"
  using assms by (rule validate_argumentsE) (auto simp: argument_def py_item_def)

section \<open>Only a restart changes the cluster\<close>

context guarantee
begin

lemma relates_tool_op: "relates R m \<Longrightarrow> relates R (tool_op tool m)"
  unfolding relates_wp wp_tool_op .

lemma relates_case_list:
  "(x = [] \<Longrightarrow> relates R m) \<Longrightarrow> (\<And>y ys. x = y # ys \<Longrightarrow> relates R (f y ys)) \<Longrightarrow>
    relates R (case x of [] \<Rightarrow> m | y # ys \<Rightarrow> f y ys)"
  by (cases x) auto

lemma relates_reading_tools:
  assumes "\<And>prefix n. relates R (op_describe_alarms W prefix n)"
    and "\<And>ns name dims from till period stat. relates R (op_metric_statistics W ns name dims from till period stat)"
    and "\<And>group from pattern n. relates R (op_filter_log_events W group from pattern n)"
    and "\<And>cluster service. relates R (op_describe_services W cluster service)"
    and "tool \<noteq> RESTART_SERVICE"
  shows "relates R (aws_backend pf c W now st tool args n)"
proof -
  have metrics: "relates R (inspect_metrics c W now t args)" for t
    unfolding inspect_metrics_def metric_of_def by (intro relates_rules relates_tool_op assms)
  have health: "relates R (service_health c W t args)" for t
    unfolding service_health_def Let_def by (intro relates_rules relates_case_list relates_tool_op assms)
  have "relates R (read_alert pf W now args)" "relates R (query_logs c W now args)"
    unfolding read_alert_def query_logs_def Let_def by (intro relates_rules relates_tool_op assms)+
  moreover have "relates R (verify_recovery c W now args)"
    unfolding verify_recovery_def by (intro relates_rules metrics health)
  ultimately have "relates R (aws_execute pf c W now tool args)"
    using assms(5) unfolding aws_execute_def
    by (cases tool) (auto intro!: relates_rules metrics health)
  then show ?thesis unfolding aws_backend_def by (intro relates_rules)
qed

end

text \<open>
  C23: Of the AWS tools, only \<open>restart_service\<close> changes anything: a relation that the describing and
  reading calls keep is kept by every other tool; and a restart, whatever it returns, did to the cluster
  exactly what one \<open>update_service\<close> of the requested service does, named by the configured prefix.
\<close>

theorem only_restart_changes:
  assumes "guarantee R"
    and "\<forall>prefix n. relates R (op_describe_alarms W prefix n)"
    and "\<forall>ns name dims from till period stat. relates R (op_metric_statistics W ns name dims from till period stat)"
    and "\<forall>group from pattern n. relates R (op_filter_log_events W group from pattern n)"
    and "\<forall>cluster service. relates R (op_describe_services W cluster service)"
    and "validate_arguments Service_Arguments given = Some args"
  shows "(tool \<noteq> RESTART_SERVICE \<longrightarrow> R s (snd (aws_backend pf c W now st tool args n s))) \<and>
    (\<exists>service. map_of args ''service'' = Some (JStr service) \<and>
      snd (aws_backend pf c W now st RESTART_SERVICE args n s) =
        snd (op_update_service W (ecs_cluster c) (ecs_service_prefix c @ service) s))"
proof (rule conjI)
  show "tool \<noteq> RESTART_SERVICE \<longrightarrow> R s (snd (aws_backend pf c W now st tool args n s))"
    using guarantee.relates_reading_tools [OF assms(1), of W] assms(2-5) by (blast intro: relatesD)
  from assms(6) obtain service environment where
    v: "args = [(''service'', JStr service), (''environment'', JStr environment)]"
    by (rule validate_argumentsE) auto
  have "snd (aws_backend pf c W now st RESTART_SERVICE args n s) =
      snd (op_update_service W (ecs_cluster c) (ecs_service_prefix c @ service) s)"
    by (simp add: v aws_backend_def aws_execute_def restart_service_def argument_def py_item_def tool_op_def prog_defs
        service_name_def Let_def split: prod.split sum.split option.split list.split)
  with v show "\<exists>service. map_of args ''service'' = Some (JStr service) \<and>
      snd (aws_backend pf c W now st RESTART_SERVICE args n s) =
        snd (op_update_service W (ecs_cluster c) (ecs_service_prefix c @ service) s)"
    by simp
qed

section \<open>What a verification means\<close>

lemma recovered_metrics:
  assumes "sm_error_rate m = Some q" and "q < 1"
  shows "recovered pf (JObj [(''service'', h), (''metrics'', JObj (dump_metrics m)), (''recovered'', JBool True)]) =
    Inr True"
  using assms by (simp add: recovered_def py_get_def dump_metrics_def py_float_def)

text \<open>
  When the AWS backend returns a verification - it raises as long as the replacement is not stable or
  the error rate is not below one percent - the service it looked up is stable, and the deterministic engine
  reads the evidence as recovered: with the other evidence collected and the restart done it completes the
  workflow.
\<close>

theorem verification_completes:
  assumes "aws_backend pf c W now st VERIFY_RECOVERY args n s = (Inr j, s')"
    and "map_of (evidence workflow) ''verify_recovery'' = Some j" and "next_tool workflow = None"
  shows "\<exists>h rest. rollout_complete h \<and> j = JObj ((''service'', JObj (dump_health c h)) # rest) \<and>
    deterministic_decide pf workflow = Inr recovered_decision"
proof -
  from assms(1) obtain h m q where h: "rollout_complete h" and m: "sm_error_rate m = Some q" "q < 1"
    and j: "j = JObj [(''service'', JObj (dump_health c h)), (''metrics'', JObj (dump_metrics m)), (''recovered'', JBool True)]"
    by (auto simp: aws_backend_def aws_execute_def verify_recovery_def bindE_eq_Inr ret_def raise_def
        split: if_splits option.splits)
  have "recovered pf j = Inr True" unfolding j by (rule recovered_metrics [OF m])
  moreover obtain v where "map_of (evidence workflow) ''verify_recovery'' = Some v"
    "deterministic_decide pf workflow = (case recovered pf v of Inl e \<Rightarrow> Inl e
      | Inr b \<Rightarrow> Inr (if b then recovered_decision else not_recovered_decision))"
    by (rule deterministic_done [OF assms(3)])
  ultimately show ?thesis using h j assms(2) by auto
qed

section \<open>Failures\<close>

lemma fails_inspect:
  assumes "argument args ''service'' = Inr service" and "argument args ''environment'' = Inr environment"
  shows "fails_only workflow_error (inspect_metrics c W now t args)"
  unfolding inspect_metrics_def metric_of_def by (intro fails_only_rules classified) (simp_all add: assms)

lemma fails_health:
  assumes "argument args ''service'' = Inr service"
  shows "fails_only workflow_error (service_health c W t args)"
  unfolding service_health_def Let_def
  by (intro fails_only_rules classified) (simp_all add: assms workflow_error_def)

definition handled :: "tool_name \<Rightarrow> error \<Rightarrow> bool" where
  \<comment> \<open>what can escape from a tool\<close>
  "handled tool e \<longleftrightarrow> workflow_error e \<or> tool = RESTART_SERVICE \<and> e = IndexError ''list index out of range''"

lemma fails_mono: "fails_only E m \<Longrightarrow> (\<And>e. E e \<Longrightarrow> E' e) \<Longrightarrow> fails_only E' m"
  unfolding fails_only_def by (auto intro: wp_mono)

lemma fails_execute:
  assumes "validate_arguments am given = Some args"
  shows "fails_only (handled tool) (aws_execute pf c W now tool args)"
proof -
  obtain service environment where arg: "argument args ''service'' = Inr service"
    "argument args ''environment'' = Inr environment"
    using assms by (rule validated_arguments)
  note metrics = fails_inspect [OF arg] and health = fails_health [OF arg(1)]
  have "fails_only workflow_error (read_alert pf W now args)" "fails_only workflow_error (query_logs c W now args)"
    unfolding read_alert_def query_logs_def Let_def by (intro fails_only_rules classified; simp add: arg)+
  moreover have "fails_only workflow_error (verify_recovery c W now args)"
    unfolding verify_recovery_def
    by (intro fails_only_rules metrics health) (simp_all add: workflow_error_def)
  moreover have "fails_only (handled RESTART_SERVICE) (restart_service c W args)"
    unfolding restart_service_def Let_def
    by (intro fails_only_rules) (simp_all add: arg handled_def classified)
  ultimately show ?thesis
    unfolding aws_execute_def
    by (cases tool)
       (auto intro!: fails_only_rules fails_mono [OF metrics] fails_mono [OF health] elim!: fails_mono
         simp: handled_def workflow_error_def)
qed

lemma structured_result:
  assumes "aws_execute pf c W now tool args s = (Inr d, s')"
  shows "d \<noteq> []"
  using assms
  by (cases tool)
     (auto simp: aws_execute_def read_alert_def query_logs_def restart_service_def verify_recovery_def bindE_eq_Inr
        ret_def raise_def Let_def dump_metrics_def dump_health_def split: if_splits)

lemma argument_text: "map_of args k = Some (JStr x) \<Longrightarrow> argument args k = Inr x"
  by (simp add: argument_def py_item_def)

lemma restart_outcome:
  assumes "map_of args ''service'' = Some (JStr service)" and "map_of args ''environment'' = Some (JStr environment)"
  shows "aws_backend pf c W now st RESTART_SERVICE args n s =
    (case op_update_service W (ecs_cluster c) (ecs_service_prefix c @ service) s of
       (Inl e, s') \<Rightarrow> (Inl (classify_fault e RESTART_SERVICE), s')
     | (Inr response, s') \<Rightarrow>
         (if ec_deployments response = Some [] then Inl (IndexError ''list index out of range'')
          else Inr (JObj
            [(''cluster'', JStr (ecs_cluster c)), (''service'', JStr (ecs_service_prefix c @ service)),
             (''environment'', JStr environment),
             (''deployment_id'', json_of_option (case ec_deployments response of Some (d # _) \<Rightarrow> de_id d | _ \<Rightarrow> None)),
             (''deployment_status'', json_of_option (case ec_deployments response of Some (d # _) \<Rightarrow> de_status d | _ \<Rightarrow> None)),
             (''restarted'', JBool True)]), s'))"
  by (simp add: aws_backend_def aws_execute_def restart_service_def argument_text [OF assms(1)] argument_text [OF assms(2)]
      tool_op_def prog_defs service_name_def Let_def split: prod.split sum.split option.split list.split)

text \<open>
  C24: With validated arguments every AWS tool but a restart either returns structured output that the
  gateway records, or raises an error that the runtime handles as transient or permanent. A restart whose
  \<open>update_service\<close> fails raises the transient or permanent error of that fault; one whose response lists no
  deployment raises an \<open>IndexError\<close>, which neither handler takes, although the deployment was forced; any
  other restart returns the record of the service, its environment and its first deployment.
\<close>

theorem aws_tools_fail_cleanly:
  assumes "validate_arguments am given = Some args"
    and "map_of args ''service'' = Some (JStr service)" and "map_of args ''environment'' = Some (JStr environment)"
  shows "(tool \<noteq> RESTART_SERVICE \<longrightarrow>
      (case fst (aws_backend pf c W now st tool args n s) of
         Inl e \<Rightarrow> is_retryable e \<or> is_permanent e
       | Inr j \<Rightarrow> (\<exists>kv kvs. j = JObj (kv # kvs)))) \<and>
    (case op_update_service W (ecs_cluster c) (ecs_service_prefix c @ service) s of
       (Inl fault, s') \<Rightarrow>
         (\<exists>e. aws_backend pf c W now st RESTART_SERVICE args n s = (Inl e, s') \<and> (is_retryable e \<or> is_permanent e))
     | (Inr response, s') \<Rightarrow>
         aws_backend pf c W now st RESTART_SERVICE args n s =
           (if ec_deployments response = Some [] then Inl (IndexError ''list index out of range'')
            else Inr (JObj
              [(''cluster'', JStr (ecs_cluster c)), (''service'', JStr (ecs_service_prefix c @ service)),
               (''environment'', JStr environment),
               (''deployment_id'', json_of_option (case ec_deployments response of Some (d # _) \<Rightarrow> de_id d | _ \<Rightarrow> None)),
               (''deployment_status'', json_of_option (case ec_deployments response of Some (d # _) \<Rightarrow> de_status d | _ \<Rightarrow> None)),
               (''restarted'', JBool True)]), s'))"
proof (intro conjI impI)
  assume "tool \<noteq> RESTART_SERVICE"
  show "case fst (aws_backend pf c W now st tool args n s) of
      Inl e \<Rightarrow> is_retryable e \<or> is_permanent e | Inr j \<Rightarrow> (\<exists>kv kvs. j = JObj (kv # kvs))"
  proof (cases "aws_execute pf c W now tool args s")
    case (Pair r s')
    show ?thesis
    proof (cases r)
      case (Inl e)
      with Pair have "handled tool e" using fails_onlyD [OF fails_execute [OF assms(1), of tool pf c W now], of s e s'] by simp
      with Inl Pair \<open>tool \<noteq> RESTART_SERVICE\<close> show ?thesis
        by (auto simp: aws_backend_def bindE_def handled_def workflow_error_def)
    next
      case (Inr d)
      have "d \<noteq> []" by (rule structured_result) (use Pair Inr in simp)
      with Inr Pair show ?thesis by (cases d) (simp_all add: aws_backend_def bindE_def ret_def)
    qed
  qed
next
  show "case op_update_service W (ecs_cluster c) (ecs_service_prefix c @ service) s of
       (Inl fault, s') \<Rightarrow>
         (\<exists>e. aws_backend pf c W now st RESTART_SERVICE args n s = (Inl e, s') \<and> (is_retryable e \<or> is_permanent e))
     | (Inr response, s') \<Rightarrow>
         aws_backend pf c W now st RESTART_SERVICE args n s =
           (if ec_deployments response = Some [] then Inl (IndexError ''list index out of range'')
            else Inr (JObj
              [(''cluster'', JStr (ecs_cluster c)), (''service'', JStr (ecs_service_prefix c @ service)),
               (''environment'', JStr environment),
               (''deployment_id'', json_of_option (case ec_deployments response of Some (d # _) \<Rightarrow> de_id d | _ \<Rightarrow> None)),
               (''deployment_status'', json_of_option (case ec_deployments response of Some (d # _) \<Rightarrow> de_status d | _ \<Rightarrow> None)),
               (''restarted'', JBool True)]), s')"
    using classified [of _ RESTART_SERVICE]
    unfolding restart_outcome [OF assms(2,3), of pf c W now st n s] workflow_error_def by (simp split: prod.split sum.split)
qed

section \<open>A calm cluster\<close>

text \<open>Services that record the forced deployments and report a stable service with the given error rate.\<close>

definition stable_service :: ecs_service where
  "stable_service = \<lparr>ec_status = Some ''ACTIVE'', ec_desired = Some 2, ec_running = Some 2, ec_pending = Some 0,
     ec_deployments = Some [\<lparr>de_id = Some ''d1'', de_status = Some ''PRIMARY'', de_rollout_state = Some ''COMPLETED''\<rparr>]\<rparr>"

definition calm_operations :: "rat \<Rightarrow> (string \<times> string) list operations" where
  "calm_operations rate =
     \<lparr>op_describe_alarms = (\<lambda>_ _. ret []),
      op_metric_statistics = (\<lambda>_ _ _ _ _ _ stat. ret [\<lparr>dp_timestamp = 1, dp_values = [(stat, rate)]\<rparr>]),
      op_filter_log_events = (\<lambda>_ _ _ _. ret []),
      op_describe_services = (\<lambda>_ _. ret \<lparr>sr_failures = [], sr_services = [stable_service]\<rparr>),
      op_update_service = (\<lambda>cluster service log. (Inr stable_service, log @ [(cluster, service)]))\<rparr>"

definition calm_arguments :: dict where
  "calm_arguments = [(''service'', JStr ''checkout''), (''environment'', JStr ''production'')]"

lemma calm_validated: "validate_arguments Service_Arguments calm_arguments = Some calm_arguments"
  by (simp add: calm_arguments_def validate_arguments_def valid_service_def valid_environment_def length_between_def
      slug_def name_char_def environments_def)

theorem only_restart_changes_witness:
  "(\<exists>service. map_of calm_arguments ''service'' = Some (JStr service) \<and>
     snd (aws_backend sample_platform default_settings (calm_operations 0) 0 (new_workflow ''t'' ''g'' ''s'' 0) RESTART_SERVICE
       calm_arguments 1 []) =
     snd (op_update_service (calm_operations 0) (ecs_cluster default_settings)
       (ecs_service_prefix default_settings @ service) []))"
  by (rule only_restart_changes [where R = "(=)" and tool = READ_ALERT, THEN conjunct2, OF _ _ _ _ _ calm_validated])
     (auto simp: calm_operations_def relates_def ret_def guarantee_def)

theorem aws_tools_fail_cleanly_witness:
  "aws_backend sample_platform default_settings (calm_operations 0) 0 (new_workflow ''t'' ''g'' ''s'' 0) RESTART_SERVICE
      calm_arguments 1 [] =
    (Inr (JObj [(''cluster'', JStr (ecs_cluster default_settings)),
       (''service'', JStr (ecs_service_prefix default_settings @ ''checkout'')), (''environment'', JStr ''production''),
       (''deployment_id'', JStr ''d1''), (''deployment_status'', JStr ''PRIMARY''), (''restarted'', JBool True)]),
     [(ecs_cluster default_settings, ecs_service_prefix default_settings @ ''checkout'')])"
  using aws_tools_fail_cleanly [OF calm_validated, of "''checkout''" "''production''" QUERY_LOGS sample_platform
      default_settings "calm_operations 0" 0 "new_workflow ''t'' ''g'' ''s'' 0" 1 "[]"]
  by (simp add: calm_arguments_def calm_operations_def stable_service_def)

definition verified_json :: json where
  "verified_json =
     (case fst (aws_backend sample_platform default_settings (calm_operations (1 / 5)) 0 (new_workflow ''t'' ''g'' ''s'' 0)
        VERIFY_RECOVERY calm_arguments 1 []) of Inl _ \<Rightarrow> JNull | Inr j \<Rightarrow> j)"

definition verified_workflow :: workflow_state where
  "verified_workflow = (new_workflow ''t'' ''g'' ''s'' 0)
     \<lparr>completed_steps := [''restart_service''],
      evidence := [(''read_alert'', JNull), (''inspect_metrics'', JNull), (''query_logs'', JNull),
        (''dependency_health'', JNull), (''verify_recovery'', verified_json)]\<rparr>"

lemma calm_verification:
  "aws_backend sample_platform default_settings (calm_operations (1 / 5)) 0 (new_workflow ''t'' ''g'' ''s'' 0)
     VERIFY_RECOVERY calm_arguments 1 [] = (Inr verified_json, [])"
  by code_simp

theorem verification_completes_witness:
  "\<exists>h rest. rollout_complete h \<and> verified_json = JObj ((''service'', JObj (dump_health default_settings h)) # rest) \<and>
    deterministic_decide sample_platform verified_workflow = Inr recovered_decision"
  by (rule verification_completes [OF calm_verification])
     (simp_all add: verified_workflow_def new_workflow_def next_tool_def evidence_sequence_def)

end
