(* ===== verification/Demo_Service.thy ===== *)
theory Demo_Service
  imports Aws_Operations_Laws
begin

text \<open>
  \<open>agent_resilience/demo_service.py\<close>: the checkout service that incidents are about. It fails a fixed time
  after its start, so that a restart heals it for that time, and publishes what it is to CloudWatch. The
  monotonic clock is an argument; a failing publication is logged and ignored.
\<close>

section \<open>The workload\<close>

record checkout_demo =
  cd_service :: string
  cd_environment :: string
  cd_fail_after :: rat
  cd_metric_interval :: rat
  cd_health_reports_failure :: bool
  cd_started_at :: rat

definition make_demo :: "string \<Rightarrow> string \<Rightarrow> rat \<Rightarrow> rat \<Rightarrow> bool \<Rightarrow> rat \<Rightarrow> checkout_demo" where
  "make_demo service environment fail_after interval reports now =
     \<lparr>cd_service = service, cd_environment = environment, cd_fail_after = fail_after,
      cd_metric_interval = max 1 interval, cd_health_reports_failure = reports, cd_started_at = now\<rparr>"

definition unhealthy :: "checkout_demo \<Rightarrow> rat \<Rightarrow> bool" where
  "unhealthy d now = (cd_fail_after d > 0 \<and> now - cd_started_at d \<ge> cd_fail_after d)"

record demo_sample =
  ds_service :: string
  ds_environment :: string
  ds_unhealthy :: bool
  ds_error_rate :: rat
  ds_latency :: rat

definition sample :: "checkout_demo \<Rightarrow> rat \<Rightarrow> demo_sample" where
  "sample d now =
     (let bad = unhealthy d now
      in \<lparr>ds_service = cd_service d, ds_environment = cd_environment d, ds_unhealthy = bad,
          ds_error_rate = (if bad then 25 / 2 else 1 / 5), ds_latency = (if bad then 1800 else 120)\<rparr>)"

definition dump_sample :: "demo_sample \<Rightarrow> dict" where
  "dump_sample x =
     [(''service'', JStr (ds_service x)), (''environment'', JStr (ds_environment x)), (''unhealthy'', JBool (ds_unhealthy x)),
      (''error_rate_percent'', JFloat (ds_error_rate x)), (''p95_latency_ms'', JFloat (ds_latency x))]"

section \<open>The endpoints\<close>

definition lower :: "string \<Rightarrow> string" where
  "lower s = map lower_char s"

definition env_text :: "(string \<times> string) list \<Rightarrow> string \<Rightarrow> string \<Rightarrow> string" where
  \<comment> \<open>\<open>os.getenv(name, dflt)\<close>\<close>
  "env_text env name dflt = (case map_of env name of None \<Rightarrow> dflt | Some v \<Rightarrow> v)"

definition env_float :: "platform \<Rightarrow> (string \<times> string) list \<Rightarrow> string \<Rightarrow> rat \<Rightarrow> error + rat" where
  \<comment> \<open>\<open>float(os.getenv(name, dflt))\<close>, the default being a numeral\<close>
  "env_float pf env name dflt =
     (case map_of env name of
        None \<Rightarrow> Inr dflt
      | Some v \<Rightarrow> (case parse_float pf v of Some q \<Rightarrow> Inr q | None \<Rightarrow> Inl (ValueError ''could not convert string to float'')))"

definition demo_of_environment :: "platform \<Rightarrow> (string \<times> string) list \<Rightarrow> rat \<Rightarrow> error + checkout_demo" where
  \<comment> \<open>\<open>create_demo_app()\<close> without a workload\<close>
  "demo_of_environment pf env now =
     bind_sum (env_float pf env ''DEMO_FAIL_AFTER_SECONDS'' 180) (\<lambda>fail_after.
     bind_sum (env_float pf env ''DEMO_METRIC_INTERVAL_SECONDS'' 10) (\<lambda>interval.
     Inr (make_demo (env_text env ''DEMO_SERVICE_NAME'' ''checkout-service'')
       (env_text env ''DEMO_ENVIRONMENT'' ''production'') fail_after interval
       (lower (env_text env ''DEMO_HEALTH_REPORTS_FAILURE'' ''true'') = ''true'') now)))"

definition demo_health :: "checkout_demo \<Rightarrow> rat \<Rightarrow> int \<times> dict" where
  "demo_health d now =
     (let x = sample d now
      in (if ds_unhealthy x \<and> cd_health_reports_failure d then 503 else 200, dump_sample x))"

definition demo_checkout :: "checkout_demo \<Rightarrow> rat \<Rightarrow> int \<times> dict" where
  "demo_checkout d now =
     (if ds_unhealthy (sample d now)
      then (503, [(''error'', JStr ''database connection pool exhausted''), (''retryable'', JBool True)])
      else (200, [(''checkout_id'', JStr ''demo-order''), (''status'', JStr ''accepted'')]))"

section \<open>Publishing\<close>

record metric_datum =
  md_name :: string
  md_value :: rat
  md_unit :: string
  md_timestamp :: int
  md_dimensions :: "(string \<times> string) list"

type_synonym 's metric_sink = "string \<Rightarrow> metric_datum list \<Rightarrow> ('s, string, unit) prog"

definition sample_metrics :: "checkout_demo \<Rightarrow> demo_sample \<Rightarrow> int \<Rightarrow> metric_datum list" where
  "sample_metrics d x time =
     (let dimensions = [(''ServiceName'', cd_service d), (''Environment'', cd_environment d)]
      in [\<lparr>md_name = ''ErrorRate'', md_value = ds_error_rate x, md_unit = ''Percent'', md_timestamp = time,
           md_dimensions = dimensions\<rparr>,
          \<lparr>md_name = ''Latency'', md_value = ds_latency x, md_unit = ''Milliseconds'', md_timestamp = time,
           md_dimensions = dimensions\<rparr>])"

definition log_line :: "platform \<Rightarrow> demo_sample \<Rightarrow> string" where
  "log_line pf x =
     sorted_dumps pf
       ([(''level'', JStr (if ds_unhealthy x then ''ERROR'' else ''INFO'')),
         (''message'', JStr (if ds_unhealthy x then ''database connection pool exhausted; checkout requests returning 503''
            else ''checkout service healthy''))] @ dump_sample x)"

definition publish_sample ::
  "platform \<Rightarrow> string \<Rightarrow> 's metric_sink option \<Rightarrow> checkout_demo \<Rightarrow> rat \<Rightarrow> int \<Rightarrow> 's \<Rightarrow> string list \<times> 's" where
  \<comment> \<open>one round of \<open>_publish_samples\<close>: the log lines it writes, and what it does to CloudWatch\<close>
  "publish_sample pf namespace sink d clock time s =
     (let x = sample d clock
      in case sink of
           None \<Rightarrow> ([log_line pf x], s)
         | Some put \<Rightarrow>
             (case put namespace (sample_metrics d x time) s of
                (Inl name, s') \<Rightarrow> ([log_line pf x, ''CloudWatch metric publication failed: '' @ name], s')
              | (Inr _, s') \<Rightarrow> ([log_line pf x], s')))"

definition metrics_enabled :: "(string \<times> string) list \<Rightarrow> bool" where
  \<comment> \<open>\<open>_cloudwatch_client()\<close> is a client\<close>
  "metrics_enabled env = (lower (env_text env ''CLOUDWATCH_METRICS_ENABLED'' ''false'') = ''true'')"

section \<open>What it does\<close>

lemma sample_error_rate: "ds_error_rate (sample d now) < 1 \<longleftrightarrow> \<not> unhealthy d now"
  by (simp add: sample_def Let_def)

text \<open>
  A started service works until its failure time and no longer, for any positive failure time: the
  checkout endpoint and, when it is told to, the health endpoint answer 503 from then on, and a service
  started again at any moment works again.
\<close>

theorem restart_heals:
  assumes "0 < fail_after" and "d = make_demo service environment fail_after interval reports started"
  shows "(fst (demo_checkout d now) = 503 \<longleftrightarrow> started + fail_after \<le> now) \<and>
    (fst (demo_health d now) = 503 \<longleftrightarrow> reports \<and> started + fail_after \<le> now) \<and>
    fst (demo_checkout (make_demo service environment fail_after interval reports now) now) = 200"
  using assms by (auto simp: demo_checkout_def demo_health_def sample_def unhealthy_def make_demo_def Let_def)

theorem restart_heals_witness:
  "fst (demo_checkout (make_demo ''checkout'' ''production'' 180 10 True 0) 200) = 503 \<longleftrightarrow> 0 + 180 \<le> (200 :: rat)"
  using restart_heals [of 180 "make_demo ''checkout'' ''production'' 180 10 True 0" "''checkout''" "''production''" 10 True 0 200]
  by simp

section \<open>From the service to the verification\<close>

text \<open>
  \<open>reports c W item d clock s\<close>: CloudWatch answers a query for the average of \<open>ErrorRate\<close> with the point that the
  service published, a query for the percentile of \<open>Latency\<close> with a point of it - CloudWatch puts a percentile
  under \<open>ExtendedStatistics\<close>, so that the point has no value of its own - and ECS describes the service.
\<close>

definition reports :: "settings \<Rightarrow> 's operations \<Rightarrow> ecs_service \<Rightarrow> checkout_demo \<Rightarrow> rat \<Rightarrow> 's \<Rightarrow> bool" where
  "reports c W item d clock s \<longleftrightarrow>
     (\<forall>m \<in> set (sample_metrics d (sample d clock) 0). \<forall>from till.
        op_metric_statistics W (service_metric_namespace c) (md_name m) (md_dimensions m) from till 60 ''Average'' s =
          (Inr [\<lparr>dp_timestamp = 0, dp_values = [(''Average'', md_value m)]\<rparr>], s) \<and>
        op_metric_statistics W (service_metric_namespace c) (md_name m) (md_dimensions m) from till 60 ''p95'' s =
          (Inr [\<lparr>dp_timestamp = 0, dp_values = []\<rparr>], s)) \<and>
     op_describe_services W (ecs_cluster c) (ecs_service_prefix c @ cd_service d) s =
       (Inr \<lparr>sr_failures = [], sr_services = [item]\<rparr>, s)"

definition stable_item :: "ecs_service \<Rightarrow> bool" where
  "stable_item item \<longleftrightarrow>
     (\<exists>dep. ec_deployments item = Some [dep] \<and> (de_rollout_state dep = None \<or> de_rollout_state dep = Some ''COMPLETED'')) \<and>
     get_count (ec_desired item) \<le> get_count (ec_running item) \<and> get_count (ec_pending item) = 0"

lemma health_reported:
  assumes "reports c W item d clock s" and "stable_item item"
    and "args = [(''service'', JStr (cd_service d)), (''environment'', JStr (cd_environment d))]"
  obtains h where "service_health c W t args s = (Inr h, s)" "rollout_complete h"
proof -
  from assms(2) obtain dep where dep: "ec_deployments item = Some [dep]"
    "de_rollout_state dep = None \<or> de_rollout_state dep = Some ''COMPLETED''" by (auto simp: stable_item_def)
  have describe: "op_describe_services W (ecs_cluster c) (ecs_service_prefix c @ cd_service d) s =
      (Inr \<lparr>sr_failures = [], sr_services = [item]\<rparr>, s)"
    using assms(1) by (simp add: reports_def)
  let ?h = "\<lparr>sh_service = ecs_service_prefix c @ cd_service d, sh_status = ec_status item,
    sh_desired = get_count (ec_desired item), sh_running = get_count (ec_running item),
    sh_pending = get_count (ec_pending item), sh_deployments = [dep]\<rparr>"
  have "service_health c W t args s = (Inr ?h, s)"
    using describe dep(1)
    by (simp add: service_health_def assms(3) argument_def py_item_def service_name_def tool_op_def prog_defs Let_def)
  moreover have "rollout_complete ?h"
    using assms(2) dep by (auto simp: rollout_complete_def stable_item_def)
  ultimately show thesis by (rule that)
qed

text \<open>The latency that the tool reads is zero, whatever the service published.\<close>

lemma metrics_reported:
  assumes "reports c W item d clock s"
    and "args = [(''service'', JStr (cd_service d)), (''environment'', JStr (cd_environment d))]"
  shows "inspect_metrics c W now t args s =
    (Inr \<lparr>sm_service = cd_service d, sm_environment = cd_environment d,
       sm_error_rate = Some (ds_error_rate (sample d clock)), sm_latency = Some 0\<rparr>, s)"
  using assms(1)
  by (simp add: inspect_metrics_def metric_of_def assms(2) argument_def py_item_def tool_op_def prog_defs reports_def
      sample_metrics_def Let_def metric_value_def point_value_def)

text \<open>
  C22: The evidence is about the service: when CloudWatch answers with what the service published and ECS
  finds it stable, \<open>verify_recovery\<close> returns exactly while the service works, with evidence that the
  deterministic engine reads as recovered; while it fails, the tool raises a transient error and reads again.
\<close>

theorem verification_follows_service:
  assumes "reports c W item d clock s" and "stable_item item"
    and "args = [(''service'', JStr (cd_service d)), (''environment'', JStr (cd_environment d))]"
  shows "if unhealthy d clock
    then aws_backend pf c W now st VERIFY_RECOVERY args n s =
      (Inl (RetryableWorkflowError ''healthy post-restart CloudWatch evidence is not available yet''), s)
    else \<exists>j. aws_backend pf c W now st VERIFY_RECOVERY args n s = (Inr j, s) \<and> recovered pf j = Inr True"
proof -
  obtain h where h: "service_health c W VERIFY_RECOVERY args s = (Inr h, s)" "rollout_complete h"
    by (rule health_reported [OF assms])
  note metrics = metrics_reported [OF assms(1,3), of now VERIFY_RECOVERY]
  show ?thesis
  proof (cases "unhealthy d clock")
    case True
    then have "\<not> ds_error_rate (sample d clock) < 1" by (simp add: sample_error_rate)
    with True h metrics show ?thesis
      by (simp add: aws_backend_def aws_execute_def verify_recovery_def bindE_def raise_def)
  next
    case False
    then have "ds_error_rate (sample d clock) < 1" by (simp add: sample_error_rate)
    moreover from this have "\<not> 1 \<le> ds_error_rate (sample d clock)" by simp
    ultimately show ?thesis
      using False h metrics
      by (simp add: aws_backend_def aws_execute_def verify_recovery_def bindE_def ret_def recovered_metrics)
  qed
qed

definition watched_demo :: checkout_demo where
  "watched_demo = make_demo ''checkout'' ''production'' 180 10 True 0"

definition watching :: "unit operations" where
  "watching =
     \<lparr>op_describe_alarms = (\<lambda>_ _. ret []),
      op_metric_statistics = (\<lambda>_ name _ _ _ _ stat. ret [\<lparr>dp_timestamp = 0, dp_values =
         if stat = ''p95'' then [] else [(stat, if name = ''ErrorRate'' then 1 / 5 else 120)]\<rparr>]),
      op_filter_log_events = (\<lambda>_ _ _ _. ret []),
      op_describe_services = (\<lambda>_ _. ret \<lparr>sr_failures = [], sr_services = [stable_service]\<rparr>),
      op_update_service = (\<lambda>_ _. ret stable_service)\<rparr>"

theorem verification_follows_service_witness:
  "\<exists>j. aws_backend sample_platform default_settings watching 0 (new_workflow ''t'' ''g'' ''s'' 0) VERIFY_RECOVERY
     [(''service'', JStr ''checkout''), (''environment'', JStr ''production'')] 1 () = (Inr j, ()) \<and>
    recovered sample_platform j = Inr True"
proof -
  have "reports default_settings watching stable_service watched_demo 10 ()"
    by (simp add: reports_def watching_def ret_def sample_metrics_def sample_def unhealthy_def watched_demo_def
        make_demo_def Let_def)
  moreover have "stable_item stable_service" by (simp add: stable_item_def stable_service_def get_count_def)
  moreover have "\<not> unhealthy watched_demo 10" by (simp add: unhealthy_def watched_demo_def make_demo_def)
  ultimately show ?thesis
    using verification_follows_service [of default_settings watching stable_service watched_demo 10 "()"
        "[(''service'', JStr ''checkout''), (''environment'', JStr ''production'')]" sample_platform 0
        "new_workflow ''t'' ''g'' ''s'' 0" 1]
    by (simp add: watched_demo_def make_demo_def)
qed

end
