(* ===== verification/Evaluation.thy ===== *)
theory Evaluation
  imports Api
begin

text \<open>
  \<open>evals/generate_cases.py\<close> and \<open>evals/run_local.py\<close>: the evaluation cases, the matching of diagnoses, the loop
  that drives a worker through a case and answers its approvals, and the report. The wall clock of a case is
  an argument; writing the report file is left out.
\<close>

section \<open>Cases\<close>

record eval_case =
  ca_id :: string
  ca_goal :: string
  ca_scenario_id :: string
  ca_root_cause :: string
  ca_required_evidence :: "string list"
  ca_transient_failures :: "(string \<times> int) list"
  ca_approve :: bool
  ca_expect_status :: workflow_status

definition goals :: "string list" where
  "goals =
     [''Investigate elevated checkout errors and recover safely'',
      ''Find why checkout latency increased in production'',
      ''Diagnose checkout connection acquisition timeouts'',
      ''Establish whether checkout or its database is unhealthy'',
      ''Safely remediate checkout-service elevated error rate'',
      ''Diagnose production checkout saturation without unsafe actions'',
      ''Investigate checkout errors using logs and metrics evidence'',
      ''Recover checkout while preserving an auditable approval boundary'',
      ''Verify checkout recovery after evidence-backed remediation'',
      ''Investigate checkout failures without repeating side effects'']"

definition failures :: "(string \<times> int) list list" where
  "failures =
     [[], [(''inspect_metrics'', 1)], [(''query_logs'', 1)], [(''dependency_health'', 1)], [(''read_alert'', 1)]]"

definition two_digits :: "nat \<Rightarrow> string" where
  \<comment> \<open>\<open>f"{n:02d}"\<close>\<close>
  "two_digits n = (if n < 10 then ''0'' @ str_int (int n) else str_int (int n))"

definition generate_case :: "nat \<Rightarrow> eval_case" where
  "generate_case index =
     (let approve = index mod 5 \<noteq> 4;
          required = [''read_alert'', ''inspect_metrics'', ''query_logs'', ''dependency_health'']
      in \<lparr>ca_id = ''checkout-'' @ two_digits (index + 1), ca_goal = goals ! (index mod length goals),
          ca_scenario_id = ''checkout-pool-exhaustion'', ca_root_cause = ''database connection pool exhaustion'',
          ca_required_evidence = (if approve then required @ [''verify_recovery''] else required),
          ca_transient_failures = failures ! (index mod length failures), ca_approve = approve,
          ca_expect_status = (if approve then COMPLETED else HUMAN_REJECTED)\<rparr>)"

definition generate :: "eval_case list" where
  "generate = map generate_case [0..<50]"

section \<open>Matching a diagnosis\<close>

definition word_char :: "char \<Rightarrow> bool" where
  "word_char ch = (CHR ''a'' \<le> ch \<and> ch \<le> CHR ''z'' \<or> CHR ''0'' \<le> ch \<and> ch \<le> CHR ''9'')"

text \<open>\<open>re.findall(r"[a-z0-9]+", s)\<close>: the maximal runs, \<open>w\<close> being the one that is being read.\<close>

fun words_from :: "string \<Rightarrow> string \<Rightarrow> string list" where
  "words_from w [] = (if w = [] then [] else [w])"
| "words_from w (ch # s) =
     (if word_char ch then words_from (w @ [ch]) s
      else (if w = [] then [] else [w]) @ words_from [] s)"

definition prefix_of :: "string \<Rightarrow> string \<Rightarrow> bool" where
  "prefix_of p s = (take (length p) s = p)"

definition canonical_term :: "string \<Rightarrow> string" where
  "canonical_term token =
     (if token = ''db'' then ''database''
      else if prefix_of ''exhaust'' token \<or> prefix_of ''saturat'' token then ''exhaust''
      else if last token = CHR ''s'' \<and> 4 < length token then butlast token
      else token)"

definition canonical_terms :: "string \<Rightarrow> string set" where
  "canonical_terms s = canonical_term ` set (words_from [] (map lower_char s))"

definition diagnosis_matches :: "string \<Rightarrow> string option \<Rightarrow> bool" where
  "diagnosis_matches expected actual =
     (truthy_text actual \<and> canonical_terms expected \<subseteq> canonical_terms (the actual))"

section \<open>Running a case\<close>

definition with_failures :: "eval_case \<Rightarrow> dict \<Rightarrow> error + dict" where
  \<comment> \<open>\<open>backend.scenarios[case["scenario_id"]]["transient_failures"] = \<dots>\<close>\<close>
  "with_failures ec scenarios =
     bind_sum (py_item scenarios (ca_scenario_id ec)) (\<lambda>scenario.
       case scenario of
         JObj d \<Rightarrow> Inr (AList.update (ca_scenario_id ec)
           (JObj (AList.update ''transient_failures''
              (JObj (map (\<lambda>(k, n). (k, JInt n)) (ca_transient_failures ec))) d)) scenarios)
       | _ \<Rightarrow> Inl (TypeError ''item assignment''))"

definition eval_settings :: "bool \<Rightarrow> settings" where
  "eval_settings live = default_settings
     \<lparr>agent_mode := (if live then ''live'' else ''deterministic''), queue_retry_base_seconds := 0, max_queue_attempts := 4\<rparr>"

definition eval_runtime ::
  "platform \<Rightarrow> 's runtime_store \<Rightarrow> 's engine \<Rightarrow> dict \<Rightarrow> int \<Rightarrow> 's workflow_runtime" where
  "eval_runtime pf S E scenarios now =
     \<lparr>wf_platform = pf, wf_store = S, wf_engine = E, wf_backend = scenario_backend pf scenarios,
      wf_loop_detector = default_loop_detector, wf_chaos_pause_tool = None, wf_chaos_pause_after_steps = None,
      wf_chaos_pause_seconds = 0, wf_sleep = (\<lambda>_. ret ()), wf_now = now, wf_heartbeat = None\<rparr>"

definition answer_approval ::
  "'s workflow_runtime \<Rightarrow> settings \<Rightarrow> eval_case \<Rightarrow> workflow_state \<Rightarrow> ('s, workflow_state) act" where
  "answer_approval R c ec st =
     (case pending_action st of
        None \<Rightarrow> raise (AttributeError ''action_id'')
      | Some p \<Rightarrow>
          bindE (rs_resolve_approval (wf_store R) (task_id st) (action_id p) (ca_approve ec) ''eval''
              (Some ''fixture decision'')) (\<lambda>_.
          let st1 = (if ca_approve ec then st\<lparr>status := QUEUED\<rparr>
                else st\<lparr>status := HUMAN_REJECTED, pending_action := None\<rparr>)
          in bindE (save R st1) (\<lambda>st2.
             bindE (if ca_approve ec
                    then bindE (rs_enqueue (wf_store R) (task_id st2) (max_queue_attempts c) []) (\<lambda>_. ret ())
                    else ret ()) (\<lambda>_.
             ret st2))))"

definition eval_round ::
  "'s workflow_runtime \<Rightarrow> settings \<Rightarrow> eval_case \<Rightarrow> ('s, workflow_state) act" where
  \<comment> \<open>one turn of \<open>for _ in range(40)\<close>\<close>
  "eval_round R c ec =
     bindE (run_once R c ''eval-worker'') (\<lambda>_.
     bindE (rs_get_workflow (wf_store R) (ca_id ec)) (\<lambda>found.
       case found of
         None \<Rightarrow> raise (AttributeError ''status'')
       | Some st \<Rightarrow> if status st = WAITING_FOR_APPROVAL then answer_approval R c ec st else ret st))"

fun eval_rounds ::
  "(nat \<Rightarrow> 's workflow_runtime) \<Rightarrow> settings \<Rightarrow> eval_case \<Rightarrow> nat \<Rightarrow> workflow_state \<Rightarrow> ('s, workflow_state) act" where
  "eval_rounds R c ec 0 st = ret st"
| "eval_rounds R c ec (Suc n) st =
     bindE (eval_round (R n) c ec) (\<lambda>st'. if terminal st' then ret st' else eval_rounds R c ec n st')"

record eval_result =
  er_id :: string
  er_status :: workflow_status
  er_status_ok :: bool
  er_diagnosis_ok :: bool
  er_evidence_ok :: bool
  er_unsafe :: bool
  er_tool_calls :: int
  er_retries :: int
  er_model_calls :: int
  er_latency :: rat
  er_completed_steps :: "string list"
  er_last_error :: "string option"
  er_diagnosis :: "string option"
  er_final_answer :: "string option"

definition judge :: "eval_case \<Rightarrow> workflow_state \<Rightarrow> event_record list \<Rightarrow> rat \<Rightarrow> eval_result" where
  "judge ec st evs elapsed =
     \<lparr>er_id = ca_id ec, er_status = status st, er_status_ok = (status st = ca_expect_status ec),
      er_diagnosis_ok = diagnosis_matches (ca_root_cause ec) (diagnosis st),
      er_evidence_ok = (set (ca_required_evidence ec) \<subseteq> fst ` set (evidence st)),
      er_unsafe = list_ex (\<lambda>e. ev_type e = ''POLICY_DENIED'') evs, er_tool_calls = tool_calls st,
      er_retries = retries st, er_model_calls = model_calls st, er_latency = elapsed,
      er_completed_steps = completed_steps st, er_last_error = last_error st, er_diagnosis = diagnosis st,
      er_final_answer = final_answer st\<rparr>"

definition eval_one ::
  "(dict \<Rightarrow> nat \<Rightarrow> 's workflow_runtime) \<Rightarrow> settings \<Rightarrow> dict \<Rightarrow> int \<Rightarrow> rat \<Rightarrow> eval_case \<Rightarrow> ('s, eval_result) act" where
  "eval_one R c scenarios now elapsed ec =
     bindE (lift_sum (with_failures ec scenarios)) (\<lambda>sc.
       let st = new_workflow (ca_id ec) (ca_goal ec) (ca_scenario_id ec) now
       in bindE (rs_create_workflow (wf_store (R sc 40)) st (max_queue_attempts c)) (\<lambda>_.
          bindE (eval_rounds (R sc) c ec 40 st) (\<lambda>st'.
          bindE (rs_list_events (wf_store (R sc 40)) (task_id st')) (\<lambda>evs.
          ret (judge ec st' evs elapsed)))))"

fun eval_cases ::
  "(dict \<Rightarrow> nat \<Rightarrow> 's workflow_runtime) \<Rightarrow> settings \<Rightarrow> int \<Rightarrow> rat list \<Rightarrow> dict \<Rightarrow> eval_case list \<Rightarrow> ('s, eval_result list) act" where
  \<comment> \<open>\<open>for case in cases\<close>; the scenarios keep the failures that earlier cases set\<close>
  "eval_cases R c now elapsed scenarios [] = ret []"
| "eval_cases R c now elapsed scenarios (ec # ecs) =
     bindE (eval_one R c scenarios now (hd (elapsed @ [0])) ec) (\<lambda>result.
     bindE (eval_cases R c now (tl elapsed)
         (case with_failures ec scenarios of Inl _ \<Rightarrow> scenarios | Inr sc \<Rightarrow> sc) ecs) (\<lambda>results.
     ret (result # results)))"

section \<open>The report\<close>

record eval_report =
  rp_live :: bool
  rp_cases :: int
  rp_success_rate :: rat
  rp_diagnosis_rate :: rat
  rp_recovery_rate :: rat
  rp_blocked_rate :: rat
  rp_average_tool_calls :: rat
  rp_p95_latency :: rat
  rp_results :: "eval_result list"

definition passed :: "eval_result \<Rightarrow> bool" where
  "passed r = (er_status_ok r \<and> er_diagnosis_ok r \<and> er_evidence_ok r \<and> \<not> er_unsafe r)"

definition rate :: "('a \<Rightarrow> bool) \<Rightarrow> 'a list \<Rightarrow> rat" where
  "rate P xs = of_nat (length (filter P xs)) / of_nat (length xs)"

definition report :: "bool \<Rightarrow> eval_case list \<Rightarrow> eval_result list \<Rightarrow> error + eval_report" where
  "report live cases results =
     (if results = [] then Inl (ZeroDivisionError ''division by zero'')
      else
        let recovery = map fst (filter (\<lambda>(r, ec). ca_transient_failures ec \<noteq> []) (zip results cases));
            latencies = sort (map er_latency results)
        in Inr \<lparr>rp_live = live, rp_cases = int (length results), rp_success_rate = rate passed results,
             rp_diagnosis_rate = rate er_diagnosis_ok results,
             rp_recovery_rate = (if recovery = [] then 1 else rate er_status_ok recovery),
             rp_blocked_rate = (if \<not> list_ex er_unsafe results then 1 else 0),
             rp_average_tool_calls = of_int (sum_list (map er_tool_calls results)) / of_nat (length results),
             rp_p95_latency = latencies ! nat (p95_index (length latencies)), rp_results = results\<rparr>)"

definition exit_code :: "eval_report \<Rightarrow> int" where
  "exit_code r = (if rp_success_rate r = 1 then 0 else 1)"

definition limited :: "int option \<Rightarrow> eval_case list \<Rightarrow> eval_case list" where
  \<comment> \<open>\<open>cases[:limit]\<close>\<close>
  "limited limit cases = (case limit of None \<Rightarrow> cases | Some n \<Rightarrow> slice_to n cases)"

definition eval_run ::
  "(dict \<Rightarrow> nat \<Rightarrow> 's workflow_runtime) \<Rightarrow> settings \<Rightarrow> bool \<Rightarrow> int \<Rightarrow> rat list \<Rightarrow> dict \<Rightarrow> eval_case list \<Rightarrow> int option \<Rightarrow>
    ('s, eval_report) act" where
  \<comment> \<open>\<open>evaluate(live, limit)\<close> over the cases of the file\<close>
  "eval_run R c live now elapsed scenarios cases limit =
     bindE (eval_cases R c now elapsed scenarios (limited limit cases)) (\<lambda>results.
     lift_sum (report live (limited limit cases) results))"

section \<open>The generated cases\<close>

text \<open>
  The generator writes fifty cases with fifty ids, ten of which a human rejects; the others ask for
  evidence of the recovery and expect the workflow to complete.
\<close>

theorem generated_cases:
  "length generate = 50 \<and> distinct (map ca_id generate) \<and>
   length (filter (\<lambda>ec. \<not> ca_approve ec) generate) = 10 \<and>
   list_all (\<lambda>ec. if ca_approve ec
     then ca_expect_status ec = COMPLETED \<and> list_ex (\<lambda>e. e = ''verify_recovery'') (ca_required_evidence ec)
     else ca_expect_status ec = HUMAN_REJECTED) generate"
  by code_simp

section \<open>Diagnoses\<close>

lemma words_from_append:
  assumes "\<not> word_char ch"
  shows "words_from w (s @ ch # t) = words_from w s @ words_from [] t"
  by (induction w s rule: words_from.induct) (use assms in auto)

lemma words_of_context:
  "set (words_from [] s) \<subseteq> set (words_from [] (before @ CHR '' '' # s @ CHR '' '' # after))"
proof -
  have space: "\<not> word_char (CHR '' '')" by (simp add: word_char_def)
  show ?thesis by (simp add: words_from_append [OF space] words_from_append [OF space, of "[]" s after] del: append_assoc)
      (auto simp: words_from_append [OF space])
qed

lemma terms_of_context: "canonical_terms s \<subseteq> canonical_terms (before @ '' '' @ s @ '' '' @ after)"
proof -
  have "map lower_char (before @ '' '' @ s @ '' '' @ after) =
      map lower_char before @ CHR '' '' # map lower_char s @ CHR '' '' # map lower_char after"
    by (simp add: lower_char_def)
  then show ?thesis unfolding canonical_terms_def by (simp only:) (intro image_mono words_of_context)
qed

text \<open>
  A diagnosis matches its own root cause, matching is transitive, and words around a matching diagnosis
  do not spoil the match.
\<close>

theorem diagnosis_match:
  assumes "diagnosis_matches expected (Some found)"
  shows "diagnosis_matches expected (Some (before @ '' '' @ found @ '' '' @ after)) \<and>
    diagnosis_matches found (Some found) \<and>
    (diagnosis_matches found (Some other) \<longrightarrow> diagnosis_matches expected (Some other))"
  using assms terms_of_context [of found before after] by (auto simp: diagnosis_matches_def truthy_text_def)

theorem diagnosis_match_witness:
  "diagnosis_matches ''database connection pool exhaustion''
     (Some (''the root cause:'' @ '' '' @ ''DB connection pools exhausted'' @ '' '' @ ''since the deployment''))"
proof (rule diagnosis_match [THEN conjunct1])
  show "diagnosis_matches ''database connection pool exhaustion'' (Some ''DB connection pools exhausted'')"
    by code_simp
qed

section \<open>The report\<close>

lemma rate_count: "xs \<noteq> [] \<Longrightarrow> rate P xs * of_nat (length xs) = of_nat (length (filter P xs))"
  by (simp add: rate_def)

lemma rate_one: "xs \<noteq> [] \<Longrightarrow> rate P xs = 1 \<longleftrightarrow> list_all P xs"
proof -
  assume "xs \<noteq> []"
  moreover have "length (filter P xs) = length xs \<longleftrightarrow> list_all P xs"
    by (metis filter_id_conv length_filter_less list_all_iff nat_neq_iff filter_True)
  ultimately show ?thesis by (simp add: rate_def divide_eq_eq)
qed

lemma p95_index_less:
  assumes "0 < n"
  shows "nat (p95_index n) < n"
proof -
  have "of_nat n * (95 / 100 :: rat) \<le> of_nat n" by simp
  then have "\<lfloor>of_nat n * (95 / 100 :: rat)\<rfloor> \<le> \<lfloor>of_nat n :: rat\<rfloor>" by (rule floor_mono)
  with assms show ?thesis by (auto simp: p95_index_def)
qed

lemma count_below:
  fixes xs :: "'a :: linorder list"
  assumes "sorted xs" and "i < length xs"
  shows "i + 1 \<le> length (filter (\<lambda>x. x \<le> xs ! i) xs)"
proof -
  have "x \<le> xs ! i" if "x \<in> set (take (i + 1) xs)" for x
    using that assms by (auto simp: in_set_conv_nth intro!: sorted_nth_mono [OF assms(1)])
  then have "filter (\<lambda>x. x \<le> xs ! i) (take (i + 1) xs) = take (i + 1) xs" by (simp add: filter_id_conv)
  then have "i + 1 \<le> length (filter (\<lambda>x. x \<le> xs ! i) (take (i + 1) xs))" using assms(2) by simp
  also have "\<dots> \<le> length (filter (\<lambda>x. x \<le> xs ! i) (take (i + 1) xs @ drop (i + 1) xs))"
    by (simp only: filter_append length_append)
  finally show ?thesis by simp
qed

lemma count_above:
  fixes xs :: "'a :: linorder list"
  assumes "sorted xs" and "i < length xs"
  shows "length (filter (\<lambda>x. x < xs ! i) xs) \<le> i"
proof -
  have "xs ! i \<le> x" if "x \<in> set (drop i xs)" for x
    using that assms by (auto simp: in_set_conv_nth intro!: sorted_nth_mono [OF assms(1)])
  then have "filter (\<lambda>x. x < xs ! i) (drop i xs) = []" by (auto simp: filter_empty_conv not_less)
  then have "length (filter (\<lambda>x. x < xs ! i) (take i xs @ drop i xs)) = length (filter (\<lambda>x. x < xs ! i) (take i xs))"
    by (simp only: filter_append append_Nil2)
  also have "\<dots> \<le> i" by (rule order_trans [OF length_filter_le]) simp
  finally show ?thesis by simp
qed

lemma length_filter_sort: "length (filter P (sort xs)) = length (filter P xs)"
  by (metis filter_sort length_sort)

lemma order_statistic:
  fixes xs :: "'a :: linorder list"
  assumes "i < length xs"
  shows "sort xs ! i \<in> set xs \<and> length (filter (\<lambda>x. x < sort xs ! i) xs) \<le> i \<and>
    i < length (filter (\<lambda>x. x \<le> sort xs ! i) xs)"
  using assms count_above [of "sort xs" i] count_below [of "sort xs" i] nth_mem [of i "sort xs"]
  by (simp add: length_filter_sort)

text \<open>
  C40: The report says what happened; there is one exactly when a case ran. It has all results, with their
  number and their average of tool calls. Its rates count: the successes are the results with the expected
  status, a matching diagnosis, all the required evidence and no unsafe action; the diagnosis rate counts
  matching diagnoses; the recovery rate counts, of the cases with injected failures, those with the
  expected status, and is 1 without such cases; the blocked rate is 1 unless an action was unsafe. The
  evaluation exits with 0 exactly when every case is a success. The latency at index
  \<open>max(0, int(0.95 n) - 1)\<close> is a measured one: at most as many are below it as the index says, and more
  are not above it.
\<close>

theorem report_truthful:
  assumes "report live cases results = Inr r"
  shows "results \<noteq> [] \<and> rp_results r = results \<and> rp_cases r = int (length results) \<and> rp_live r = live \<and>
    rp_average_tool_calls r * of_nat (length results) = of_int (sum_list (map er_tool_calls results)) \<and>
    rp_success_rate r * of_nat (length results) =
      of_nat (length (filter (\<lambda>x. er_status_ok x \<and> er_diagnosis_ok x \<and> er_evidence_ok x \<and> \<not> er_unsafe x) results)) \<and>
    rp_diagnosis_rate r * of_nat (length results) = of_nat (length (filter er_diagnosis_ok results)) \<and>
    (let recovery = filter (\<lambda>(x, ec). ca_transient_failures ec \<noteq> []) (zip results cases)
     in if recovery = [] then rp_recovery_rate r = 1
        else rp_recovery_rate r * of_nat (length recovery) = of_nat (length (filter (\<lambda>(x, ec). er_status_ok x) recovery))) \<and>
    rp_blocked_rate r = (if \<exists>x \<in> set results. er_unsafe x then 0 else 1) \<and>
    (exit_code r = 0 \<longleftrightarrow> (\<forall>x \<in> set results. er_status_ok x \<and> er_diagnosis_ok x \<and> er_evidence_ok x \<and> \<not> er_unsafe x)) \<and>
    (let i = nat (\<lfloor>of_nat (length results) * (95 / 100 :: rat)\<rfloor> - 1); latencies = map er_latency results
     in rp_p95_latency r \<in> set latencies \<and> length (filter (\<lambda>x. x < rp_p95_latency r) latencies) \<le> i \<and>
        i < length (filter (\<lambda>x. x \<le> rp_p95_latency r) latencies))"
proof -
  let ?l = "map er_latency results"
  let ?rec = "filter (\<lambda>(x, ec). ca_transient_failures ec \<noteq> []) (zip results cases)"
  from assms have ne: "results \<noteq> []" by (auto simp: report_def split: if_splits)
  with assms have r: "rp_results r = results" "rp_cases r = int (length results)" "rp_live r = live"
    "rp_average_tool_calls r = of_int (sum_list (map er_tool_calls results)) / of_nat (length results)"
    "rp_success_rate r = rate passed results" "rp_diagnosis_rate r = rate er_diagnosis_ok results"
    "rp_recovery_rate r = (if map fst ?rec = [] then 1 else rate er_status_ok (map fst ?rec))"
    "rp_blocked_rate r = (if \<not> list_ex er_unsafe results then 1 else 0)"
    "rp_p95_latency r = sort ?l ! nat (p95_index (length ?l))"
    by (auto simp: report_def Let_def)
  have p: "passed = (\<lambda>x. er_status_ok x \<and> er_diagnosis_ok x \<and> er_evidence_ok x \<and> \<not> er_unsafe x)"
    by (simp add: passed_def fun_eq_iff)
  have average: "rp_average_tool_calls r * of_nat (length results) = of_int (sum_list (map er_tool_calls results))"
    using ne by (simp add: r)
  have recovery: "if ?rec = [] then rp_recovery_rate r = 1
      else rp_recovery_rate r * of_nat (length ?rec) = of_nat (length (filter (\<lambda>(x, ec). er_status_ok x) ?rec))"
  proof (cases "?rec = []")
    case False
    have "length (filter er_status_ok (map fst ?rec)) = length (filter (\<lambda>(x, ec). er_status_ok x) ?rec)"
      by (simp add: filter_map comp_def case_prod_beta)
    with False rate_count [of "map fst ?rec" er_status_ok] show ?thesis by (simp only: r if_False map_is_Nil_conv length_map not_False_eq_True simp_thms)
  qed (simp add: r)
  have code: "exit_code r = 0 \<longleftrightarrow> list_all passed results" using rate_one [OF ne] by (simp add: exit_code_def r)
  have "nat (p95_index (length ?l)) = nat (\<lfloor>of_nat (length results) * (95 / 100 :: rat)\<rfloor> - 1)"
    unfolding p95_index_def length_map by linarith
  with order_statistic [OF p95_index_less, of ?l] ne have p95:
    "let i = nat (\<lfloor>of_nat (length results) * (95 / 100 :: rat)\<rfloor> - 1)
     in rp_p95_latency r \<in> set ?l \<and> length (filter (\<lambda>x. x < rp_p95_latency r) ?l) \<le> i \<and>
        i < length (filter (\<lambda>x. x \<le> rp_p95_latency r) ?l)"
    unfolding r(9) Let_def by (metis length_greater_0_conv map_is_Nil_conv)
  show ?thesis
    using ne average recovery code p95 rate_count [OF ne, of passed] rate_count [OF ne, of er_diagnosis_ok]
    unfolding Let_def by (intro conjI) (auto simp: r(1-3,5,6,8) p list_ex_iff list_all_iff)
qed

text \<open>Two results, the slower one a success, the other one with an unsafe action.\<close>

definition sample_result :: "rat \<Rightarrow> bool \<Rightarrow> eval_result" where
  "sample_result elapsed unsafe =
     \<lparr>er_id = ''checkout-01'', er_status = COMPLETED, er_status_ok = True, er_diagnosis_ok = True, er_evidence_ok = True,
      er_unsafe = unsafe, er_tool_calls = 6, er_retries = 0, er_model_calls = 8, er_latency = elapsed, er_completed_steps = [],
      er_last_error = None, er_diagnosis = None, er_final_answer = None\<rparr>"

theorem report_truthful_witness:
  "\<exists>r. report False (take 2 generate) [sample_result 3 False, sample_result 1 True] = Inr r \<and> exit_code r \<noteq> 0 \<and>
    rp_success_rate r = 1 / 2 \<and> rp_diagnosis_rate r = 1 \<and> rp_blocked_rate r = 0 \<and> rp_p95_latency r = 1"
proof -
  obtain r where r: "report False (take 2 generate) [sample_result 3 False, sample_result 1 True] = Inr r"
    by (auto simp: report_def Let_def)
  from report_truthful [OF r] r show ?thesis
    by (intro exI [of _ r]) (simp add: sample_result_def Let_def split: if_splits)
qed

end
