(* ===== verification/Release_Scripts.thy ===== *)
theory Release_Scripts
  imports Api
begin

text \<open>
  \<open>scripts/verify_milestone4.py\<close>, the acceptance test that kills a worker and checks that the incident is still
  carried through, and \<open>scripts/publish_aws_secrets.py\<close>, which reads secrets from an environment file. The
  HTTP and AWS calls are parameters; the API answers with workflows and events. A wait polls at most as often
  as the argument \<open>n\<close> says, the number of polls that fit before the deadline. Of the texts of errors the fixed
  part is kept.
\<close>

section \<open>Waiting\<close>

definition ended_badly :: "workflow_state \<Rightarrow> bool" where
  "ended_badly st = (status st \<in> {FAILED, DEAD_LETTERED, LOOP_STOPPED, HUMAN_REJECTED})"

fun wait_for_state ::
  "('s, workflow_state) act \<Rightarrow> (workflow_state \<Rightarrow> bool) \<Rightarrow> string \<Rightarrow> nat \<Rightarrow> ('s, workflow_state) act" where
  "wait_for_state poll P description 0 = raise (TimeoutError (''timed out waiting for '' @ description))"
| "wait_for_state poll P description (Suc n) =
     bindE poll (\<lambda>st.
       if P st then ret st
       else if ended_badly st
       then raise (RuntimeError (''workflow became '' @ status_value (status st) @ '' while waiting for '' @ description))
       else wait_for_state poll P description n)"

fun wait_for_replacement :: "('s, string list) act \<Rightarrow> string \<Rightarrow> nat \<Rightarrow> ('s, string) act" where
  "wait_for_replacement running stopped 0 = raise (TimeoutError ''ECS did not start a replacement worker task'')"
| "wait_for_replacement running stopped (Suc n) =
     bindE running (\<lambda>candidates.
       case find (\<lambda>t. t \<noteq> stopped) candidates of
         Some t \<Rightarrow> ret t
       | None \<Rightarrow> wait_for_replacement running stopped n)"

section \<open>The acceptance test\<close>

definition expected_steps :: "string list" where
  "expected_steps =
     [''read_alert'', ''inspect_metrics'', ''query_logs'', ''dependency_health'', ''restart_service'', ''verify_recovery'']"

definition ecs_task_id :: "string \<Rightarrow> string" where
  \<comment> \<open>\<open>task_arn.rsplit("/", 1)[-1]\<close>\<close>
  "ecs_task_id arn = rev (takeWhile (\<lambda>ch. ch \<noteq> CHR ''/'') (rev arn))"

record 's deployment_calls =
  dc_identity :: "('s, string option) act"
  dc_create :: "string \<Rightarrow> string \<Rightarrow> ('s, workflow_state) act"
  dc_incident :: "string \<Rightarrow> ('s, workflow_state) act"
  dc_events :: "string \<Rightarrow> ('s, event_record list) act"
  dc_approve :: "string \<Rightarrow> string \<Rightarrow> string \<Rightarrow> ('s, unit) act"
  dc_running :: "('s, string list) act"
  dc_stop :: "string \<Rightarrow> string \<Rightarrow> ('s, unit) act"

record proof_report =
  pr_incident_id :: string
  pr_stopped_task :: string
  pr_replacement_task :: string
  pr_checkpoint :: "string list"
  pr_resumed_step :: string
  pr_final_status :: workflow_status
  pr_completed_steps :: "string list"
  pr_restarts :: nat
  pr_model_calls :: int
  pr_tool_calls :: int
  pr_retries :: int
  pr_identity_verified :: bool

definition in_chaos_window :: "workflow_state \<Rightarrow> bool" where
  "in_chaos_window st = (length (completed_steps st) = 3 \<and> current_step st \<noteq> None)"

definition completed_tools :: "event_record list \<Rightarrow> json list" where
  "completed_tools evs =
     map (\<lambda>e. case map_of (ev_payload e) ''tool'' of None \<Rightarrow> JNull | Some j \<Rightarrow> j)
       (filter (\<lambda>e. ev_type e = ''TOOL_COMPLETED'') evs)"

definition restart_completions :: "event_record list \<Rightarrow> nat" where
  "restart_completions evs = length (filter (\<lambda>j. j = JStr ''restart_service'') (completed_tools evs))"

definition check_proof ::
  "workflow_state \<Rightarrow> workflow_state \<Rightarrow> workflow_state \<Rightarrow> event_record list \<Rightarrow> error + unit" where
  "check_proof paused resumed completed evs =
     (if length (completed_steps completed) \<noteq> length expected_steps \<or>
         set (completed_steps completed) \<noteq> set expected_steps
      then Inl (RuntimeError ''unexpected completed step sequence'')
      else if restart_completions evs \<noteq> 1
      then Inl (RuntimeError ''idempotency proof failed: restart_service did not complete exactly once'')
      else if \<not> list_ex (\<lambda>e. ev_type e = ''APPROVAL_GRANTED'') evs
      then Inl (RuntimeError ''approval audit event is missing'')
      else if take 4 (completed_steps resumed) \<noteq> completed_steps paused @ [the (current_step paused)] \<or>
         tool_calls paused \<noteq> 3
      then Inl (RuntimeError ''workflow did not resume from the last known good checkpoint'')
      else Inr ())"

definition run_proof ::
  "'s deployment_calls \<Rightarrow> string option \<Rightarrow> string \<Rightarrow> string \<Rightarrow> nat \<Rightarrow> ('s, proof_report) act" where
  \<comment> \<open>\<open>verify\<close>\<close>
  "run_proof D token aim actor n =
     (if \<not> truthy_text token
      then raise (RuntimeError ''ADMIN_API_TOKEN must be available in the environment or ignored .env.local'')
      else
        bindE (dc_identity D) (\<lambda>account.
        bindE (dc_create D aim ''checkout-pool-exhaustion'') (\<lambda>created.
        let incident = task_id created; poll = dc_incident D incident
        in bindE (wait_for_state poll in_chaos_window ''the deterministic step-four chaos window'' n) (\<lambda>paused.
        let steps = completed_steps paused; step = the (current_step paused)
        in bindE (dc_running D) (\<lambda>running.
        if length running \<noteq> 1
        then raise (RuntimeError ''recovery proof requires exactly one running worker before termination'')
        else let stopped = hd running
        in bindE (dc_stop D stopped (''AgentResilience recovery proof '' @ incident)) (\<lambda>_.
        bindE (wait_for_state poll (\<lambda>st. take 4 (completed_steps st) = steps @ [step])
            ''replacement worker to resume from step four'' n) (\<lambda>resumed.
        bindE (wait_for_replacement (dc_running D) stopped n) (\<lambda>replacement.
        bindE (wait_for_state poll (\<lambda>st. status st = WAITING_FOR_APPROVAL) ''production restart approval'' n) (\<lambda>_.
        bindE (dc_approve D incident actor
            ''Milestone 4 evidence-backed controlled recovery demonstration'') (\<lambda>_.
        bindE (wait_for_state poll (\<lambda>st. status st = COMPLETED) ''approved restart and recovery verification'' n)
          (\<lambda>completed.
        bindE (dc_events D incident) (\<lambda>evs.
        bindE (lift_sum (check_proof paused resumed completed evs)) (\<lambda>_.
        ret \<lparr>pr_incident_id = incident, pr_stopped_task = ecs_task_id stopped,
             pr_replacement_task = ecs_task_id replacement, pr_checkpoint = steps, pr_resumed_step = step,
             pr_final_status = status completed, pr_completed_steps = completed_steps completed,
             pr_restarts = restart_completions evs, pr_model_calls = model_calls completed,
             pr_tool_calls = tool_calls completed, pr_retries = retries completed,
             pr_identity_verified = truthy_text account\<rparr>)))))))))))))"

section \<open>Over HTTP\<close>

record http_request =
  hr_url :: string
  hr_method :: string
  hr_headers :: "(string \<times> string) list"
  hr_body :: "string option"

datatype http_response = Json_Response json | Http_Failure int string

definition request_json ::
  "platform \<Rightarrow> (http_request \<Rightarrow> ('s, http_response) act) \<Rightarrow> string \<Rightarrow> string \<Rightarrow> string \<Rightarrow> dict option \<Rightarrow> ('s, json) act" where
  "request_json pf send url token method body =
     bindE (send \<lparr>hr_url = url, hr_method = method,
         hr_headers = [(''Authorization'', ''Bearer '' @ token), (''Content-Type'', ''application/json'')],
         hr_body = map_option (\<lambda>d. dumps pf '', '' '': '' False (JObj d)) body\<rparr>) (\<lambda>response.
       case response of
         Json_Response j \<Rightarrow> ret j
       | Http_Failure code detail \<Rightarrow>
           raise (RuntimeError (method @ '' '' @ url @ '' failed with HTTP '' @ str_int code @ '': '' @ slice_to 1000 detail)))"

definition incidents_url :: "string \<Rightarrow> string" where
  \<comment> \<open>\<open>args.api_url.rstrip("/")\<close> and the path\<close>
  "incidents_url api_url = rev (dropWhile (\<lambda>ch. ch = CHR ''/'') (rev api_url)) @ ''/v1/incidents''"

definition over_http ::
  "platform \<Rightarrow> (http_request \<Rightarrow> ('s, http_response) act) \<Rightarrow> string \<Rightarrow> string \<Rightarrow>
    (json \<Rightarrow> error + workflow_state) \<Rightarrow> (json \<Rightarrow> error + event_record list) \<Rightarrow> 's deployment_calls \<Rightarrow>
    's deployment_calls" where
  \<comment> \<open>the calls of the API as requests; \<open>decode\<close> reads the fields that the test looks at\<close>
  "over_http pf send token api_url decode decode_events D =
     (let url = incidents_url api_url; ask = (\<lambda>path. request_json pf send (url @ path) token)
      in D\<lparr>dc_create := (\<lambda>aim scenario. bindE (ask [] ''POST'' (Some [(''goal'', JStr aim), (''scenario_id'', JStr scenario)]))
              (\<lambda>j. lift_sum (decode j))),
           dc_incident := (\<lambda>t. bindE (ask (''/'' @ t) ''GET'' None) (\<lambda>j. lift_sum (decode j))),
           dc_events := (\<lambda>t. bindE (ask (''/'' @ t @ ''/events'') ''GET'' None) (\<lambda>j. lift_sum (decode_events j))),
           dc_approve := (\<lambda>t actor why. bindE (ask (''/'' @ t @ ''/approve'') ''POST''
              (Some [(''actor'', JStr actor), (''reason'', JStr why)])) (\<lambda>_. ret ()))\<rparr>)"

record acceptance_arguments =
  aa_api_url :: string
  aa_cluster :: string
  aa_worker_service :: string
  aa_region :: string
  aa_timeout :: rat
  aa_actor :: string
  aa_goal :: string
  aa_output :: string

definition acceptance_defaults :: "string \<Rightarrow> string \<Rightarrow> string \<Rightarrow> string option \<Rightarrow> acceptance_arguments" where
  \<comment> \<open>the arguments when only the required ones are given, with \<open>AWS_REGION\<close>\<close>
  "acceptance_defaults api_url cluster service region =
     \<lparr>aa_api_url = api_url, aa_cluster = cluster, aa_worker_service = service,
      aa_region = (case region of None \<Rightarrow> ''us-east-1'' | Some r \<Rightarrow> r), aa_timeout = 600,
      aa_actor = ''milestone4-verifier'',
      aa_goal = ''Investigate why checkout-service has elevated production errors and safely restore service.'',
      aa_output = ''evidence/milestone4/latest.json''\<rparr>"

definition acceptance_main ::
  "'s deployment_calls \<Rightarrow> string option \<Rightarrow> acceptance_arguments \<Rightarrow> nat \<Rightarrow> ('s, int) act" where
  \<comment> \<open>the exit status; an exception of the test leaves the process\<close>
  "acceptance_main D token args n = bindE (run_proof D token (aa_goal args) (aa_actor args) n) (\<lambda>_. ret 0)"

text \<open>What the script sends are requests that the API accepts: its bearer token and the bounds of its models.\<close>

lemma request_authorised:
  assumes "admin_api_token c = Some token" and "ascii token" and "token \<noteq> []"
  shows "request_json pf send url token method body =
    request_json pf (\<lambda>r. if require_admin c (map_of (hr_headers r) ''Authorization'') = Inr () then send r else refused)
      url token method body"
  using assms by (simp add: request_json_def require_admin_def compare_digest_def bearer_def ascii_def truthy_text_def)

lemma acceptance_requests_valid:
  "valid_create_incident \<lparr>ci_goal = aa_goal (acceptance_defaults u cl sv r), ci_scenario_id = ''checkout-pool-exhaustion''\<rparr>"
  "valid_approval_request \<lparr>ap_actor = aa_actor (acceptance_defaults u cl sv r),
     ap_reason = Some ''Milestone 4 evidence-backed controlled recovery demonstration''\<rparr>"
  unfolding acceptance_defaults_def acceptance_arguments.simps by code_simp+

section \<open>Secrets\<close>

definition white :: "char \<Rightarrow> bool" where
  \<comment> \<open>the characters \<open>str.strip()\<close> removes\<close>
  "white ch = (let n = of_char ch :: nat in 9 \<le> n \<and> n \<le> 13 \<or> 28 \<le> n \<and> n \<le> 32 \<or> n = 133 \<or> n = 160)"

definition strip_where :: "(char \<Rightarrow> bool) \<Rightarrow> string \<Rightarrow> string" where
  "strip_where P s = rev (dropWhile P (rev (dropWhile P s)))"

definition env_value :: "string \<Rightarrow> string" where
  \<comment> \<open>\<open>value.strip().strip('"').strip("'")\<close>\<close>
  "env_value v =
     strip_where (\<lambda>ch. ch = CHR 0x27) (strip_where (\<lambda>ch. ch = CHR 0x22) (strip_where white v))"

fun read_env_value :: "string list \<Rightarrow> string \<Rightarrow> string \<Rightarrow> error + string" where
  "read_env_value [] name path = Inl (ValueError (name @ '' is missing from '' @ path))"
| "read_env_value (raw # lines) name path =
     (let line = strip_where white raw
      in if line = [] \<or> hd line = CHR ''#'' \<or> CHR ''='' \<notin> set line then read_env_value lines name path
         else
           let key = takeWhile (\<lambda>ch. ch \<noteq> CHR ''='') line; v = tl (dropWhile (\<lambda>ch. ch \<noteq> CHR ''='') line);
               result = env_value v
           in if strip_where white key = name \<and> result \<noteq> [] then Inr result
              else read_env_value lines name path)"

definition publish_secrets ::
  "(string \<Rightarrow> string \<Rightarrow> ('s, unit) act) \<Rightarrow> string list \<Rightarrow> string \<Rightarrow> string \<Rightarrow> string \<Rightarrow> string \<Rightarrow> ('s, unit) act" where
  \<comment> \<open>\<open>main\<close>, over the lines of the environment file\<close>
  "publish_secrets put lines path openai admin viewer =
     bindE (lift_sum (read_env_value lines ''OPENAI_API_KEY'' path)) (\<lambda>v.
     bindE (put openai v) (\<lambda>_.
     bindE (lift_sum (read_env_value lines ''ADMIN_API_TOKEN'' path)) (\<lambda>v.
     bindE (put admin v) (\<lambda>_.
     bindE (lift_sum (read_env_value lines ''VIEWER_API_TOKEN'' path)) (\<lambda>v.
     put viewer v)))))"

section \<open>What the scripts promise\<close>

lemma wait_returns:
  "wait_for_state poll P what n s = (Inr st, s') \<Longrightarrow> P st \<and> (\<exists>s1. poll s1 = (Inr st, s'))"
  by (induction n arbitrary: s) (auto simp: raise_def bindE_eq_Inr ret_def split: if_splits)

lemma wait_replacement_returns:
  "wait_for_replacement running stopped n s = (Inr t, s') \<Longrightarrow> t \<noteq> stopped"
  by (induction n arbitrary: s) (auto simp: raise_def bindE_eq_Inr ret_def find_Some_iff split: option.splits)

text \<open>
  C39: A report of the acceptance test is a proof of what it claims: the incident completed with the six
  expected steps, its last events hold exactly one completed restart and a granted approval, three steps were
  done when the worker was stopped, and the work went on with the interrupted step on a task that is another
  one than the stopped task.
\<close>

theorem acceptance_proves:
  assumes "run_proof D token aim actor n s = (Inr r, s')"
  shows "pr_final_status r = COMPLETED \<and> set (pr_completed_steps r) = set expected_steps \<and>
    length (pr_completed_steps r) = 6 \<and> pr_restarts r = 1 \<and> length (pr_checkpoint r) = 3 \<and>
    (\<exists>evs s1. dc_events D (pr_incident_id r) s1 = (Inr evs, s') \<and> restart_completions evs = 1 \<and>
       list_ex (\<lambda>e. ev_type e = ''APPROVAL_GRANTED'') evs) \<and>
    (\<exists>st s1 s2. dc_incident D (pr_incident_id r) s1 = (Inr st, s2) \<and>
       take 4 (completed_steps st) = pr_checkpoint r @ [pr_resumed_step r]) \<and>
    (\<exists>stopped replacement. pr_stopped_task r = ecs_task_id stopped \<and> pr_replacement_task r = ecs_task_id replacement \<and>
       stopped \<noteq> replacement)"
proof -
  obtain account and created :: workflow_state and paused running resumed replacement completed evs s1 s2 s3 s4 s5 s6 s7 s8 s9 where
    paused: "wait_for_state (dc_incident D (task_id created)) in_chaos_window
        ''the deterministic step-four chaos window'' n s1 = (Inr paused, s2)"
    and resumed: "wait_for_state (dc_incident D (task_id created))
        (\<lambda>st. take 4 (completed_steps st) = completed_steps paused @ [the (current_step paused)])
        ''replacement worker to resume from step four'' n s3 = (Inr resumed, s4)"
    and replacement: "wait_for_replacement (dc_running D) (hd running) n s5 = (Inr replacement, s6)"
    and completed: "wait_for_state (dc_incident D (task_id created)) (\<lambda>st. status st = COMPLETED)
        ''approved restart and recovery verification'' n s7 = (Inr completed, s8)"
    and evs: "dc_events D (task_id created) s9 = (Inr evs, s')"
    and check: "check_proof paused resumed completed evs = Inr ()"
    and r: "r = \<lparr>pr_incident_id = task_id created, pr_stopped_task = ecs_task_id (hd running),
        pr_replacement_task = ecs_task_id replacement, pr_checkpoint = completed_steps paused,
        pr_resumed_step = the (current_step paused), pr_final_status = status completed,
        pr_completed_steps = completed_steps completed, pr_restarts = restart_completions evs,
        pr_model_calls = model_calls completed, pr_tool_calls = tool_calls completed, pr_retries = retries completed,
        pr_identity_verified = truthy_text account\<rparr>"
    using assms unfolding run_proof_def Let_def
    by (simp add: bindE_eq_Inr ret_def raise_def lift_sum_def split: if_splits)
       (elim exE conjE, rule that, assumption, assumption, assumption, assumption, assumption, assumption, rule sym)
  from check have "set (completed_steps completed) = set expected_steps" "length (completed_steps completed) = 6"
    "restart_completions evs = 1" "list_ex (\<lambda>e. ev_type e = ''APPROVAL_GRANTED'') evs"
    by (auto simp: check_proof_def expected_steps_def split: if_splits)
  moreover have "in_chaos_window paused" using wait_returns [OF paused] by blast
  moreover have "status completed = COMPLETED" using wait_returns [OF completed] by blast
  moreover have "replacement \<noteq> hd running" using wait_replacement_returns [OF replacement] .
  moreover obtain s7 where "dc_incident D (task_id created) s7 = (Inr resumed, s4)"
    "take 4 (completed_steps resumed) = completed_steps paused @ [the (current_step paused)]"
    using wait_returns [OF resumed] by blast
  ultimately show ?thesis using evs by (auto simp: r in_chaos_window_def)
qed

text \<open>A deployment in which everything goes as planned: the successive answers of the API and of ECS.\<close>

type_synonym script = "workflow_state list \<times> string list list"

definition step_state :: "string list \<Rightarrow> string option \<Rightarrow> workflow_status \<Rightarrow> workflow_state" where
  "step_state steps step x = (new_workflow ''i'' ''g'' ''s'' 0)
     \<lparr>completed_steps := steps, current_step := step, status := x, tool_calls := int (length steps)\<rparr>"

definition planned_deployment :: "script deployment_calls" where
  "planned_deployment =
     \<lparr>dc_identity = ret (Some ''account''), dc_create = (\<lambda>_ _. ret (new_workflow ''i'' ''g'' ''s'' 0)),
      dc_incident = (\<lambda>_ (polls, tasks). (Inr (hd polls), (tl polls, tasks))),
      dc_events = (\<lambda>_. ret
        [\<lparr>ev_id = IdInt 1, ev_task_id = ''i'', ev_type = ''APPROVAL_GRANTED'', ev_payload = [], ev_created_at = 0\<rparr>,
         \<lparr>ev_id = IdInt 2, ev_task_id = ''i'', ev_type = ''TOOL_COMPLETED'',
          ev_payload = [(''tool'', JStr ''restart_service'')], ev_created_at = 0\<rparr>]),
      dc_approve = (\<lambda>_ _ _. ret ()), dc_running = (\<lambda>(polls, tasks). (Inr (hd tasks), (polls, tl tasks))),
      dc_stop = (\<lambda>_ _. ret ())\<rparr>"

definition planned_script :: script where
  "planned_script =
     ([step_state [] None QUEUED, step_state (take 3 expected_steps) (Some ''dependency_health'') RUNNING,
       step_state (take 4 expected_steps) None QUEUED, step_state (take 4 expected_steps) None WAITING_FOR_APPROVAL,
       step_state expected_steps None COMPLETED], [[''a/1''], [''a/1''], [''a/1'', ''a/2'']])"

definition planned_run :: "(error + proof_report) \<times> script" where
  "planned_run = run_proof planned_deployment (Some ''token'') ''restore'' ''ann'' 9 planned_script"

theorem acceptance_proves_witness:
  "\<exists>r s'. run_proof planned_deployment (Some ''token'') ''restore'' ''ann'' 9 planned_script = (Inr r, s') \<and>
    pr_restarts r = 1"
proof -
  have "(case planned_run of (Inr r, s') \<Rightarrow> True | _ \<Rightarrow> False)" by code_simp
  then obtain r s' where run: "run_proof planned_deployment (Some ''token'') ''restore'' ''ann'' 9 planned_script = (Inr r, s')"
    by (auto simp: planned_run_def split: prod.splits sum.splits)
  from acceptance_proves [OF run] run show ?thesis by blast
qed

subsection \<open>Secrets\<close>

lemma strip_where_id: "s = [] \<or> \<not> P (hd s) \<and> \<not> P (last s) \<Longrightarrow> strip_where P s = s"
proof (cases s rule: rev_cases)
  case Nil
  then show ?thesis by (simp add: strip_where_def)
next
  case (snoc t ch)
  assume "s = [] \<or> \<not> P (hd s) \<and> \<not> P (last s)"
  with snoc have "\<not> P (hd s)" "\<not> P ch" by auto
  then have "dropWhile P s = s" by (cases s) simp_all
  with snoc \<open>\<not> P ch\<close> show ?thesis by (simp add: strip_where_def)
qed

lemma strip_where_around: "P q \<Longrightarrow> s \<noteq> [] \<Longrightarrow> \<not> P (hd s) \<Longrightarrow> \<not> P (last s) \<Longrightarrow> strip_where P (q # s @ [q]) = s"
proof -
  assume P: "P q" and s: "s \<noteq> []" "\<not> P (hd s)" "\<not> P (last s)"
  then have "dropWhile P (q # s @ [q]) = s @ [q]" by (cases s) simp_all
  moreover have "dropWhile P (rev s) = rev s" using s by (cases s rule: rev_cases) simp_all
  ultimately show ?thesis using P by (simp add: strip_where_def)
qed

definition plain_text :: "string \<Rightarrow> bool" where
  "plain_text v \<longleftrightarrow> v \<noteq> [] \<and>
     (\<forall>ch \<in> {hd v, last v}. \<not> white ch \<and> ch \<noteq> CHR 0x22 \<and> ch \<noteq> CHR 0x27)"

definition quoted :: "char option \<Rightarrow> string \<Rightarrow> string" where
  "quoted q v = (case q of None \<Rightarrow> v | Some ch \<Rightarrow> ch # v @ [ch])"

lemma env_value_quoted:
  assumes "plain_text v" and "q = None \<or> q = Some (CHR 0x22) \<or> q = Some (CHR 0x27)"
  shows "env_value (quoted q v) = v"
proof -
  have v: "v \<noteq> []" "\<not> white (hd v)" "\<not> white (last v)" "hd v \<noteq> CHR 0x22" "last v \<noteq> CHR 0x22" "hd v \<noteq> CHR 0x27"
    "last v \<noteq> CHR 0x27" using assms(1) by (auto simp: plain_text_def)
  have white: "strip_where white (quoted q v) = quoted q v"
    using v assms(2) by (intro strip_where_id) (auto simp: quoted_def white_def)
  from assms(2) show ?thesis
  proof (elim disjE)
    assume "q = None"
    then show ?thesis using v white by (simp add: env_value_def quoted_def strip_where_id)
  next
    assume q: "q = Some (CHR 0x22)"
    then have "strip_where (\<lambda>ch. ch = CHR 0x22) (quoted q v) = v" using v by (simp add: quoted_def strip_where_around)
    then show ?thesis using v white by (simp add: env_value_def strip_where_id)
  next
    assume q: "q = Some (CHR 0x27)"
    then have "strip_where (\<lambda>ch. ch = CHR 0x22) (quoted q v) = quoted q v"
      by (intro strip_where_id) (simp add: quoted_def)
    moreover have "strip_where (\<lambda>ch. ch = CHR 0x27) (quoted q v) = v"
      using q v by (simp add: quoted_def strip_where_around)
    ultimately show ?thesis using white by (simp add: env_value_def)
  qed
qed

definition sets_name :: "string \<Rightarrow> string \<Rightarrow> bool" where
  \<comment> \<open>a line that \<open>read_env_value\<close> takes\<close>
  "sets_name name raw \<longleftrightarrow> read_env_value [raw] name [] \<noteq> Inl (ValueError (name @ '' is missing from ''))"

lemma read_env_skip: "\<not> sets_name name raw \<Longrightarrow> read_env_value (raw # lines) name path = read_env_value lines name path"
  by (auto simp: sets_name_def Let_def split: if_splits)

lemma read_env_append:
  "list_all (\<lambda>raw. \<not> sets_name name raw) before \<Longrightarrow> read_env_value (before @ lines) name path = read_env_value lines name path"
  by (induction before) (simp_all add: read_env_skip del: read_env_value.simps)

lemma split_at_char:
  "c \<notin> set n \<Longrightarrow> takeWhile (\<lambda>ch. ch \<noteq> c) (n @ c # r) = n \<and> tl (dropWhile (\<lambda>ch. ch \<noteq> c) (n @ c # r)) = r"
  by (induction n) auto

text \<open>
  A secret is read as it was written: a line \<open>NAME=value\<close>, the value plain or in quotes of either kind,
  is read as that value, provided that no line before it defines the name.
\<close>

theorem secret_read_back:
  assumes "list_all (\<lambda>raw. \<not> sets_name name raw) before" and "plain_text name" and "plain_text v"
    and "hd name \<noteq> CHR ''#''" and "CHR ''='' \<notin> set name"
    and "q = None \<or> q = Some (CHR 0x22) \<or> q = Some (CHR 0x27)"
  shows "read_env_value (before @ (name @ ''='' @ quoted q v) # after) name path = Inr v"
proof -
  let ?raw = "name @ ''='' @ quoted q v"
  have "v \<noteq> []" using assms(3) by (simp add: plain_text_def)
  then have "last ?raw = last (quoted q v)" by (auto simp: quoted_def split: option.split)
  moreover have "\<not> white (last (quoted q v))"
    using assms(3,6) by (auto simp: quoted_def plain_text_def white_def)
  ultimately have raw: "strip_where white ?raw = ?raw"
    using assms(2) by (intro strip_where_id) (auto simp: plain_text_def)
  have key: "takeWhile (\<lambda>ch. ch \<noteq> CHR ''='') ?raw = name" "tl (dropWhile (\<lambda>ch. ch \<noteq> CHR ''='') ?raw) = quoted q v"
    using split_at_char [OF assms(5), of "quoted q v"] by simp_all
  have "strip_where white name = name" using assms(2) by (intro strip_where_id) (auto simp: plain_text_def)
  then have "read_env_value (?raw # after) name path = Inr v"
    using raw key assms(2,4) env_value_quoted [OF assms(3,6)] \<open>v \<noteq> []\<close>
    by (auto simp: Let_def plain_text_def)
  then show ?thesis by (simp only: read_env_append [OF assms(1)])
qed

theorem secret_read_back_witness:
  "read_env_value ([''# keys'', ''OTHER=1''] @ (''TOKEN'' @ ''='' @ quoted (Some (CHR 0x22)) ''abc'') # []) ''TOKEN'' ''.env'' =
    Inr ''abc''"
  by (rule secret_read_back)
     (simp_all add: sets_name_def plain_text_def white_def strip_where_def env_value_def)

end
