(* ===== verification/Spec2Isabelle.thy ===== *)
theory Spec2Isabelle
  imports Diagrams Resolution No_Lost_Work Lifecycle Aws_Runs Demo_Service Evaluation Release_Scripts
begin

text \<open>
  \<^bold>\<open>The program.\<close> Agent-resilience-runtime runs incident workflows durably. A workflow is a checkpoint
  (\<open>WorkflowState\<close>) in a store; a queue holds its deliveries. A worker claims a delivery under a lease
  and lets the runtime take one bounded step: ask a decision engine, check the requested tool against
  the policy and the loop detector, then call the tool through a gateway, wait for a human, or end the
  workflow. The control-plane API creates incidents, answers approvals, replays dead letters and reads.

  \<^bold>\<open>Theories and sources\<close> (under \<open>src/agent_resilience/\<close> unless said otherwise).
  \<^item> \<open>Prelude\<close>: state-and-exception programs, weakest preconditions, guarantees (\<open>relates\<close>), results under
    an invariant (\<open>ensures\<close>), Python slices. \<open>Json\<close>: JSON values, \<open>json.dumps\<close>, the platform parameters.
  \<^item> \<open>Models\<close>: \<open>errors.py\<close>, \<open>models.py\<close>. \<open>Fixtures\<close>: \<open>src/fixtures/scenarios.json\<close> and a sample platform.
  \<^item> \<open>Contracts\<close>: \<open>contracts.py\<close> as the record \<open>runtime_store\<close>, with the laws its clients use as locales
    (\<open>checkpoint_store\<close>, \<open>idempotency_ledger\<close>, \<open>approval_ledger\<close>).
  \<^item> \<open>Loop_Detector\<close>: \<open>loop_detector.py\<close>. \<open>Policy\<close>: \<open>policy.py\<close>. \<open>Tool_Gateway\<close>: \<open>tools.py\<close>.
  \<^item> \<open>Sql_Store\<close>: \<open>store.py\<close>, every operation over explicit tables (record \<open>world\<close>). \<open>Sql_Laws\<close>: the table
    invariant \<open>world_ok\<close> and the interpretations of the contracts; \<open>Sql_Queue\<close>: leases, retries, active
    deliveries; \<open>Sql_Evolution\<close>: what no operation undoes (\<open>evolves\<close>).
  \<^item> \<open>Config\<close>: \<open>config.py\<close>, \<open>factory.py\<close>. \<open>Decision\<close>: \<open>decision.py\<close>, with the agents as data. \<open>Runtime\<close>: \<open>runtime.py\<close>,
    function by function along \<open>process\<close>. \<open>Worker\<close>: \<open>worker.py\<close>. \<open>Api\<close>: \<open>api.py\<close>, with routing as the function
    \<open>handle\<close>. \<open>Lifecycle\<close>: the embedded worker of \<open>api.py\<close> from start to shutdown. \<open>Telemetry\<close>: the CloudWatch
    metrics and the tracing set-up of \<open>metrics.py\<close>. \<open>Diagrams\<close>: \<open>src/scripts/generate_diagrams.py\<close>.
  \<^item> \<open>Runtime_Laws\<close>: a guarantee of the store operations is one of every run of the runtime, worker and
    API (locales \<open>store_guarantee\<close>, \<open>runtime_guarantee\<close>). \<open>Guarded_Runs\<close>: over any store and backend that keep
    an invariant (locale \<open>guarded_runtime\<close>), every run saves \<open>good\<close> checkpoints only and calls tools only as
    permitted. \<open>Interruption\<close>: stores that others write to between two operations, and operations that are cut
    off. \<open>Safety\<close>: the invariant \<open>safe\<close> and the locale \<open>sql_runtime\<close>. \<open>Serial_Runs\<close>: runs without interleaved
    writers. \<open>System\<close>: the step relation of the whole system over SQLite. \<open>Delivery\<close>: what one delivery does,
    ending by ending. \<open>Liveness\<close>: how many deliveries bring a workflow to rest. \<open>Resolution\<close>: an incident from its
    creation to its resolution. \<open>Api_Laws\<close>: what each request does. \<open>Complete_Delivery\<close>, \<open>Settled_Delivery\<close>,
    \<open>No_Lost_Work\<close>: the queue keeps what the checkpoints need, over whole deliveries and requests (locale
    \<open>undisturbed\<close>). \<open>Examples\<close>, \<open>Crash_Points\<close>, \<open>Races\<close>: concrete histories.
  \<^item> \<open>Aws_Store\<close>: \<open>aws_store.py\<close>, every operation over the record \<open>cloud\<close> of the DynamoDB and SQS calls it
    makes. \<open>Shared_Table\<close>: what the store's writes do to a table that others write to as well (locales
    \<open>shared_dynamo\<close>, \<open>table_guarantee\<close>). \<open>Aws_Laws\<close>: the table alone, with DynamoDB's documented conditional
    writes (locale \<open>dynamo\<close>), services failing at any call. \<open>Aws_Contracts\<close>: while the services answer (locale
    \<open>dynamo_up\<close>) the store gives the contracts of \<open>Contracts\<close>. \<open>Memory_Cloud\<close>: a table and a queue in memory,
    which interpret both locales. \<open>Store_Agreement\<close>: one abstract store that SQLite refines and that both
    stores agree with. \<open>Aws_System\<close>: the runtime, worker and API over this store. \<open>Aws_Safety\<close>: the safety
    invariant of the table, kept by every run (locale \<open>logged_runtime\<close>, an instance of \<open>guarded_runtime\<close>).
    \<open>Aws_Runs\<close>: the step relation of the AWS deployment.
  \<^item> \<open>Aws_Operations\<close>, \<open>Aws_Operations_Laws\<close>: \<open>aws_tools.py\<close>. \<open>Demo_Service\<close>: \<open>demo_service.py\<close> and the two
    together. \<open>Evaluation\<close>: \<open>src/evals/run_local.py\<close>, \<open>src/evals/generate_cases.py\<close>. \<open>Release_Scripts\<close>:
    \<open>src/scripts/verify_milestone4.py\<close>, \<open>src/scripts/publish_aws_secrets.py\<close>.

  \<^bold>\<open>How operations correspond.\<close> A Python method that reads or writes the store is a program
  \<open>'s \<Rightarrow> (error + 'a) \<times> 's\<close>; a raise is \<open>Inl\<close>, a \<open>try\<close> is \<open>try_catch\<close>, every \<open>save_workflow\<close> and
  \<open>record_event\<close> of the source is there, in its order. The clock of an operation is an argument.

  \<^bold>\<open>Concurrency and crashes.\<close> Workers and the control plane are processes that share the store; each of its
  operations is one statement or one transaction. In \<open>System\<close> a step is a request, a delivery or a
  heartbeat of some process, and before each of its operations, each call of a tool, and while it awaits the
  model or the chaos pause, the others take any number of steps (\<open>surroundings_within\<close>, \<open>awaits_within\<close>);
  every operation has a time of its own. A crash is the end of its fuel: a run is given some number of operations and ends
  with \<open>Process_Killed\<close> when they are used up; every cut-off run is a step, for every amount, so no bound is
  assumed. The engine and the answers of external systems are arbitrary. \<open>serial_step\<close> is the part in which the
  others act only during the awaits, as in one event loop.

  The AWS deployment is a second such system (\<open>Aws_Runs\<close>): a store operation is several calls of services, so
  the others act before every call, a call may fail, may take effect although an error is reported, or be the
  last one, and the queues may change at any time. DynamoDB is any service with the laws of \<open>dynamo\<close>.

  \<^bold>\<open>What the properties show.\<close> C1-C9 hold in every reachable world of the system over SQLite (the last part of
  C3 along serial steps): approval before a production restart, validated calls, no repetition after a recorded
  success, final approvals, versions that only grow, bounded tool calls, what waiting workflows wait for, typed
  checkpoints, the append-only log. For the AWS deployment the same safety is stated over the items of its table
  (\<open>Aws_Runs\<close>), and what is permanent there (\<open>Aws_System\<close>). Then how workflows end: an incident run to its
  resolution, a bound on the deliveries of any workflow (\<open>Resolution\<close>, \<open>Liveness\<close>), and that complete runs lose
  no work (\<open>No_Lost_Work\<close>; \<open>Crash_Points\<close> and \<open>Races\<close> show how a crash or a race does). The others are about
  one component or two that meet: both stores against one abstract store (\<open>Store_Agreement\<close>); a heartbeat that
  fails, and the worker inside the API (\<open>Lifecycle\<close>); the AWS tools alone and against the demo service's metrics
  (\<open>Aws_Operations_Laws\<close>, \<open>Demo_Service\<close>); the SQLite store (\<open>Sql_Queue\<close>, \<open>Sql_Evolution\<close>); the loop detector;
  one delivery, ending by ending (\<open>Delivery\<close>); the API (\<open>Api_Laws\<close>); what a green acceptance or evaluation
  report implies (\<open>Release_Scripts\<close>, \<open>Evaluation\<close>).

  \<^bold>\<open>Bounds.\<close> The code's own loops are bounded and the recursions follow them: an evaluation case takes at
  most its forty rounds, a wait of the acceptance test polls as often as its argument \<open>n\<close> says before the deadline
  ends it, serving the demo runs for as many rounds as asked. The properties hold for every such number. Forty-two
  deliveries bring a workflow to rest because the loop detector ends it at the twentieth request: each delivery
  that does not end it lowers a measure that starts at forty-one at most.

  \<^bold>\<open>Not modelled.\<close> The Prometheus counters and logging (no effect on workflows); the runs of the agents SDK (an
  outcome is a parameter of \<open>openai_decide\<close>) and of boto3 (the records \<open>cloud\<close> and \<open>operations\<close>); the
  construction of their clients; reading the environment and argument parsing; uvicorn, and HTTP parsing and
  serialisation by FastAPI and Pydantic beyond the constraints of the models; report files; static assets;
  Terraform; thread-local connections and pragmas of SQLite; the overflow of a float in the back-off. SHA-256,
  number formatting and parsing are parameters (record \<open>platform\<close>).
\<close>

section \<open>Safety of the whole system\<close>

text \<open>
  C1: In every reachable world - any requests, any deliveries by any workers, cut off anywhere and
  interleaved before every operation, with any engine and any answers of the tools - a production
  restart that an external system received has an approval row in state APPROVED under exactly the
  action id of its workflow, tool and arguments.
\<close>

theorem restart_needs_approval:
  assumes "reachable pf c w" and "iv \<in> set (invocations w)"
    and "iv_tool iv = RESTART_SERVICE" and "reads_production (iv_arguments iv)"
  shows "approval_of w (iv_task_id iv) (action_key pf (iv_task_id iv) RESTART_SERVICE (iv_arguments iv)) =
    Some ''APPROVED''"
  using reachable_safe [OF assms(1)] assms(2-4)
  by (auto simp: safe_def authorised_def permitted_def approved_def production_restart_def)

theorem restart_needs_approval_witness:
  "\<exists>iv \<in> set (invocations restarted_world). iv_tool iv = RESTART_SERVICE \<and>
     approval_of restarted_world (iv_task_id iv)
       (action_key sample_platform (iv_task_id iv) RESTART_SERVICE (iv_arguments iv)) = Some ''APPROVED''"
proof -
  have "map (\<lambda>iv. (iv_tool iv, iv_arguments iv)) (invocations restarted_world) = [(RESTART_SERVICE, checkout_arguments)]"
    using glance_restarted by (simp add: glance_def)
  then obtain iv where iv: "iv \<in> set (invocations restarted_world)" "iv_tool iv = RESTART_SERVICE"
    "iv_arguments iv = checkout_arguments"
    by (cases "invocations restarted_world") auto
  have "reads_production (iv_arguments iv)"
    by (simp add: iv(3) checkout_arguments_def reads_production_def lower_char_def)
  from restart_needs_approval [OF eager_reachable(4) iv(1,2) this] iv(1,2) show ?thesis by blast
qed

text \<open>
  C2: In every reachable world, no external system ever received the blocked tool, and what it did
  receive are validated arguments, in the normal form of their model.
\<close>

theorem only_validated_calls:
  assumes "reachable pf c w" and "iv \<in> set (invocations w)"
  shows "iv_tool iv \<noteq> DELETE_DATABASE \<and>
    validate_arguments (argument_model_of (iv_tool iv)) (iv_arguments iv) = Some (iv_arguments iv)"
  using reachable_safe [OF assms(1)] assms(2)
  by (auto simp: safe_def authorised_def permitted_def validated_def)

theorem only_validated_calls_witness:
  "\<exists>iv \<in> set (invocations restarted_world).
     validate_arguments (argument_model_of (iv_tool iv)) (iv_arguments iv) = Some (iv_arguments iv)"
proof -
  have "invocations restarted_world \<noteq> []" using glance_restarted by (auto simp: glance_def)
  then obtain iv where "iv \<in> set (invocations restarted_world)" by (cases "invocations restarted_world") auto
  with only_validated_calls [OF eager_reachable(4) this] show ?thesis by blast
qed

text \<open>
  C3: Once a result is recorded under an action id, no step of the system takes it away; and where deliveries
  overlap only while one of them awaits - a redelivery, a retry, a crash and a resumption, another worker
  after the lease - no external system receives that action again.
\<close>

theorem at_most_once_after_success:
  assumes "reachable pf c w" and "ledger w k = Some x"
  shows "((system_step pf c)\<^sup>*\<^sup>* w w' \<longrightarrow> ledger w' k = Some x) \<and>
    ((serial_step pf c)\<^sup>*\<^sup>* w w' \<longrightarrow> ledger w' k = Some x \<and> calls pf k w' = calls pf k w)"
  using system_endures(3) [OF assms(1)] serial_evolves [OF assms(1)] assms(2)
  unfolding results_kept_def results_final_def by blast

theorem at_most_once_after_success_witness:
  "calls sample_platform restart_key later_world = calls sample_platform restart_key restarted_world \<and>
   ledger later_world restart_key \<noteq> None"
proof -
  have "ledger restarted_world restart_key \<noteq> None" using glance_restarted by (auto simp: glance_def)
  then obtain x where "ledger restarted_world restart_key = Some x" by blast
  from at_most_once_after_success [OF eager_reachable(4) this, of later_world] eager_steps(5) [where serial = True]
  show ?thesis by simp
qed

text \<open>C4: A human decision is final: no step of the system changes an approval that is resolved.\<close>

theorem approvals_stay_resolved:
  assumes "reachable pf c w" and "(system_step pf c)\<^sup>*\<^sup>* w w'"
    and "approval_of w t a = Some x" and "x \<noteq> ''PENDING''"
  shows "approval_of w' t a = Some x"
  using system_endures(2) [OF assms(1,2)] assms(3,4) by (simp add: approvals_final_def)

theorem approvals_stay_resolved_witness:
  "approval_of later_world ''incident-1'' restart_key = Some ''APPROVED''"
proof (rule approvals_stay_resolved [OF eager_reachable(4) eager_steps(5)])
  show "approval_of restarted_world ''incident-1'' restart_key = Some ''APPROVED''"
    using glance_restarted by (simp add: glance_def)
qed simp

text \<open>
  C5: Optimistic concurrency across the system: a checkpoint never disappears, its version never goes
  back, and two checkpoints of one workflow with the same version are the same checkpoint.
\<close>

theorem checkpoints_versioned:
  assumes "reachable pf c w" and "(system_step pf c)\<^sup>*\<^sup>* w w'" and "checkpoint w t = Some st"
  shows "\<exists>st'. checkpoint w' t = Some st' \<and> (st' = st \<or> version st < version st')"
  using system_endures(1) [OF assms(1,2)] assms(3) by (simp add: versions_grow_def)

theorem checkpoints_versioned_witness:
  "\<exists>st st'. checkpoint waiting_world ''incident-1'' = Some st \<and> checkpoint restarted_world ''incident-1'' = Some st' \<and>
     (st' = st \<or> version st < version st')"
proof -
  obtain st where st: "checkpoint waiting_world ''incident-1'' = Some st"
    using glance_waiting by (auto simp: glance_def)
  have "(system_step sample_platform default_settings)\<^sup>*\<^sup>* waiting_world restarted_world"
    using eager_steps(3,4) by (rule rtranclp_trans)
  from checkpoints_versioned [OF eager_reachable(2) this st] st show ?thesis by blast
qed

text \<open>
  C6: Bounded autonomy: in every reachable world every workflow has completed fewer than twenty tool
  calls, and never more than it has requested.
\<close>

theorem tool_calls_bounded:
  assumes "reachable pf c w" and "checkpoint w t = Some st"
  shows "tool_calls st < 20 \<and> tool_calls st \<le> int (length (tool_history st))"
  using reachable_good [OF assms]
  by (simp add: good_def within_budget_def reserved_calls_def default_loop_detector_def split: if_splits)

theorem tool_calls_bounded_witness:
  "\<exists>st. checkpoint restarted_world ''incident-1'' = Some st \<and> tool_calls st < 20"
proof -
  obtain st where st: "checkpoint restarted_world ''incident-1'' = Some st"
    using glance_restarted by (auto simp: glance_def)
  from tool_calls_bounded [OF eager_reachable(4) st] st show ?thesis by blast
qed

text \<open>
  C7: A workflow that waits for approval names what it waits for: a validated production restart under
  the action id that the approval endpoints resolve.
\<close>

theorem waiting_names_its_action:
  assumes "reachable pf c w" and "checkpoint w t = Some st" and "status st = WAITING_FOR_APPROVAL"
  shows "\<exists>p. pending_action st = Some p \<and> pa_tool p = RESTART_SERVICE \<and> reads_production (pa_arguments p) \<and>
    validate_arguments Service_Arguments (pa_arguments p) = Some (pa_arguments p) \<and>
    action_id p = action_key pf (task_id st) RESTART_SERVICE (pa_arguments p)"
proof -
  note g = reachable_good [OF assms(1,2)]
  then obtain p where p: "pending_action st = Some p" using assms(3) by (auto simp: good_def split: option.splits)
  with g have "pa_tool p = RESTART_SERVICE" by (simp add: good_def production_restart_def)
  with g p show ?thesis by (simp add: good_def production_restart_def validated_def)
qed

theorem waiting_names_its_action_witness:
  "\<exists>st p. checkpoint waiting_world ''incident-1'' = Some st \<and> pending_action st = Some p \<and> pa_tool p = RESTART_SERVICE"
proof -
  obtain st where st: "checkpoint waiting_world ''incident-1'' = Some st" "status st = WAITING_FOR_APPROVAL"
    using glance_waiting by (auto simp: glance_def)
  from waiting_names_its_action [OF eager_reachable(2) st] st(1) show ?thesis by blast
qed

text \<open>
  C8: Every stored checkpoint is well typed: its history names tools only, each completed step was requested
  before and has exactly one piece of evidence, an object; no step is completed twice in the list, the
  counters count, and there is one fingerprint per request and one per completed call.
\<close>

theorem checkpoints_typed:
  assumes "reachable pf c w" and "checkpoint w t = Some st"
  shows "typed_state st"
  by (rule good_typed [OF reachable_good [OF assms]])

theorem checkpoints_typed_witness:
  "\<exists>st. checkpoint restarted_world ''incident-1'' = Some st \<and> typed_state st"
proof -
  obtain st where st: "checkpoint restarted_world ''incident-1'' = Some st"
    using glance_restarted by (auto simp: glance_def)
  from checkpoints_typed [OF eager_reachable(4) st] st show ?thesis by blast
qed

text \<open>
  C9: The event log is append-only: whatever the system does, the events of a workflow that were
  listed before are a prefix of those listed later.
\<close>

theorem events_append_only:
  assumes "reachable pf c w" and "(system_step pf c)\<^sup>*\<^sup>* w w'"
  shows "\<exists>es es'. fst (list_events t w) = Inr es \<and> fst (list_events t w') = Inr (es @ es')"
  using system_endures(4) [OF assms(1,2)] by (auto simp: logs_grow_def list_events_def)

theorem events_append_only_witness:
  "\<exists>es es'. fst (list_events ''incident-1'' waiting_world) = Inr es \<and>
     fst (list_events ''incident-1'' approved_world) = Inr (es @ es')"
  by (rule events_append_only [OF eager_reachable(2) eager_steps(3)])

end
